(* ===== verification/Prelude.thy ===== *)
theory Prelude
  imports Main "HOL-Library.Word" "HOL-Library.Char_ord" "HOL-Library.List_Lexorder"
    "HOL-Library.Sublist"
begin

text \<open>
  The vocabulary the component theories share.

  \<^item> Rust's machine integers: \<open>u64\<close> and \<open>usize\<close> are 64-bit words.  The operators \<open>+\<close>, \<open>-\<close> and
    \<open>*\<close> wrap, which is what an optimised build of the crate does; the checked and saturating
    operations of the standard library are definitions of their own.
  \<^item> Results: \<open>Ok\<close> and \<open>Err\<close> name the two sides of a sum, \<open>rbind\<close> is the question-mark operator, and
    a computation that may not return has the type \<open>run\<close>, in which \<^term>\<open>None\<close> means that it does
    not return.
  \<^item> Strings and bytes, decimal printing, and the B-tree map as an association list sorted by key.
\<close>

named_theorems u64_nat \<open>reading machine arithmetic as arithmetic on natural numbers\<close>
named_theorems run_simps \<open>unfolding the result and run combinators\<close>

section \<open>Machine integers\<close>

type_synonym u64 = "64 word"
type_synonym usize = "64 word"
type_synonym byte = "8 word"
type_synonym bytes = "byte list"

definition checked_add :: "u64 \<Rightarrow> u64 \<Rightarrow> u64 option" where
  "checked_add a b = (if unat a + unat b < 2 ^ 64 then Some (a + b) else None)"

definition checked_sub :: "u64 \<Rightarrow> u64 \<Rightarrow> u64 option" where
  "checked_sub a b = (if b \<le> a then Some (a - b) else None)"

definition checked_mul :: "u64 \<Rightarrow> u64 \<Rightarrow> u64 option" where
  "checked_mul a b = (if unat a * unat b < 2 ^ 64 then Some (a * b) else None)"

definition saturating_sub :: "u64 \<Rightarrow> u64 \<Rightarrow> u64" where
  "saturating_sub a b = (if b \<le> a then a - b else 0)"

definition saturating_add :: "u64 \<Rightarrow> u64 \<Rightarrow> u64" where
  "saturating_add a b = (if unat a + unat b < 2 ^ 64 then a + b else - 1)"

definition saturating_mul :: "u64 \<Rightarrow> u64 \<Rightarrow> u64" where
  "saturating_mul a b = (if unat a * unat b < 2 ^ 64 then a * b else - 1)"

definition div_ceil :: "u64 \<Rightarrow> u64 \<Rightarrow> u64" where
  "div_ceil a b = (if a mod b > 0 then a div b + 1 else a div b)"

fun checked_sum :: "u64 list \<Rightarrow> u64 option" where
  "checked_sum [] = Some 0"
| "checked_sum (x # xs) =
     (case checked_sum xs of None \<Rightarrow> None | Some s \<Rightarrow> checked_add x s)"

lemma unat_u64_less: "unat (x :: u64) < 18446744073709551616"
  using unsigned_less [of x] by simp

lemma unat_add_exact [u64_nat]:
  "unat (a :: u64) + unat b < 2 ^ 64 \<Longrightarrow> unat (a + b) = unat a + unat b"
  by (simp add: unat_word_ariths take_bit_nat_def)

lemma unat_mult_exact [u64_nat]:
  "unat (a :: u64) * unat b < 2 ^ 64 \<Longrightarrow> unat (a * b) = unat a * unat b"
  by (simp add: unat_word_ariths take_bit_nat_def)

lemma unat_sub_exact [u64_nat]: "b \<le> a \<Longrightarrow> unat (a - b :: u64) = unat a - unat b"
  by (simp add: unat_sub)

lemma unat_inc_exact: "unat (a :: u64) < 2 ^ 64 - 1 \<Longrightarrow> unat (a + 1) = unat a + 1"
  by (subst unat_add_exact) simp_all

lemma unat_word_of_nat_u64: "n < 2 ^ 64 \<Longrightarrow> unat (word_of_nat n :: u64) = n"
  by (simp add: unat_of_nat take_bit_nat_def)

lemma unat_saturating_sub [simp]: "unat (saturating_sub a b) = unat a - unat b"
  by (simp add: saturating_sub_def unat_sub_exact word_le_nat_alt)

lemma saturating_sub_le [simp]: "saturating_sub a b \<le> a"
  by (simp add: word_le_nat_alt)

lemma checked_add_code [code]: "checked_add a b = (if a + b < a then None else Some (a + b))"
proof (cases "unat a + unat b < 2 ^ 64")
  case True
  then show ?thesis by (simp add: checked_add_def word_less_nat_alt unat_add_exact)
next
  case False
  have "unat (a + b) = (unat a + unat b) mod 2 ^ 64"
    by (simp add: unat_word_ariths take_bit_nat_def)
  also have "\<dots> = unat a + unat b - 2 ^ 64"
    using False unat_u64_less [of a] unat_u64_less [of b] by (simp add: mod_if)
  finally have "a + b < a" using False unat_u64_less [of b] by (simp add: word_less_nat_alt)
  then show ?thesis using False by (simp add: checked_add_def)
qed

lemma checked_add_eq_Some:
  "checked_add a b = Some c \<longleftrightarrow> unat a + unat b < 2 ^ 64 \<and> c = a + b"
  by (auto simp: checked_add_def)

lemma checked_sub_eq_Some:
  "checked_sub a b = Some c \<longleftrightarrow> b \<le> a \<and> c = a - b"
  by (auto simp: checked_sub_def)

lemma checked_sum_spec:
  "checked_sum xs = (if sum_list (map unat xs) < 2 ^ 64 then Some (sum_list xs) else None)
   \<and> (sum_list (map unat xs) < 2 ^ 64 \<longrightarrow> unat (sum_list xs) = sum_list (map unat xs))"
proof (induction xs)
  case (Cons x xs)
  show ?case
  proof (cases "sum_list (map unat xs) < 2 ^ 64")
    case True
    then show ?thesis using Cons by (auto simp: checked_add_def unat_add_exact)
  next
    case False
    then show ?thesis using Cons by auto
  qed
qed simp

lemma unat_sum_list_exact:
  "sum_list (map unat xs) < 2 ^ 64 \<Longrightarrow> unat (sum_list xs :: u64) = sum_list (map unat xs)"
  using checked_sum_spec [of xs] by blast

lemma checked_sum_eq_Some:
  "checked_sum xs = Some s \<longleftrightarrow> sum_list (map unat xs) < 2 ^ 64 \<and> s = sum_list xs"
  using checked_sum_spec [of xs] by auto

lemma saturating_code [code]:
  "saturating_add a b = (if a + b < a then - 1 else a + b)"
  "saturating_mul a b = (if uint a * uint b < 2 ^ 64 then a * b else - 1)"
proof -
  show "saturating_add a b = (if a + b < a then - 1 else a + b)"
    using checked_add_code [of a b] by (auto simp: saturating_add_def checked_add_def split: if_splits)
  have eq: "uint a * uint b = int (unat a * unat b)" by simp
  have "int n < 2 ^ 64 \<longleftrightarrow> n < 2 ^ 64" for n by simp
  then have "uint a * uint b < 2 ^ 64 \<longleftrightarrow> unat a * unat b < 2 ^ 64" unfolding eq .
  then show "saturating_mul a b = (if uint a * uint b < 2 ^ 64 then a * b else - 1)"
    by (simp add: saturating_mul_def)
qed

lemma unat_saturating [u64_nat]:
  "unat (saturating_add a b) = min (unat a + unat b) (2 ^ 64 - 1)"
  "unat (saturating_mul a b) = min (unat a * unat b) (2 ^ 64 - 1)"
proof -
  have "unat (- 1 :: u64) = 2 ^ 64 - 1" by (simp add: unsigned_minus_1_eq_mask mask_eq_exp_minus_1)
  then show "unat (saturating_add a b) = min (unat a + unat b) (2 ^ 64 - 1)"
    "unat (saturating_mul a b) = min (unat a * unat b) (2 ^ 64 - 1)"
    by (auto simp: saturating_add_def saturating_mul_def unat_add_exact unat_mult_exact min_def)
qed

lemma ceil_div_nat:
  fixes m b :: nat
  assumes "0 < b" "m mod b \<noteq> 0"
  shows "(m + b - 1) div b = m div b + 1"
proof -
  define q r where "q = m div b" and "r = m mod b"
  then have "m = b * q + r" "0 < r" "r < b" using assms by auto
  then show ?thesis unfolding q_def [symmetric] by (intro div_nat_eqI) (auto simp: algebra_simps)
qed

lemma unat_div_ceil:
  assumes "0 < b"
  shows "unat (div_ceil a b) = (unat a + unat b - 1) div unat b"
proof -
  have b: "0 < unat b" using assms by (simp add: word_less_nat_alt)
  show ?thesis
  proof (cases "unat a mod unat b = 0")
    case True
    then obtain k where k: "unat a = unat b * k" by auto
    have "(unat b * k + unat b - 1) div unat b = k"
      using b by (simp add: div_nat_eqI algebra_simps)
    moreover have "a mod b = 0" using True by (simp add: word_arith_nat_mod)
    ultimately show ?thesis using b k by (simp add: div_ceil_def unat_div)
  next
    case False
    then have pos: "a mod b > 0" by (simp add: word_less_nat_alt unat_mod)
    have b2: "2 \<le> unat b" using False b by (cases "unat b = 1") auto
    have "unat a div unat b \<le> unat a div 2" using b2 by (simp add: div_le_mono2)
    then have lt: "unat a div unat b < 18446744073709551615"
      using unat_u64_less [of a] by linarith
    have "(unat a + unat b - 1) div unat b = unat a div unat b + 1"
      using False b by (intro ceil_div_nat) auto
    moreover have "unat (a div b + 1) = unat a div unat b + 1"
      using lt by (subst unat_inc_exact) (simp_all add: unat_div)
    ultimately show ?thesis using pos by (simp add: div_ceil_def)
  qed
qed

section \<open>Results and computations that may not return\<close>

type_synonym ('e, 'a) result = "'e + 'a"
type_synonym ('e, 'a) run = "('e + 'a) option"

abbreviation Ok :: "'a \<Rightarrow> ('e, 'a) result" where "Ok \<equiv> Inr"
abbreviation Err :: "'e \<Rightarrow> ('e, 'a) result" where "Err \<equiv> Inl"
abbreviation diverges :: "('e, 'a) run" where "diverges \<equiv> None"

definition rbind :: "('e, 'a) result \<Rightarrow> ('a \<Rightarrow> ('e, 'b) result) \<Rightarrow> ('e, 'b) result" where
  "rbind m f = (case m of Err e \<Rightarrow> Err e | Ok x \<Rightarrow> f x)"

definition run_bind :: "('e, 'a) run \<Rightarrow> ('a \<Rightarrow> ('e, 'b) run) \<Rightarrow> ('e, 'b) run" where
  "run_bind m f =
     (case m of None \<Rightarrow> None | Some r \<Rightarrow> (case r of Err e \<Rightarrow> Some (Err e) | Ok x \<Rightarrow> f x))"

definition map_err :: "('e \<Rightarrow> 'f) \<Rightarrow> ('e, 'a) result \<Rightarrow> ('f, 'a) result" where
  "map_err g m = (case m of Err e \<Rightarrow> Err (g e) | Ok x \<Rightarrow> Ok x)"

definition run_map_err :: "('e \<Rightarrow> 'f) \<Rightarrow> ('e, 'a) run \<Rightarrow> ('f, 'a) run" where
  "run_map_err g m = map_option (map_err g) m"

definition ok_or :: "'e \<Rightarrow> 'a option \<Rightarrow> ('e, 'a) result" where
  "ok_or e v = (case v of None \<Rightarrow> Err e | Some x \<Rightarrow> Ok x)"

definition is_ok :: "('e, 'a) result \<Rightarrow> bool" where
  "is_ok m = (case m of Err _ \<Rightarrow> False | Ok _ \<Rightarrow> True)"

fun traverse :: "('a \<Rightarrow> ('e, 'b) result) \<Rightarrow> 'a list \<Rightarrow> ('e, 'b list) result" where
  "traverse f [] = Ok []"
| "traverse f (x # xs) = rbind (f x) (\<lambda>y. rbind (traverse f xs) (\<lambda>ys. Ok (y # ys)))"

lemma rbind_simps [simp]: "rbind (Err e) f = Err e" "rbind (Ok x) f = f x"
  by (simp_all add: rbind_def)

lemma rbind_eq_Ok [run_simps]: "rbind m f = Ok y \<longleftrightarrow> (\<exists>x. m = Ok x \<and> f x = Ok y)"
  by (cases m) auto

lemma rbind_eq_Err [run_simps]:
  "rbind m f = Err e \<longleftrightarrow> m = Err e \<or> (\<exists>x. m = Ok x \<and> f x = Err e)"
  by (cases m) auto

lemma run_bind_simps [simp]:
  "run_bind None f = None" "run_bind (Some (Err e)) f = Some (Err e)"
  "run_bind (Some (Ok x)) f = f x"
  by (simp_all add: run_bind_def)

lemma run_bind_eq_Ok [run_simps]:
  "run_bind m f = Some (Ok y) \<longleftrightarrow> (\<exists>x. m = Some (Ok x) \<and> f x = Some (Ok y))"
  by (auto simp: run_bind_def split: option.splits sum.splits)

lemma run_bind_eq_Err [run_simps]:
  "run_bind m f = Some (Err e) \<longleftrightarrow>
     m = Some (Err e) \<or> (\<exists>x. m = Some (Ok x) \<and> f x = Some (Err e))"
  by (auto simp: run_bind_def split: option.splits sum.splits)

lemma run_bind_eq_None [run_simps]:
  "run_bind m f = None \<longleftrightarrow> m = None \<or> (\<exists>x. m = Some (Ok x) \<and> f x = None)"
  by (auto simp: run_bind_def split: option.splits sum.splits)

lemma map_err_simps [simp]:
  "map_err g (Err e) = Err (g e)" "map_err g (Ok x) = Ok x"
  "map_err g m = Ok x \<longleftrightarrow> m = Ok x"
  by (auto simp: map_err_def split: sum.splits)

lemma run_map_err_simps [simp]:
  "run_map_err g None = None" "run_map_err g (Some r) = Some (map_err g r)"
  "run_map_err g m = Some (Ok x) \<longleftrightarrow> m = Some (Ok x)" "run_map_err g m = None \<longleftrightarrow> m = None"
  by (auto simp: run_map_err_def)

lemma ok_or_simps [simp]:
  "ok_or e None = Err e" "ok_or e (Some x) = Ok x"
  "ok_or e v = Ok x \<longleftrightarrow> v = Some x" "ok_or e v = Err f \<longleftrightarrow> v = None \<and> f = e"
  by (auto simp: ok_or_def split: option.splits)

lemma is_ok_simps [simp]: "is_ok (Ok x)" "\<not> is_ok (Err e)"
  by (simp_all add: is_ok_def)

text \<open>Running a computation on concrete arguments to learn that it succeeds.\<close>

lemma is_ok_obtain: "is_ok m \<Longrightarrow> \<exists>x. m = Ok x"
  by (cases m) simp_all

lemma run_ok_obtain: "map_option is_ok m = Some True \<Longrightarrow> \<exists>x. m = Some (Ok x)"
  using is_ok_obtain by (cases m) auto

lemma traverse_eq_Ok:
  "traverse f xs = Ok ys \<longleftrightarrow> list_all2 (\<lambda>x y. f x = Ok y) xs ys"
proof (induction xs arbitrary: ys)
  case Nil
  then show ?case by auto
next
  case (Cons x xs)
  then show ?case by (cases ys) (auto simp: rbind_eq_Ok)
qed

lemma traverse_length: "traverse f xs = Ok ys \<Longrightarrow> length ys = length xs"
  by (simp add: traverse_eq_Ok list_all2_lengthD)

lemma traverse_nth: "traverse f xs = Ok ys \<Longrightarrow> i < length xs \<Longrightarrow> f (xs ! i) = Ok (ys ! i)"
  unfolding traverse_eq_Ok by (rule list_all2_nthD)

lemma traverse_total: "(\<And>x. x \<in> set xs \<Longrightarrow> f x = Ok (g x)) \<Longrightarrow> traverse f xs = Ok (map g xs)"
  by (induction xs) simp_all

section \<open>Strings and bytes\<close>

text \<open>A Rust string is the list of its UTF-8 code units; the crate's own literals are ASCII.\<close>

definition string_bytes :: "string \<Rightarrow> bytes" where
  "string_bytes s = map (\<lambda>c. word_of_nat (of_char c)) s"

definition quoted :: "string \<Rightarrow> string" where
  "quoted s = [CHR 0x27] @ s @ [CHR 0x27]"

definition contains_str :: "string \<Rightarrow> string \<Rightarrow> bool" where
  "contains_str s pat = list_ex (\<lambda>t. prefix pat t) (suffixes s)"

definition trim_end_char :: "char \<Rightarrow> string \<Rightarrow> string" where
  "trim_end_char c s = rev (dropWhile (\<lambda>d. d = c) (rev s))"

definition to_lower_char :: "char \<Rightarrow> char" where
  "to_lower_char c =
     (if 65 \<le> (of_char c :: nat) \<and> of_char c \<le> (90 :: nat) then char_of (of_char c + 32 :: nat) else c)"

definition digit_char :: "nat \<Rightarrow> char" where
  "digit_char d = char_of (48 + d)"

definition is_digit :: "char \<Rightarrow> bool" where
  "is_digit c = (48 \<le> (of_char c :: nat) \<and> of_char c \<le> (57 :: nat))"

fun show_nat :: "nat \<Rightarrow> string" where
  "show_nat n =
     (if n < 10 then [digit_char n] else show_nat (n div 10) @ [digit_char (n mod 10)])"

declare show_nat.simps [simp del]

definition show_u64 :: "u64 \<Rightarrow> string" where
  "show_u64 w = show_nat (unat w)"

definition read_nat :: "string \<Rightarrow> nat" where
  "read_nat s = foldl (\<lambda>n c. n * 10 + (of_char c - 48)) 0 s"

lemma string_bytes_code [code]: "string_bytes s = map of_char s"
  by (simp add: string_bytes_def of_nat_of_char)

lemma string_bytes_Nil [simp]: "string_bytes [] = []"
  and string_bytes_Cons [simp]: "string_bytes (c # s) = word_of_nat (of_char c) # string_bytes s"
  and string_bytes_append [simp]: "string_bytes (s @ t) = string_bytes s @ string_bytes t"
  and length_string_bytes [simp]: "length (string_bytes s) = length s"
  by (simp_all add: string_bytes_def)

lemma byte_of_char_inj: "inj (\<lambda>c. word_of_nat (of_char c) :: byte)"
proof (rule injI)
  fix c d :: char
  assume "(word_of_nat (of_char c) :: byte) = word_of_nat (of_char d)"
  then have "unat (word_of_nat (of_char c) :: byte) = unat (word_of_nat (of_char d) :: byte)"
    by simp
  then have "(of_char c :: nat) = of_char d"
    by (simp add: unat_of_nat take_bit_nat_def nat_of_char_less_256)
  then show "c = d" by simp
qed

lemma string_bytes_inj [simp]: "string_bytes s = string_bytes t \<longleftrightarrow> s = t"
  unfolding string_bytes_def by (rule inj_map_eq_map [OF byte_of_char_inj])

lemma of_char_digit [simp]: "d < 10 \<Longrightarrow> of_char (digit_char d) = (48 + d :: nat)"
  by (simp add: digit_char_def of_char_of)

lemma is_digit_digit_char [simp]: "d < 10 \<Longrightarrow> is_digit (digit_char d)"
  by (simp add: is_digit_def)

lemma show_nat_digits: "c \<in> set (show_nat n) \<Longrightarrow> is_digit c"
proof (induction n rule: show_nat.induct)
  case (1 n)
  then show ?case by (subst (asm) (2) show_nat.simps) (auto split: if_splits)
qed

lemma read_show_nat [simp]: "read_nat (show_nat n) = n"
proof (induction n rule: show_nat.induct)
  case (1 n)
  then show ?case by (subst show_nat.simps) (auto simp: read_nat_def)
qed

lemma show_nat_inj [simp]: "show_nat m = show_nat n \<longleftrightarrow> m = n"
  by (metis read_show_nat)

lemma show_u64_inj [simp]: "show_u64 v = show_u64 w \<longleftrightarrow> v = w"
  by (simp add: show_u64_def word_unat_eq_iff)

lemma show_u64_digits: "c \<in> set (show_u64 w) \<Longrightarrow> is_digit c"
  by (auto simp: show_u64_def show_nat_digits)

lemma trim_end_char_last: "trim_end_char c s \<noteq> [] \<Longrightarrow> last (trim_end_char c s) \<noteq> c"
  unfolding trim_end_char_def last_rev
  by (metis (mono_tags, lifting) hd_dropWhile rev_is_Nil_conv)

lemma trim_end_char_idem [simp]: "trim_end_char c (trim_end_char c s) = trim_end_char c s"
  by (simp add: trim_end_char_def)

text \<open>Splitting at the first occurrence of a separator is unambiguous when the prefixes avoid it.\<close>

lemma separator_split:
  assumes "x @ sep # y = x' @ sep # y'" "sep \<notin> set x" "sep \<notin> set x'"
  shows "x = x' \<and> y = y'"
  using assms
proof (induction x arbitrary: x')
  case Nil
  then show ?case by (cases x') auto
next
  case (Cons a x)
  then show ?case by (cases x') auto
qed

section \<open>The B-tree map\<close>

text \<open>A B-tree map is the association list of its entries in ascending order of the keys.\<close>

type_synonym ('k, 'v) btree = "('k \<times> 'v) list"

fun btree_insert :: "'k :: linorder \<Rightarrow> 'v \<Rightarrow> ('k, 'v) btree \<Rightarrow> ('k, 'v) btree" where
  "btree_insert k v [] = [(k, v)]"
| "btree_insert k v ((k', v') # m) =
     (if k < k' then (k, v) # (k', v') # m
      else if k = k' then (k, v) # m
      else (k', v') # btree_insert k v m)"

definition btree_wf :: "('k :: linorder, 'v) btree \<Rightarrow> bool" where
  "btree_wf m = sorted_wrt (<) (map fst m)"

lemma btree_insert_keys: "set (map fst (btree_insert k v m)) = insert k (set (map fst m))"
  by (induction k v m rule: btree_insert.induct) auto

lemma btree_wf_Nil [simp]: "btree_wf []"
  by (simp add: btree_wf_def)

lemma btree_insert_wf: "btree_wf m \<Longrightarrow> btree_wf (btree_insert k v m)"
proof (induction k v m rule: btree_insert.induct)
  case (2 k v k' v' m)
  then show ?case
    using btree_insert_keys [of k v m] unfolding btree_wf_def by fastforce
qed (simp add: btree_wf_def)

lemma btree_insert_lookup: "btree_wf m \<Longrightarrow> map_of (btree_insert k v m) = (map_of m)(k \<mapsto> v)"
  by (induction k v m rule: btree_insert.induct) (auto simp: btree_wf_def fun_eq_iff)

lemma btree_insert_less:
  "\<forall>k' \<in> set (map fst m). k < k' \<Longrightarrow> btree_insert k v m = (k, v) # m"
  by (cases m) auto

lemma btree_insert_set:
  "k \<notin> set (map fst m) \<Longrightarrow> set (btree_insert k v m) = insert (k, v) (set m)"
  by (induction k v m rule: btree_insert.induct) auto

lemma btree_insert_sum:
  "k \<notin> set (map fst m) \<Longrightarrow>
     sum_list (map f (btree_insert k v m)) = f (k, v) + (sum_list (map f m) :: nat)"
  by (induction k v m rule: btree_insert.induct) auto

lemma btree_wf_distinct: "btree_wf m \<Longrightarrow> distinct (map fst m)"
  by (simp add: btree_wf_def strict_sorted_iff)

end
