(* ===== verification/KeysetsAmounts.thy ===== *)
theory KeysetsAmounts
  imports Prelude
begin

text \<open>
  Keysets and amounts: \<open>crates/cdk-spilman/src/keysets_and_amounts.rs\<close>.

  A keyset lists the denominations a mint signs.  \<open>from_target\<close> splits an amount into denominations,
  largest first; \<open>value_after_fees\<close> is what the split is worth once its outputs are spent as inputs; and
  the inverse searches for the smallest nominal amount that is worth at least a target.  The inner
  \<open>while\<close> loop and the inverse search need not end, so both are partial functions into \<open>option\<close>.
\<close>

section \<open>Data\<close>

text \<open>A keyset id and a public key are identified with their serialised bytes, a currency unit with the
  name it prints as.\<close>

type_synonym key_id = bytes
type_synonym pubkey = bytes
type_synonym currency_unit = string
type_synonym keys = "(u64, pubkey) btree"

record InverseFeeResult =
  nominal_value :: u64
  actual_balance :: u64

record OrderedListOfAmounts =
  ol_amounts :: "u64 list"
  count_by_amount :: "(u64, usize) btree"
  ol_input_fee_ppk :: u64

record KeysetInfo =
  ki_keyset_id :: key_id
  ki_unit :: currency_unit
  active_keys :: keys
  amounts_largest_first :: "u64 list"
  ki_input_fee_ppk :: u64
  final_expiry :: "u64 option"

section \<open>Splitting an amount\<close>

text \<open>The loop \<open>while remaining >= amount\<close> of \<open>from_target\<close>.\<close>

partial_function (option) drain :: "u64 \<Rightarrow> u64 \<Rightarrow> usize \<Rightarrow> (u64 \<times> usize) option" where
  "drain remaining amount count =
     (if amount \<le> remaining then drain (remaining - amount) amount (count + 1)
      else Some (remaining, count))"

declare drain.simps [code]

text \<open>The loop over the keyset's amounts.\<close>

fun greedy_loop ::
  "u64 \<Rightarrow> u64 list \<Rightarrow> u64 \<Rightarrow> (u64, usize) btree \<Rightarrow> (u64 \<times> (u64, usize) btree) option" where
  "greedy_loop maximum_amount [] remaining counts = Some (remaining, counts)"
| "greedy_loop maximum_amount (amount # rest) remaining counts =
     (if maximum_amount > 0 \<and> amount > maximum_amount
      then greedy_loop maximum_amount rest remaining counts
      else case drain remaining amount 0 of
             None \<Rightarrow> None
           | Some (remaining', count) \<Rightarrow>
               greedy_loop maximum_amount rest remaining'
                 (if count > 0 then btree_insert amount count counts else counts))"

definition expand_counts :: "(u64, usize) btree \<Rightarrow> u64 list" where
  "expand_counts counts = concat (map (\<lambda>(amount, count). replicate (unat count) amount) (rev counts))"

definition cannot_represent :: "u64 \<Rightarrow> u64 \<Rightarrow> string" where
  "cannot_represent target maximum_amount =
     (if maximum_amount = 0
      then ''Cannot represent '' @ show_u64 target @ '' using available amounts''
      else ''Cannot represent '' @ show_u64 target @ '' using available amounts (max ''
             @ show_u64 maximum_amount @ '')'')"

definition from_target ::
  "u64 \<Rightarrow> u64 \<Rightarrow> KeysetInfo \<Rightarrow> (string, OrderedListOfAmounts) run" where
  "from_target target maximum_amount ks =
     (if target = 0
      then Some (Ok \<lparr>ol_amounts = [], count_by_amount = [], ol_input_fee_ppk = ki_input_fee_ppk ks\<rparr>)
      else case greedy_loop maximum_amount (amounts_largest_first ks) target [] of
             None \<Rightarrow> diverges
           | Some (remaining, counts) \<Rightarrow>
               Some (if remaining \<noteq> 0 then Err (cannot_represent target maximum_amount)
                     else Ok \<lparr>ol_amounts = expand_counts counts, count_by_amount = counts,
                              ol_input_fee_ppk = ki_input_fee_ppk ks\<rparr>))"

definition ol_len :: "OrderedListOfAmounts \<Rightarrow> nat" where
  "ol_len l = length (ol_amounts l)"

definition ol_is_empty :: "OrderedListOfAmounts \<Rightarrow> bool" where
  "ol_is_empty l = (ol_amounts l = [])"

definition nominal_total :: "OrderedListOfAmounts \<Rightarrow> u64" where
  "nominal_total l = sum_list (ol_amounts l)"

definition total_amount :: "OrderedListOfAmounts \<Rightarrow> u64" where
  "total_amount l = nominal_total l"

definition value_after_fees :: "OrderedListOfAmounts \<Rightarrow> u64" where
  "value_after_fees l =
     (let total = nominal_total l in
      if ol_input_fee_ppk l = 0 then total
      else let num_outputs = word_of_nat (length (ol_amounts l));
               fee = div_ceil (ol_input_fee_ppk l * num_outputs) 1000
           in saturating_sub total fee)"

definition iter_smallest_first :: "OrderedListOfAmounts \<Rightarrow> (u64 \<times> usize) list" where
  "iter_smallest_first l = count_by_amount l"

section \<open>Keysets\<close>

definition is_unexpired_at :: "KeysetInfo \<Rightarrow> u64 \<Rightarrow> bool" where
  "is_unexpired_at ks now = (case final_expiry ks of None \<Rightarrow> True | Some expiry \<Rightarrow> now \<le> expiry)"

definition keyset_info_new ::
  "key_id \<Rightarrow> currency_unit \<Rightarrow> keys \<Rightarrow> u64 \<Rightarrow> u64 option \<Rightarrow> KeysetInfo" where
  "keyset_info_new kid u ks ppk expiry =
     \<lparr>ki_keyset_id = kid, ki_unit = u, active_keys = ks,
      amounts_largest_first = rev (sort (map fst ks)),
      ki_input_fee_ppk = ppk, final_expiry = expiry\<rparr>"

definition amount_key :: "keys \<Rightarrow> u64 \<Rightarrow> pubkey option" where
  "amount_key ks amount = map_of ks amount"

definition deterministic_value_after_fees :: "KeysetInfo \<Rightarrow> u64 \<Rightarrow> u64 \<Rightarrow> (string, u64) run" where
  "deterministic_value_after_fees ks nominal maximum_amount =
     run_bind (from_target nominal maximum_amount ks) (\<lambda>amounts. Some (Ok (value_after_fees amounts)))"

partial_function (option) inverse_search ::
  "KeysetInfo \<Rightarrow> u64 \<Rightarrow> u64 \<Rightarrow> u64 \<Rightarrow> (string, InverseFeeResult) run" where
  "inverse_search ks target_balance maximum_amount nominal =
     (case deterministic_value_after_fees ks nominal maximum_amount of
        None \<Rightarrow> None
      | Some r \<Rightarrow>
          (case r of
             Err e \<Rightarrow> Some (Err e)
           | Ok actual \<Rightarrow>
               if actual \<ge> target_balance
               then Some (Ok \<lparr>nominal_value = nominal, actual_balance = actual\<rparr>)
               else inverse_search ks target_balance maximum_amount (nominal + 1)))"

declare inverse_search.simps [code]

definition inverse_deterministic_value_after_fees ::
  "KeysetInfo \<Rightarrow> u64 \<Rightarrow> u64 \<Rightarrow> (string, InverseFeeResult) run" where
  "inverse_deterministic_value_after_fees ks target_balance maximum_amount =
     (if target_balance = 0 then Some (Ok \<lparr>nominal_value = 0, actual_balance = 0\<rparr>)
      else if ki_input_fee_ppk ks = 0
      then Some (Ok \<lparr>nominal_value = target_balance, actual_balance = target_balance\<rparr>)
      else inverse_search ks target_balance maximum_amount target_balance)"

section \<open>The split is exact\<close>

lemma drain_pos:
  assumes "0 < amount"
  shows "drain remaining amount count =
           Some (remaining mod amount, count + remaining div amount)"
proof (induction "unat remaining" arbitrary: remaining count rule: less_induct)
  case less
  show ?case
  proof (cases "amount \<le> remaining")
    case True
    have lt: "unat (remaining - amount) < unat remaining"
      using True assms by (simp add: unat_sub word_le_nat_alt word_less_nat_alt)
    have "(remaining - amount) mod amount = remaining mod amount"
      using True by (simp add: word_unat_eq_iff unat_mod unat_sub word_le_nat_alt le_mod_geq)
    moreover have "1 + (remaining - amount) div amount = remaining div amount"
    proof -
      have "1 + unat (remaining - amount) div unat amount = unat remaining div unat amount"
        using True assms
        by (simp add: unat_sub word_le_nat_alt word_less_nat_alt le_div_geq)
      then have "word_of_nat (1 + unat ((remaining - amount) div amount)) =
          (word_of_nat (unat (remaining div amount)) :: u64)"
        by (simp add: unat_div)
      then show ?thesis by simp
    qed
    ultimately show ?thesis
      using less(1) [OF lt, of "count + 1"] True by (simp add: drain.simps [of remaining] add.assoc)
  next
    case False
    then have "remaining < amount" by simp
    then have "remaining mod amount = remaining \<and> remaining div amount = 0"
      by (simp add: word_unat_eq_iff unat_mod unat_div word_less_nat_alt)
    then show ?thesis using False by (simp add: drain.simps)
  qed
qed

lemma drain_from_zero:
  "0 < amount \<Longrightarrow> drain remaining amount 0 = Some (remaining mod amount, remaining div amount)"
  by (simp add: drain_pos)

lemma drain_returns_pos:
  assumes "drain remaining amount count = Some r"
  shows "0 < amount"
  by (rule drain.raw_induct [where P = "\<lambda>_ amount _ _. 0 < amount", OF _ assms])
    (auto split: if_splits simp: not_le intro: le_less_trans [OF word_zero_le])

lemma drain_zero [simp]: "drain remaining 0 count = None"
  using drain_returns_pos [of remaining 0 count] by (cases "drain remaining 0 count") auto

text \<open>The counts map: what it is worth, and what every entry satisfies while \<open>remaining\<close> is left.\<close>

definition counts_total :: "(u64, usize) btree \<Rightarrow> nat" where
  "counts_total m = sum_list (map (\<lambda>(a, c). unat c * unat a) m)"

definition counts_inv :: "u64 \<Rightarrow> (u64, usize) btree \<Rightarrow> bool" where
  "counts_inv remaining m \<longleftrightarrow> btree_wf m \<and> (\<forall>(a, c) \<in> set m. remaining < a \<and> 0 < c)"

definition eligible :: "u64 \<Rightarrow> u64 list \<Rightarrow> u64 list" where
  "eligible maximum_amount amounts = filter (\<lambda>a. maximum_amount = 0 \<or> a \<le> maximum_amount) amounts"

lemma counts_inv_fresh: "counts_inv remaining m \<Longrightarrow> a \<le> remaining \<Longrightarrow> a \<notin> set (map fst m)"
  unfolding counts_inv_def by force

lemma unat_div_mod_u64: "unat (r div a) * unat a + unat (r mod a) = unat (r :: u64)"
  by (simp add: unat_div unat_mod)

lemma counts_inv_step:
  assumes "counts_inv r m" "0 < a"
  shows "counts_inv (r mod a) (if r div a > 0 then btree_insert a (r div a) m else m)"
    and "counts_total (if r div a > 0 then btree_insert a (r div a) m else m) + unat (r mod a) =
         counts_total m + unat r"
proof -
  have le: "r mod a \<le> r"
    by (simp add: word_le_nat_alt unat_mod)
  have lt: "r mod a < a"
    using assms(2) by (simp add: word_less_nat_alt unat_mod)
  have keep: "counts_inv (r mod a) m"
    using assms(1) le unfolding counts_inv_def by (fastforce intro: le_less_trans)
  have fresh: "r div a > 0 \<Longrightarrow> a \<notin> set (map fst m)"
  proof -
    assume "r div a > 0"
    then have "a \<le> r"
      by (metis div_less less_irrefl not_less unat_0 unat_div word_le_nat_alt word_less_nat_alt)
    then show ?thesis using counts_inv_fresh [OF assms(1)] by blast
  qed
  show "counts_inv (r mod a) (if r div a > 0 then btree_insert a (r div a) m else m)"
    using keep fresh lt
    by (auto simp: counts_inv_def btree_insert_wf btree_insert_set)
  show "counts_total (if r div a > 0 then btree_insert a (r div a) m else m) + unat (r mod a) =
         counts_total m + unat r"
    using fresh unat_div_mod_u64 [of r a]
    by (auto simp: counts_total_def btree_insert_sum word_gt_0)
qed

lemma greedy_loop_sound:
  assumes "greedy_loop mx as r m = Some (r', m')" "counts_inv r m"
  shows "counts_inv r' m' \<and> counts_total m' + unat r' = counts_total m + unat r \<and>
         set (map fst m') \<subseteq> set (map fst m) \<union> set (eligible mx as)"
  using assms
proof (induction mx as r m rule: greedy_loop.induct)
  case (2 mx a as r m)
  show ?case
  proof (cases "mx > 0 \<and> a > mx")
    case True
    then have "eligible mx (a # as) = eligible mx as" by (auto simp: eligible_def)
    then show ?thesis using 2(1) [OF True] 2(3,4) True by simp
  next
    case False
    then have el: "set (eligible mx (a # as)) = insert a (set (eligible mx as))"
      by (auto simp: eligible_def word_neq_0_conv)
    obtain rc where rc: "drain r a 0 = Some rc"
      using 2(3) False by (cases "drain r a 0") auto
    have a: "0 < a" using drain_returns_pos [OF rc] .
    let ?m = "if r div a > 0 then btree_insert a (r div a) m else m"
    have "greedy_loop mx as (r mod a) ?m = Some (r', m')"
      using 2(3) False by (simp add: drain_pos [OF a])
    then have "counts_inv r' m' \<and> counts_total m' + unat r' = counts_total ?m + unat (r mod a) \<and>
        set (map fst m') \<subseteq> set (map fst ?m) \<union> set (eligible mx as)"
      by (rule 2(2) [OF False drain_from_zero [OF a] refl _ counts_inv_step(1) [OF 2(4) a]])
    moreover have "set (map fst ?m) \<subseteq> insert a (set (map fst m))"
      using btree_insert_keys [of a "r div a" m] by (simp split: if_split) blast
    ultimately show ?thesis
      unfolding el counts_inv_step(2) [OF 2(4) a, symmetric] by blast
  qed
qed simp

lemma greedy_loop_None: "greedy_loop mx as r m = None \<longleftrightarrow> 0 \<in> set as"
proof (induction mx as r m rule: greedy_loop.induct)
  case (2 mx a as r m)
  show ?case
  proof (cases "a = 0")
    case False
    then have "0 < a" by (simp add: word_gt_0)
    then show ?thesis using 2 drain_from_zero [of a r] False by auto
  qed simp
qed simp

section \<open>The reference split on natural numbers\<close>

fun greedy_amounts :: "nat list \<Rightarrow> nat \<Rightarrow> nat list" where
  "greedy_amounts [] r = []"
| "greedy_amounts (a # as) r = replicate (r div a) a @ greedy_amounts as (r mod a)"

fun greedy_rest :: "nat list \<Rightarrow> nat \<Rightarrow> nat" where
  "greedy_rest [] r = r"
| "greedy_rest (a # as) r = greedy_rest as (r mod a)"

definition keyset_wf :: "KeysetInfo \<Rightarrow> bool" where
  "keyset_wf ks \<longleftrightarrow>
     sorted_wrt (>) (amounts_largest_first ks) \<and> 0 \<notin> set (amounts_largest_first ks)"

lemma expand_counts_Cons [simp]:
  "expand_counts ((a, c) # m) = expand_counts m @ replicate (unat c) a"
  by (simp add: expand_counts_def)

lemma expand_counts_Nil [simp]: "expand_counts [] = []"
  by (simp add: expand_counts_def)

lemma greedy_loop_refines:
  assumes "sorted_wrt (>) as" "0 \<notin> set as" "\<forall>k \<in> set (map fst m). \<forall>a \<in> set as. a < k"
  shows "\<exists>r' m'. greedy_loop mx as r m = Some (r', m') \<and>
           unat r' = greedy_rest (map unat (eligible mx as)) (unat r) \<and>
           map unat (expand_counts m') =
             map unat (expand_counts m) @ greedy_amounts (map unat (eligible mx as)) (unat r)"
  using assms
proof (induction mx as r m rule: greedy_loop.induct)
  case (2 mx a as r m)
  show ?case
  proof (cases "mx > 0 \<and> a > mx")
    case True
    then have "eligible mx (a # as) = eligible mx as" by (auto simp: eligible_def)
    then show ?thesis using 2(1) [OF True] 2(3-5) True by simp
  next
    case False
    then have el: "eligible mx (a # as) = a # eligible mx as"
      by (auto simp: eligible_def word_neq_0_conv)
    have a: "0 < a" using 2(4) by (simp add: word_gt_0)
    let ?m = "if r div a > 0 then btree_insert a (r div a) m else m"
    have less: "\<forall>k \<in> set (map fst m). a < k" using 2(5) by auto
    have ins: "btree_insert a (r div a) m = (a, r div a) # m"
      using less by (rule btree_insert_less)
    have ih: "\<forall>k \<in> set (map fst ?m). \<forall>a' \<in> set as. a' < k"
      using 2(3,5) ins by auto
    obtain r' m' where rm:
      "greedy_loop mx as (r mod a) ?m = Some (r', m')"
      "unat r' = greedy_rest (map unat (eligible mx as)) (unat (r mod a))"
      "map unat (expand_counts m') =
         map unat (expand_counts ?m) @ greedy_amounts (map unat (eligible mx as)) (unat (r mod a))"
      using 2(2) [OF False drain_from_zero [OF a] refl _ _ ih] 2(3,4) by auto
    have "map unat (expand_counts ?m) =
          map unat (expand_counts m) @ replicate (unat (r div a)) (unat a)"
      using ins by (auto simp: word_gt_0)
    moreover have "greedy_loop mx (a # as) r m = Some (r', m')"
      using rm(1) False by (auto simp: drain_from_zero [OF a])
    ultimately show ?thesis
      using rm(2,3) by (simp add: el unat_mod unat_div)
  qed
qed (simp add: eligible_def)

lemma greedy_sum: "sum_list (greedy_amounts as r) + greedy_rest as r = r"
  by (induction as r rule: greedy_amounts.induct) (auto simp: sum_list_replicate add.assoc)

lemma greedy_mem: "set (greedy_amounts as r) \<subseteq> set as"
  by (induction as r rule: greedy_amounts.induct) auto

lemma length_le_sum_list: "(\<And>x. x \<in> set xs \<Longrightarrow> 0 < x) \<Longrightarrow> length xs \<le> sum_list (xs :: nat list)"
proof (induction xs)
  case (Cons x xs)
  then have "0 < x" "length xs \<le> sum_list xs" by auto
  then show ?case by simp
qed simp

lemma greedy_length_le:
  assumes "0 \<notin> set as"
  shows "length (greedy_amounts as r) \<le> r"
proof -
  have "length (greedy_amounts as r) \<le> sum_list (greedy_amounts as r)"
    using greedy_mem [of as r] assms by (intro length_le_sum_list) (metis gr0I subsetD)
  then show ?thesis using greedy_sum [of as r] by linarith
qed

text \<open>Every denomination divides the next larger one.\<close>

fun divisor_chain :: "nat list \<Rightarrow> bool" where
  "divisor_chain (a # b # as) \<longleftrightarrow> b dvd a \<and> divisor_chain (b # as)"
| "divisor_chain _ \<longleftrightarrow> True"

lemma greedy_length_add:
  assumes "0 < b" "b dvd a" "0 < a"
  shows "length (greedy_amounts (b # bs) r) + 1 \<le> length (greedy_amounts (b # bs) (r + a))"
proof -
  obtain k where k: "a = b * k" using assms(2) by (auto simp: dvd_def)
  then have "0 < k" "(r + a) div b = r div b + k" "(r + a) mod b = r mod b"
    using assms by auto
  then show ?thesis by simp
qed

text \<open>On a chain of divisors no other way of writing the amount uses fewer outputs.\<close>

lemma greedy_length_multiple:
  assumes "0 < b" "b dvd a" "0 < a"
  shows "length (greedy_amounts (b # bs) r) + k \<le> length (greedy_amounts (b # bs) (r + k * a))"
proof (induction k)
  case (Suc k)
  then show ?case
    using greedy_length_add [OF assms, of bs "r + k * a"] by (simp add: algebra_simps)
qed simp

lemma greedy_optimal:
  assumes "divisor_chain as" "0 \<notin> set as" "set xs \<subseteq> set as"
  shows "length (greedy_amounts as (sum_list xs)) \<le> length xs"
  using assms
proof (induction as arbitrary: xs)
  case (Cons a as)
  define k where "k = length (filter (\<lambda>x. x = a) xs)"
  define ys where "ys = filter (\<lambda>x. x \<noteq> a) xs"
  have len: "length xs = k + length ys"
    unfolding k_def ys_def by (induction xs) auto
  have sum: "sum_list xs = k * a + sum_list ys"
    unfolding k_def ys_def by (induction xs) auto
  have ys: "set ys \<subseteq> set as" using Cons.prems(3) by (auto simp: ys_def)
  have a: "0 < a" using Cons.prems(2) by simp
  have chain: "divisor_chain as" using Cons.prems(1) by (cases as) auto
  have ih: "length (greedy_amounts as (sum_list ys)) \<le> length ys"
    using Cons.IH [OF chain _ ys] Cons.prems(2) by simp
  have div: "sum_list xs div a = k + sum_list ys div a" "sum_list xs mod a = sum_list ys mod a"
    using a by (simp_all add: sum)
  have "length (greedy_amounts as (sum_list ys mod a)) + sum_list ys div a \<le> length ys"
  proof (cases as)
    case Nil
    then show ?thesis using ys by simp
  next
    case (Cons b bs)
    then have b: "0 < b" "b dvd a" using Cons.prems by auto
    have "length (greedy_amounts as (sum_list ys mod a)) + sum_list ys div a \<le>
        length (greedy_amounts as (sum_list ys))"
      using greedy_length_multiple [OF b a, of bs "sum_list ys mod a" "sum_list ys div a"] Cons
      by (simp only: mod_div_mult_eq)
    then show ?thesis using ih by linarith
  qed
  then show ?case by (simp add: div len)
qed simp

section \<open>Properties of \<open>from_target\<close>\<close>

lemma from_target_None_iff:
  "from_target t mx ks = None \<longleftrightarrow> t \<noteq> 0 \<and> 0 \<in> set (amounts_largest_first ks)"
  using greedy_loop_None [of mx "amounts_largest_first ks" t "[]"]
  by (auto simp: from_target_def split: option.splits)

lemma from_target_zero:
  "from_target 0 mx ks = Some (Ok \<lparr>ol_amounts = [], count_by_amount = [], ol_input_fee_ppk = ki_input_fee_ppk ks\<rparr>)"
  by (simp add: from_target_def)

lemma from_target_OkE:
  assumes "from_target t mx ks = Some (Ok l)"
  obtains "counts_inv 0 (count_by_amount l)" "counts_total (count_by_amount l) = unat t"
    "set (map fst (count_by_amount l)) \<subseteq> set (eligible mx (amounts_largest_first ks))"
    "ol_amounts l = expand_counts (count_by_amount l)" "ol_input_fee_ppk l = ki_input_fee_ppk ks"
proof (cases "t = 0")
  case True
  then show ?thesis
    using assms that by (auto simp: from_target_def counts_inv_def counts_total_def)
next
  case False
  then obtain m where m: "greedy_loop mx (amounts_largest_first ks) t [] = Some (0, m)"
    "l = \<lparr>ol_amounts = expand_counts m, count_by_amount = m, ol_input_fee_ppk = ki_input_fee_ppk ks\<rparr>"
    using assms by (auto simp: from_target_def split: option.splits if_splits)
  have "counts_inv t []" by (simp add: counts_inv_def)
  then show ?thesis
    using greedy_loop_sound [OF m(1)] that m(2) by (simp add: counts_total_def)
qed

lemma sum_expand_counts: "sum_list (map unat (expand_counts m)) = counts_total m"
  by (induction m) (auto simp: counts_total_def sum_list_replicate)

lemma set_expand_counts: "set (expand_counts m) \<subseteq> set (map fst m)"
  by (induction m) auto

lemma length_expand_counts: "length (expand_counts m) = sum_list (map (unat \<circ> snd) m)"
  by (induction m) auto

lemma sorted_wrt_ge_replicate: "sorted_wrt (\<ge>) (replicate n (a :: 'a :: order))"
  by (induction n) auto

lemma sorted_expand_counts: "btree_wf m \<Longrightarrow> sorted_wrt (\<ge>) (expand_counts m)"
proof (induction m)
  case (Cons p m)
  obtain a c where p: "p = (a, c)" by force
  have "\<forall>k \<in> set (map fst m). a < k" "btree_wf m"
    using Cons.prems by (auto simp: btree_wf_def p)
  then show ?case
    using Cons.IH set_expand_counts [of m]
    by (auto simp: p sorted_wrt_append sorted_wrt_ge_replicate intro: less_imp_le)
qed simp

lemma from_target_sum:
  assumes "from_target t mx ks = Some (Ok l)"
  shows "sum_list (map unat (ol_amounts l)) = unat t" "nominal_total l = t"
proof -
  show *: "sum_list (map unat (ol_amounts l)) = unat t"
    using assms by (rule from_target_OkE) (simp add: sum_expand_counts)
  show "nominal_total l = t"
    using unat_sum_list_exact [of "ol_amounts l"] * unat_u64_less [of t]
    by (simp add: nominal_total_def word_unat_eq_iff)
qed

lemma from_target_positive:
  assumes "from_target t mx ks = Some (Ok l)" "a \<in> set (ol_amounts l)"
  shows "0 < a"
  using assms(1)
proof (rule from_target_OkE)
  assume "counts_inv 0 (count_by_amount l)" "ol_amounts l = expand_counts (count_by_amount l)"
  then show ?thesis using assms(2) set_expand_counts unfolding counts_inv_def by force
qed

lemma from_target_length_le:
  assumes "from_target t mx ks = Some (Ok l)"
  shows "length (ol_amounts l) \<le> unat t"
proof -
  have "length (map unat (ol_amounts l)) \<le> sum_list (map unat (ol_amounts l))"
    using from_target_positive [OF assms]
    by (intro length_le_sum_list) (auto simp: word_less_nat_alt)
  then show ?thesis using from_target_sum(1) [OF assms] by simp
qed

text \<open>A denomination of one makes every amount representable.\<close>

lemma greedy_loop_rest_zero: "greedy_loop mx as 0 m = Some (r', m') \<Longrightarrow> r' = 0"
proof (induction mx as "0 :: u64" m rule: greedy_loop.induct)
  case (2 mx a as m)
  show ?case
  proof (cases "0 < a")
    case True
    then show ?thesis
      using 2(1,3) 2(2) [OF _ drain_from_zero [OF True]] by (auto simp: drain_from_zero split: if_splits)
  next
    case False
    then show ?thesis using 2(1,3) by (auto simp: word_gt_0 split: if_splits)
  qed
qed simp

lemma greedy_loop_one:
  "greedy_loop mx as r m = Some (r', m') \<Longrightarrow> 1 \<in> set as \<Longrightarrow> r' = 0"
proof (induction mx as r m rule: greedy_loop.induct)
  case (2 mx a as r m)
  show ?case
  proof (cases "mx > 0 \<and> a > mx")
    case True
    then have "a \<noteq> 1" by (auto simp: word_gt_0 word_less_nat_alt)
    then show ?thesis using 2(1) [OF True] 2(3,4) True by auto
  next
    case False
    have a: "0 < a"
      using 2(3) False by (cases "drain r a 0") (auto intro: drain_returns_pos)
    let ?m = "if r div a > 0 then btree_insert a (r div a) m else m"
    have step: "greedy_loop mx as (r mod a) ?m = Some (r', m')"
      using 2(3) False by (auto simp: drain_from_zero [OF a] split: if_splits)
    show ?thesis
    proof (cases "a = 1")
      case True
      then show ?thesis using step greedy_loop_rest_zero by simp
    next
      case a1: False
      then show ?thesis
        using 2(2) [OF False drain_from_zero [OF a] refl step] 2(4) by auto
    qed
  qed
qed simp

lemma from_target_total:
  assumes "1 \<in> set (amounts_largest_first ks)" "0 \<notin> set (amounts_largest_first ks)"
  obtains l where "from_target t mx ks = Some (Ok l)"
proof (cases "t = 0")
  case False
  obtain r m where rm: "greedy_loop mx (amounts_largest_first ks) t [] = Some (r, m)"
    using greedy_loop_None [of mx "amounts_largest_first ks" t "[]"] assms(2) by fastforce
  then show ?thesis
    using greedy_loop_one [OF rm assms(1)] False that by (simp add: from_target_def)
qed (use that in \<open>simp add: from_target_zero\<close>)

section \<open>Fees\<close>

lemma unat_value_after_fees:
  assumes "from_target t mx ks = Some (Ok l)"
    "unat (ki_input_fee_ppk ks) * length (ol_amounts l) < 2 ^ 64"
  shows "unat (value_after_fees l) =
           unat t - (unat (ki_input_fee_ppk ks) * length (ol_amounts l) + 999) div 1000"
proof -
  have ppk: "ol_input_fee_ppk l = ki_input_fee_ppk ks"
    using assms(1) by (rule from_target_OkE)
  have len: "unat (word_of_nat (length (ol_amounts l)) :: u64) = length (ol_amounts l)"
    using from_target_length_le [OF assms(1)] unat_u64_less [of t]
    by (simp add: unat_of_nat take_bit_nat_def)
  have "unat (ki_input_fee_ppk ks * word_of_nat (length (ol_amounts l))) =
      unat (ki_input_fee_ppk ks) * length (ol_amounts l)"
    using assms(2) len by (subst unat_mult_exact) simp_all
  then have "unat (div_ceil (ki_input_fee_ppk ks * word_of_nat (length (ol_amounts l))) 1000) =
      (unat (ki_input_fee_ppk ks) * length (ol_amounts l) + 999) div 1000"
    by (simp add: unat_div_ceil)
  then show ?thesis
    by (simp add: value_after_fees_def Let_def ppk from_target_sum(2) [OF assms(1)])
qed

lemma value_after_fees_le: "value_after_fees l \<le> nominal_total l"
  by (simp add: value_after_fees_def Let_def)

lemma fees_forward_le:
  "deterministic_value_after_fees ks n mx = Some (Ok v) \<Longrightarrow> v \<le> n"
  using value_after_fees_le from_target_sum(2)
  by (fastforce simp: deterministic_value_after_fees_def run_bind_eq_Ok)

lemma fees_forward_total:
  assumes "1 \<in> set (amounts_largest_first ks)" "0 \<notin> set (amounts_largest_first ks)"
  obtains v where "deterministic_value_after_fees ks n mx = Some (Ok v)"
  using from_target_total [OF assms, of n mx] that
  by (metis deterministic_value_after_fees_def run_bind_simps(3))

lemma from_target_fee: "from_target t mx ks = Some (Ok l) \<Longrightarrow> ol_input_fee_ppk l = ki_input_fee_ppk ks"
  by (erule from_target_OkE)

lemma fees_forward_free:
  "ki_input_fee_ppk ks = 0 \<Longrightarrow> deterministic_value_after_fees ks n mx = Some (Ok v) \<Longrightarrow> v = n"
  by (auto simp: deterministic_value_after_fees_def run_bind_eq_Ok value_after_fees_def
      from_target_fee from_target_sum(2))

text \<open>With a fee below one unit per output a thousandth of the nominal amount survives.\<close>

lemma fees_forward_bound:
  assumes "1 \<in> set (amounts_largest_first ks)" "0 \<notin> set (amounts_largest_first ks)"
    "ki_input_fee_ppk ks \<le> 999" "unat (ki_input_fee_ppk ks) * unat n < 2 ^ 64"
  obtains v where "deterministic_value_after_fees ks n mx = Some (Ok v)" "unat n div 1000 \<le> unat v"
proof -
  obtain l where l: "from_target n mx ks = Some (Ok l)"
    using from_target_total [OF assms(1,2)] .
  have len: "length (ol_amounts l) \<le> unat n" using from_target_length_le [OF l] .
  have ppk: "unat (ki_input_fee_ppk ks) \<le> 999" using assms(3) by (simp add: word_le_nat_alt)
  have prod: "unat (ki_input_fee_ppk ks) * length (ol_amounts l) \<le> unat (ki_input_fee_ppk ks) * unat n"
    using len by simp
  then have small: "unat (ki_input_fee_ppk ks) * length (ol_amounts l) < 2 ^ 64"
    using assms(4) by linarith
  have "unat (ki_input_fee_ppk ks) * length (ol_amounts l) \<le> 999 * unat n"
    using prod mult_le_mono1 [OF ppk, of "unat n"] by linarith
  then have "unat n div 1000 \<le> unat n - (unat (ki_input_fee_ppk ks) * length (ol_amounts l) + 999) div 1000"
    by linarith
  then have "unat n div 1000 \<le> unat (value_after_fees l)"
    unfolding unat_value_after_fees [OF l small] .
  then show ?thesis using that l by (simp add: deterministic_value_after_fees_def)
qed

section \<open>The inverse search\<close>

text \<open>The runs of the search loop that return a value.\<close>

inductive searched :: "KeysetInfo \<Rightarrow> u64 \<Rightarrow> u64 \<Rightarrow> u64 \<Rightarrow> InverseFeeResult \<Rightarrow> bool"
  for ks t mx where
  searched_stop:
    "deterministic_value_after_fees ks n mx = Some (Ok v) \<Longrightarrow> t \<le> v \<Longrightarrow>
     searched ks t mx n \<lparr>nominal_value = n, actual_balance = v\<rparr>"
| searched_next:
    "deterministic_value_after_fees ks n mx = Some (Ok v) \<Longrightarrow> v < t \<Longrightarrow>
     searched ks t mx (n + 1) res \<Longrightarrow> searched ks t mx n res"

lemma inverse_search_searched:
  assumes "inverse_search ks t mx n = Some (Ok res)"
  shows "searched ks t mx n res"
proof -
  have "\<forall>res. y = Ok res \<longrightarrow> searched ks t mx n res"
    if "inverse_search ks t mx n = Some y" for y
    using that
    by (rule inverse_search.raw_induct
        [where P = "\<lambda>ks t mx n y. \<forall>res. y = Ok res \<longrightarrow> searched ks t mx n res", rotated])
      (fastforce split: option.splits sum.splits if_splits intro: searched.intros)
  then show ?thesis using assms by blast
qed

lemma searched_sound:
  "searched ks t mx n res \<Longrightarrow>
     deterministic_value_after_fees ks (nominal_value res) mx = Some (Ok (actual_balance res)) \<and>
     t \<le> actual_balance res"
  by (induction rule: searched.induct) auto

text \<open>The search does not skip: what lies between its start and its result falls short.\<close>

lemma searched_between:
  assumes "searched ks t mx n res" "n \<le> m" "m < nominal_value res"
  shows "\<exists>v. deterministic_value_after_fees ks m mx = Some (Ok v) \<and> v < t"
  using assms
proof (induction rule: searched.induct)
  case (searched_next n v res)
  show ?case
  proof (cases "m = n")
    case False
    then have "n + 1 \<le> m"
      using searched_next.prems by (simp add: inc_le order_less_le)
    then show ?thesis using searched_next by blast
  qed (use searched_next in blast)
qed simp

lemma inverse_search_returns:
  assumes "n \<le> N" "deterministic_value_after_fees ks N mx = Some (Ok v)" "t \<le> v"
    "\<And>m. n \<le> m \<Longrightarrow> m < N \<Longrightarrow> \<exists>w. deterministic_value_after_fees ks m mx = Some (Ok w)"
  shows "\<exists>res. inverse_search ks t mx n = Some (Ok res) \<and> nominal_value res \<le> N"
  using assms(1,4)
proof (induction "unat N - unat n" arbitrary: n)
  case 0
  then have "n = N" by (simp add: word_le_nat_alt word_unat_eq_iff)
  then show ?case using assms(2,3) by (simp add: inverse_search.simps [of ks t mx N])
next
  case (Suc d)
  have lt: "n < N" using Suc(2) by (simp add: word_less_nat_alt)
  obtain w where w: "deterministic_value_after_fees ks n mx = Some (Ok w)"
    using Suc(4) [OF _ lt] by auto
  have inc: "unat (n + 1) = unat n + 1"
    using lt unat_u64_less [of N] by (intro unat_inc_exact) (simp add: word_less_nat_alt)
  then have "n + 1 \<le> N" "d = unat N - unat (n + 1)"
    using lt Suc(2) by (simp_all add: word_le_nat_alt word_less_nat_alt)
  moreover have "\<exists>w. deterministic_value_after_fees ks m mx = Some (Ok w)"
    if "n + 1 \<le> m" "m < N" for m
  proof (rule Suc(4) [OF _ that(2)])
    show "n \<le> m" using that(1) inc by (simp add: word_le_nat_alt)
  qed
  ultimately show ?case
    using Suc(1) [of "n + 1"] w lt by (auto simp: inverse_search.simps [of ks t mx n])
qed

section \<open>Monotonicity of the forward fee function\<close>

lemma greedy_length_Suc:
  "0 \<notin> set as \<Longrightarrow> length (greedy_amounts as (Suc r)) \<le> Suc (length (greedy_amounts as r))"
proof (induction as r rule: greedy_amounts.induct)
  case (2 a as r)
  show ?case
  proof (cases "Suc (r mod a) = a")
    case True
    then have "Suc r div a = Suc (r div a)" "Suc r mod a = 0"
      by (simp_all add: div_Suc mod_Suc)
    moreover have "greedy_amounts as 0 = []"
      using 2(2) by (induction as) auto
    ultimately show ?thesis by simp
  next
    case False
    then have "Suc r div a = r div a" "Suc r mod a = Suc (r mod a)"
      by (simp_all add: div_Suc mod_Suc)
    then show ?thesis using 2 by simp
  qed
qed simp

lemma greedy_fee_mono:
  assumes "0 \<notin> set as" "ppk \<le> 1000" "m \<le> n"
  shows "m - (ppk * length (greedy_amounts as m) + 999) div 1000 \<le>
         n - (ppk * length (greedy_amounts as n) + 999) div 1000"
  using assms(3)
proof (induction n rule: dec_induct)
  case (step n)
  have "ppk * length (greedy_amounts as (Suc n)) \<le> ppk * length (greedy_amounts as n) + ppk"
    using mult_le_mono2 [OF greedy_length_Suc [OF assms(1), of n], of ppk] by simp
  then have "ppk * length (greedy_amounts as (Suc n)) + 999 \<le>
      (ppk * length (greedy_amounts as n) + 999) + 1000"
    using assms(2) by linarith
  then have "(ppk * length (greedy_amounts as (Suc n)) + 999) div 1000 \<le>
      (ppk * length (greedy_amounts as n) + 999) div 1000 + 1"
    by linarith
  then show ?case using step by linarith
qed simp

lemma from_target_greedy:
  assumes "keyset_wf ks"
  shows "from_target t mx ks = Some r \<Longrightarrow>
    (case r of
       Ok l \<Rightarrow> greedy_rest (map unat (eligible mx (amounts_largest_first ks))) (unat t) = 0 \<and>
         map unat (ol_amounts l) = greedy_amounts (map unat (eligible mx (amounts_largest_first ks))) (unat t)
     | Err e \<Rightarrow> greedy_rest (map unat (eligible mx (amounts_largest_first ks))) (unat t) \<noteq> 0 \<and>
         e = cannot_represent t mx)"
proof (cases "t = 0")
  case True
  have zero: "greedy_amounts as 0 = [] \<and> greedy_rest as 0 = 0" for as
    by (induction as) auto
  assume "from_target t mx ks = Some r"
  then show ?thesis using True zero by (auto simp: from_target_zero)
next
  case False
  obtain r' m' where rm: "greedy_loop mx (amounts_largest_first ks) t [] = Some (r', m')"
    "unat r' = greedy_rest (map unat (eligible mx (amounts_largest_first ks))) (unat t)"
    "map unat (expand_counts m') = greedy_amounts (map unat (eligible mx (amounts_largest_first ks))) (unat t)"
    using greedy_loop_refines [of "amounts_largest_first ks" "[]" mx t] assms
    by (auto simp: keyset_wf_def)
  assume "from_target t mx ks = Some r"
  then show ?thesis
    using False rm(1,3) unfolding rm(2) [symmetric] by (auto simp: from_target_def unat_eq_zero)
qed

text \<open>The amounts for which fees are computed without wrapping around: the keyset is sorted, contains a
  denomination of one and no zero, its fee is below one unit per output, and the product of fee and
  amount fits 64 bits.\<close>

definition fee_safe :: "KeysetInfo \<Rightarrow> u64 \<Rightarrow> bool" where
  "fee_safe ks n \<longleftrightarrow> keyset_wf ks \<and> 1 \<in> set (amounts_largest_first ks) \<and>
     ki_input_fee_ppk ks \<le> 999 \<and> unat (ki_input_fee_ppk ks) * unat n < 2 ^ 64"

lemma fee_safe_mono: "fee_safe ks n \<Longrightarrow> m \<le> n \<Longrightarrow> fee_safe ks m"
  unfolding fee_safe_def word_le_nat_alt [of m]
  using mult_le_mono2 [of "unat m" "unat n" "unat (ki_input_fee_ppk ks)"] by linarith

lemma fees_forward_exact:
  assumes "fee_safe ks n" "deterministic_value_after_fees ks n mx = Some (Ok v)"
  shows "unat v = unat n - (unat (ki_input_fee_ppk ks) *
    length (greedy_amounts (map unat (eligible mx (amounts_largest_first ks))) (unat n)) + 999) div 1000"
proof -
  obtain l where l: "from_target n mx ks = Some (Ok l)" "v = value_after_fees l"
    using assms(2) by (auto simp: deterministic_value_after_fees_def run_bind_eq_Ok)
  have "map unat (ol_amounts l) = greedy_amounts (map unat (eligible mx (amounts_largest_first ks))) (unat n)"
    using from_target_greedy [OF _ l(1)] assms(1) by (simp add: fee_safe_def)
  then have "length (ol_amounts l) =
      length (greedy_amounts (map unat (eligible mx (amounts_largest_first ks))) (unat n))"
    by (metis length_map)
  moreover have "unat (ki_input_fee_ppk ks) * length (ol_amounts l) < 2 ^ 64"
    using assms(1) mult_le_mono2 [OF from_target_length_le [OF l(1)], of "unat (ki_input_fee_ppk ks)"]
    unfolding fee_safe_def by linarith
  ultimately show ?thesis using unat_value_after_fees [OF l(1)] l(2) by simp
qed

lemma fees_forward_mono:
  assumes "fee_safe ks n" "m \<le> n"
    "deterministic_value_after_fees ks m mx = Some (Ok v)"
    "deterministic_value_after_fees ks n mx = Some (Ok w)"
  shows "v \<le> w"
proof -
  have "0 \<notin> set (map unat (eligible mx (amounts_largest_first ks)))"
    using assms(1) by (auto simp: fee_safe_def keyset_wf_def eligible_def unat_eq_zero)
  moreover have "unat (ki_input_fee_ppk ks) \<le> 1000"
    using assms(1) by (simp add: fee_safe_def word_le_nat_alt)
  moreover have "unat m \<le> unat n" using assms(2) by (simp add: word_le_nat_alt)
  ultimately have "unat v \<le> unat w"
    unfolding fees_forward_exact [OF assms(1,4)]
      fees_forward_exact [OF fee_safe_mono [OF assms(1,2)] assms(3)] by (rule greedy_fee_mono)
  then show ?thesis by (simp add: word_le_nat_alt)
qed

lemma fee_safe_total:
  assumes "fee_safe ks n"
  shows "\<exists>v. deterministic_value_after_fees ks m mx = Some (Ok v)"
  using assms fees_forward_total [of ks m mx] unfolding fee_safe_def keyset_wf_def by blast

section \<open>The inverse\<close>

text \<open>What the inverse returns: zero, the target itself when there is no fee, or the search's result.\<close>

lemma inverse_cases:
  assumes "inverse_deterministic_value_after_fees ks t mx = Some (Ok r)"
  obtains "t = 0" "r = \<lparr>nominal_value = 0, actual_balance = 0\<rparr>"
  | "ki_input_fee_ppk ks = 0" "r = \<lparr>nominal_value = t, actual_balance = t\<rparr>"
  | "searched ks t mx t r"
  using assms inverse_search_searched [of ks t mx t r]
  by (auto simp: inverse_deterministic_value_after_fees_def split: if_splits)

lemma fees_forward_zero: "deterministic_value_after_fees ks 0 mx = Some (Ok v) \<Longrightarrow> v = 0"
  using fees_forward_le by fastforce

lemma inverse_reaches:
  assumes "inverse_deterministic_value_after_fees ks t mx = Some (Ok r)"
  shows "t \<le> actual_balance r \<and> actual_balance r \<le> nominal_value r"
  using assms
proof (cases rule: inverse_cases)
  case 3
  then show ?thesis using searched_sound [OF 3] fees_forward_le by blast
qed simp_all

lemma inverse_forward:
  assumes "inverse_deterministic_value_after_fees ks t mx = Some (Ok r)"
    "deterministic_value_after_fees ks (nominal_value r) mx = Some (Ok v)"
  shows "v = actual_balance r"
  using assms(1)
proof (cases rule: inverse_cases)
  case 1
  then show ?thesis using assms(2) fees_forward_zero by simp
next
  case 2
  then show ?thesis using assms(2) fees_forward_free by simp
next
  case 3
  then show ?thesis using assms(2) searched_sound [OF 3] by simp
qed

lemma inverse_least:
  assumes "inverse_deterministic_value_after_fees ks t mx = Some (Ok r)"
    "m < nominal_value r" "deterministic_value_after_fees ks m mx = Some (Ok v)"
  shows "v < t"
proof (cases "t \<le> m")
  case True
  show ?thesis
    using assms(1)
  proof (cases rule: inverse_cases)
    case 3
    then show ?thesis using searched_between [OF 3 True assms(2)] assms(3) by auto
  qed (use True assms(2) in auto)
next
  case False
  then show ?thesis using fees_forward_le [OF assms(3)] by simp
qed

text \<open>The search finds its result whenever some amount reaches the target.\<close>

lemma inverse_found:
  assumes "fee_safe ks N" "deterministic_value_after_fees ks N mx = Some (Ok v)" "t \<le> v"
  shows "\<exists>r. inverse_deterministic_value_after_fees ks t mx = Some (Ok r) \<and> nominal_value r \<le> N"
proof (cases "t = 0 \<or> ki_input_fee_ppk ks = 0")
  case True
  then have "inverse_deterministic_value_after_fees ks t mx =
      Some (Ok \<lparr>nominal_value = t, actual_balance = t\<rparr>)"
    by (auto simp: inverse_deterministic_value_after_fees_def)
  then show ?thesis using fees_forward_le [OF assms(2)] assms(3) by auto
next
  case False
  have "t \<le> N" using fees_forward_le [OF assms(2)] assms(3) by simp
  then obtain r where "inverse_search ks t mx t = Some (Ok r)" "nominal_value r \<le> N"
    using inverse_search_returns [OF _ assms(2,3)] fee_safe_total [OF assms(1)] by blast
  then show ?thesis using False by (auto simp: inverse_deterministic_value_after_fees_def)
qed

lemma inverse_returns:
  assumes "fee_safe ks N" "1000 * unat t \<le> unat N"
  obtains r where "inverse_deterministic_value_after_fees ks t mx = Some (Ok r)" "nominal_value r \<le> N"
proof -
  obtain v where v: "deterministic_value_after_fees ks N mx = Some (Ok v)" "unat N div 1000 \<le> unat v"
    using fees_forward_bound [of ks N mx] assms(1) unfolding fee_safe_def keyset_wf_def by blast
  have "t \<le> v" using v(2) assms(2) by (simp add: word_le_nat_alt)
  then show ?thesis using inverse_found [OF assms(1) v(1)] that by blast
qed

text \<open>Asking again for a value the inverse achieved gives the same nominal amount.\<close>

lemma inverse_stable:
  assumes "inverse_deterministic_value_after_fees ks t mx = Some (Ok r)"
  shows "inverse_deterministic_value_after_fees ks (actual_balance r) mx = Some (Ok r)"
  using assms
proof (cases rule: inverse_cases)
  case 3
  let ?v = "actual_balance r"
  have fwd: "deterministic_value_after_fees ks (nominal_value r) mx = Some (Ok ?v)" "t \<le> ?v"
    using searched_sound [OF 3] by auto
  have le: "?v \<le> nominal_value r" using fees_forward_le [OF fwd(1)] .
  show ?thesis
  proof (cases "?v = 0 \<or> ki_input_fee_ppk ks = 0")
    case True
    then have "t = ?v \<or> ki_input_fee_ppk ks = 0" using fwd(2) by auto
    then show ?thesis
      using assms fees_forward_free [OF _ fwd(1)]
      by (auto simp: inverse_deterministic_value_after_fees_def split: if_splits)
  next
    case False
    have "\<exists>w. deterministic_value_after_fees ks m mx = Some (Ok w)"
      if "?v \<le> m" "m < nominal_value r" for m
      using searched_between [OF 3 _ that(2)] that(1) fwd(2) by (meson order_trans)
    then obtain res where res: "inverse_search ks ?v mx ?v = Some (Ok res)"
      "nominal_value res \<le> nominal_value r"
      using inverse_search_returns [OF le fwd(1) order_refl] by blast
    note s = searched_sound [OF inverse_search_searched [OF res(1)]]
    have "\<not> nominal_value res < nominal_value r"
      using inverse_least [OF assms, of "nominal_value res"] s fwd(2) by force
    then have "nominal_value res = nominal_value r" using res(2) by simp
    then have "res = r" using s fwd(1) by simp
    then show ?thesis using res(1) False by (simp add: inverse_deterministic_value_after_fees_def)
  qed
qed (simp_all add: inverse_deterministic_value_after_fees_def)

section \<open>Fee schedules\<close>

text \<open>
  What the channel parameters rely on: a forward fee function, its inverse, and the amounts for which
  both are computed exactly.  The lemmas are about the two stages a channel pays for: the funding
  token is spent into stage-1 outputs, which are spent again.
\<close>

locale fee_schedule =
  fixes fwd :: "u64 \<Rightarrow> (string, u64) run"
    and inv_fwd :: "u64 \<Rightarrow> (string, InverseFeeResult) run"
    and safe :: "u64 \<Rightarrow> bool"
  assumes fwd_le: "fwd n = Some (Ok v) \<Longrightarrow> v \<le> n"
    and fwd_total: "safe n \<Longrightarrow> \<exists>v. fwd n = Some (Ok v)"
    and fwd_mono: "safe n \<Longrightarrow> m \<le> n \<Longrightarrow> fwd m = Some (Ok v) \<Longrightarrow> fwd n = Some (Ok w) \<Longrightarrow> v \<le> w"
    and safe_down: "safe n \<Longrightarrow> m \<le> n \<Longrightarrow> safe m"
    and inv_reach: "inv_fwd t = Some (Ok r) \<Longrightarrow> t \<le> actual_balance r \<and> actual_balance r \<le> nominal_value r"
    and inv_exact: "inv_fwd t = Some (Ok r) \<Longrightarrow> fwd (nominal_value r) = Some (Ok v) \<Longrightarrow> v = actual_balance r"
    and inv_min: "inv_fwd t = Some (Ok r) \<Longrightarrow> m < nominal_value r \<Longrightarrow> fwd m = Some (Ok v) \<Longrightarrow> v < t"
    and inv_found: "safe n \<Longrightarrow> fwd n = Some (Ok v) \<Longrightarrow> t \<le> v \<Longrightarrow>
          \<exists>r. inv_fwd t = Some (Ok r) \<and> nominal_value r \<le> n"
    and inv_again: "inv_fwd t = Some (Ok r) \<Longrightarrow> inv_fwd (actual_balance r) = Some (Ok r)"
begin

lemma two_stage_reaches:
  assumes "inv_fwd c = Some (Ok r1)" "inv_fwd (nominal_value r1) = Some (Ok r2)"
    "safe (nominal_value r2)"
  obtains v1 v2 where "fwd (nominal_value r2) = Some (Ok v1)" "fwd v1 = Some (Ok v2)" "c \<le> v2"
proof -
  obtain v1 where v1: "fwd (nominal_value r2) = Some (Ok v1)" using fwd_total [OF assms(3)] by blast
  have ge: "nominal_value r1 \<le> v1"
    using inv_exact [OF assms(2) v1] inv_reach [OF assms(2)] by simp
  have safe1: "safe v1" using safe_down [OF assms(3) fwd_le [OF v1]] .
  obtain v2 where v2: "fwd v1 = Some (Ok v2)" using fwd_total [OF safe1] by blast
  obtain w where w: "fwd (nominal_value r1) = Some (Ok w)"
    using fwd_total [OF safe_down [OF safe1 ge]] by blast
  have "c \<le> w" using inv_exact [OF assms(1) w] inv_reach [OF assms(1)] by simp
  also have "w \<le> v2" using fwd_mono [OF safe1 ge w v2] .
  finally show ?thesis using that v1 v2 by blast
qed

lemma two_stage_least:
  assumes "inv_fwd c = Some (Ok r1)" "inv_fwd (nominal_value r1) = Some (Ok r2)"
    "m < nominal_value r2" "fwd m = Some (Ok v1)" "fwd v1 = Some (Ok v2)"
  shows "v2 < c"
  using inv_min [OF assms(1) inv_min [OF assms(2-4)] assms(5)] .

text \<open>A capacity that survives two stages leaves room, after the first, for every balance up to it.\<close>

lemma balance_fits:
  assumes "safe funding" "fwd funding = Some (Ok v1)" "fwd v1 = Some (Ok v2)" "b \<le> v2"
  shows "\<exists>r. inv_fwd b = Some (Ok r) \<and> nominal_value r \<le> v1"
  using inv_found [OF safe_down [OF assms(1) fwd_le [OF assms(2)]] assms(3,4)] .

end

interpretation ks_fees: fee_schedule
  "\<lambda>n. deterministic_value_after_fees ks n mx"
  "\<lambda>t. inverse_deterministic_value_after_fees ks t mx" "fee_safe ks" for ks mx
proof unfold_locales
  show "v \<le> n" if "deterministic_value_after_fees ks n mx = Some (Ok v)" for n v
    using fees_forward_le [OF that] .
  show "\<exists>v. deterministic_value_after_fees ks n mx = Some (Ok v)" if "fee_safe ks n" for n
    using fee_safe_total [OF that] .
  show "v \<le> w" if "fee_safe ks n" "m \<le> n" "deterministic_value_after_fees ks m mx = Some (Ok v)"
    "deterministic_value_after_fees ks n mx = Some (Ok w)" for n m v w
    using fees_forward_mono [OF that] .
  show "fee_safe ks m" if "fee_safe ks n" "m \<le> n" for n m
    using fee_safe_mono [OF that] .
  show "t \<le> actual_balance r \<and> actual_balance r \<le> nominal_value r"
    if "inverse_deterministic_value_after_fees ks t mx = Some (Ok r)" for t r
    using inverse_reaches [OF that] .
  show "v = actual_balance r"
    if "inverse_deterministic_value_after_fees ks t mx = Some (Ok r)"
      "deterministic_value_after_fees ks (nominal_value r) mx = Some (Ok v)" for t r v
    using inverse_forward [OF that] .
  show "v < t" if "inverse_deterministic_value_after_fees ks t mx = Some (Ok r)"
    "m < nominal_value r" "deterministic_value_after_fees ks m mx = Some (Ok v)" for t r m v
    using inverse_least [OF that] .
  show "\<exists>r. inverse_deterministic_value_after_fees ks t mx = Some (Ok r) \<and> nominal_value r \<le> n"
    if "fee_safe ks n" "deterministic_value_after_fees ks n mx = Some (Ok v)" "t \<le> v" for n v t
    using inverse_found [OF that] .
  show "inverse_deterministic_value_after_fees ks (actual_balance r) mx = Some (Ok r)"
    if "inverse_deterministic_value_after_fees ks t mx = Some (Ok r)" for t r
    using inverse_stable [OF that] .
qed

section \<open>The properties of the component\<close>

text \<open>A keyset with the given denominations, for the concrete instances below.\<close>

definition example_keyset :: "u64 list \<Rightarrow> u64 \<Rightarrow> KeysetInfo" where
  "example_keyset amounts ppk = keyset_info_new [0] ''sat'' (map (\<lambda>a. (a, [2])) amounts) ppk None"

lemma keyset_info_new_wf:
  assumes "btree_wf keys" "0 \<notin> set (map fst keys)"
  shows "keyset_wf (keyset_info_new kid u keys ppk expiry)"
proof -
  have "sort (map fst keys) = map fst keys"
    using assms(1) by (simp add: btree_wf_def strict_sorted_iff sorted_sort_id)
  then show ?thesis
    using assms by (simp add: keyset_wf_def keyset_info_new_def btree_wf_def sorted_wrt_rev)
qed

lemma fee_safe_example:
  assumes "keyset_wf (example_keyset amounts ppk)" "1 \<in> set amounts" "ppk \<le> 999"
    "unat ppk * unat n < 18446744073709551616"
  shows "fee_safe (example_keyset amounts ppk) n"
  using assms by (simp add: fee_safe_def example_keyset_def keyset_info_new_def comp_def)

text \<open>C9: a successful split adds up to the target exactly, lists its amounts from the largest to the
  smallest, and uses only positive denominations of the keyset that respect the maximum.\<close>

theorem from_target_exact:
  assumes "from_target t mx ks = Some (Ok l)"
  shows "sum_list (map unat (ol_amounts l)) = unat t \<and> sorted_wrt (\<ge>) (ol_amounts l) \<and>
    (\<forall>a \<in> set (ol_amounts l). 0 < a \<and> a \<in> set (amounts_largest_first ks) \<and> (mx = 0 \<or> a \<le> mx)) \<and>
    length (ol_amounts l) = sum_list (map (unat \<circ> snd) (count_by_amount l))"
  using assms
proof (rule from_target_OkE)
  assume inv: "counts_inv 0 (count_by_amount l)"
    and keys: "set (map fst (count_by_amount l)) \<subseteq> set (eligible mx (amounts_largest_first ks))"
    and exp: "ol_amounts l = expand_counts (count_by_amount l)"
  have mem: "a \<in> set (eligible mx (amounts_largest_first ks))" if "a \<in> set (ol_amounts l)" for a
    using that keys set_expand_counts [of "count_by_amount l"] unfolding exp by blast
  show ?thesis
    using from_target_sum(1) [OF assms] from_target_positive [OF assms] mem
      sorted_expand_counts [of "count_by_amount l"] inv
    unfolding exp by (auto simp: counts_inv_def length_expand_counts eligible_def)
qed

theorem from_target_exact_witness:
  "sum_list (map unat (ol_amounts
     \<lparr>ol_amounts = [4, 4, 2, 1], count_by_amount = [(1, 1), (2, 1), (4, 2)], ol_input_fee_ppk = 0\<rparr>)) =
   unat (11 :: u64)"
proof -
  have "from_target 11 4 (example_keyset [1, 2, 4, 8] 0) =
    Some (Ok \<lparr>ol_amounts = [4, 4, 2, 1], count_by_amount = [(1, 1), (2, 1), (4, 2)],
              ol_input_fee_ppk = 0\<rparr>)"
    by code_simp
  from from_target_exact [OF this] show ?thesis by blast
qed

text \<open>C16: on a keyset whose denominations are sorted and positive, the split always returns, and what it
  returns is the reference division with remainder on natural numbers: the reference amounts when
  nothing is left over, and otherwise the error message that names the target and the maximum.\<close>

theorem from_target_reference:
  assumes "keyset_wf ks"
  shows "\<exists>r. from_target t mx ks = Some r \<and>
    (case r of
       Ok l \<Rightarrow> greedy_rest (map unat (eligible mx (amounts_largest_first ks))) (unat t) = 0 \<and>
         map unat (ol_amounts l) =
           greedy_amounts (map unat (eligible mx (amounts_largest_first ks))) (unat t)
     | Err e \<Rightarrow> greedy_rest (map unat (eligible mx (amounts_largest_first ks))) (unat t) \<noteq> 0 \<and>
         e = cannot_represent t mx)"
proof (cases "from_target t mx ks")
  case None
  then show ?thesis using assms by (simp add: from_target_None_iff keyset_wf_def)
next
  case (Some r)
  then show ?thesis using from_target_greedy [OF assms Some] by blast
qed

theorem from_target_reference_witness:
  "keyset_wf (example_keyset [2, 4] 0) \<and>
   (\<exists>r. from_target 7 0 (example_keyset [2, 4] 0) = Some r)"
proof -
  have "keyset_wf (example_keyset [2, 4] 0)" by code_simp
  then show ?thesis using from_target_reference [of "example_keyset [2, 4] 0" 7 0] by blast
qed

text \<open>C17: the split runs forever exactly when the target is not zero and the keyset lists a zero
  denomination.\<close>

theorem from_target_diverges_iff:
  "from_target t mx ks = diverges \<longleftrightarrow> t \<noteq> 0 \<and> 0 \<in> set (amounts_largest_first ks)"
  by (rule from_target_None_iff)

text \<open>C18: when every denomination divides the next larger one, as the powers of two do, no other choice of
  allowed denominations with the same total has fewer outputs.\<close>

theorem from_target_fewest:
  assumes "keyset_wf ks" "divisor_chain (map unat (eligible mx (amounts_largest_first ks)))"
    and "from_target t mx ks = Some (Ok l)"
    and "set xs \<subseteq> set (eligible mx (amounts_largest_first ks))" "sum_list (map unat xs) = unat t"
  shows "ol_len l \<le> length xs"
proof -
  have "map unat (ol_amounts l) =
      greedy_amounts (map unat (eligible mx (amounts_largest_first ks))) (unat t)"
    using from_target_greedy [OF assms(1,3)] by simp
  then have len: "ol_len l =
      length (greedy_amounts (map unat (eligible mx (amounts_largest_first ks))) (sum_list (map unat xs)))"
    unfolding assms(5) ol_len_def by (metis length_map)
  have "0 \<notin> set (map unat (eligible mx (amounts_largest_first ks)))"
    using assms(1) by (auto simp: keyset_wf_def eligible_def unat_eq_zero)
  then show ?thesis
    using greedy_optimal [OF assms(2), of "map unat xs"] assms(4) unfolding len by fastforce
qed

theorem from_target_fewest_witness:
  "ol_len \<lparr>ol_amounts = [4, 2], count_by_amount = [(2, 1), (4, 1)], ol_input_fee_ppk = 0\<rparr> \<le>
   length [2, 2, 1, 1 :: u64]"
proof -
  let ?ks = "example_keyset [1, 2, 4] 0"
  have "keyset_wf ?ks" by code_simp
  moreover have "divisor_chain (map unat (eligible 0 (amounts_largest_first ?ks)))" by code_simp
  moreover have "from_target 6 0 ?ks =
    Some (Ok \<lparr>ol_amounts = [4, 2], count_by_amount = [(2, 1), (4, 1)], ol_input_fee_ppk = 0\<rparr>)"
    by code_simp
  moreover have "set [2, 2, 1, 1] \<subseteq> set (eligible 0 (amounts_largest_first ?ks))" by code_simp
  moreover have "sum_list (map unat [2, 2, 1, 1 :: u64]) = unat (6 :: u64)" by simp
  ultimately show ?thesis by (rule from_target_fewest)
qed



text \<open>The upward search of the inverse ends: for a keyset with a denomination of one, no zero and a fee
  below one unit per output, it returns a nominal amount of at most a thousand times the target.\<close>

lemma inverse_terminates:
  assumes "fee_safe ks (word_of_nat (1000 * unat t))" "1000 * unat t < 2 ^ 64"
  shows "\<exists>r. inverse_deterministic_value_after_fees ks t mx = Some (Ok r) \<and>
    unat (nominal_value r) \<le> 1000 * unat t"
proof -
  let ?N = "word_of_nat (1000 * unat t) :: u64"
  have N: "unat ?N = 1000 * unat t"
    using assms(2) by (rule unat_word_of_nat_u64)
  then obtain r where "inverse_deterministic_value_after_fees ks t mx = Some (Ok r)"
    "nominal_value r \<le> ?N"
    using inverse_returns [OF assms(1), of t mx] N by auto
  then show ?thesis using N by (auto simp: word_le_nat_alt)
qed

end
