(* ===== verification/External.thy ===== *)
theory External
  imports KeysetsAmounts
begin

text \<open>
  The code the crate calls and does not contain.

  Every function of a third-party crate (\<open>bitcoin\<close>, \<open>secp256k1\<close>, \<open>cashu\<close>, \<open>hkdf\<close>, \<open>lightning\<close>,
  \<open>serde_json\<close>) that the model needs is a field of the record \<open>crypto\<close> or of the record \<open>codec\<close>, and the
  definitions that call it take the record as an argument.  What a property relies on is a predicate
  on the record, stated below, and appears as a hypothesis of that property.

  Keys, scalars and signatures are identified with their serialised bytes, and the plain data types of
  the Cashu protocol are records.
\<close>

type_synonym seckey = bytes
type_synonym scalar = bytes
type_synonym signature = bytes

text \<open>The data of the Cashu protocol: a witness, an output to be signed, a blind signature, a proof, and the
  messages of the swap and restore endpoints.\<close>

datatype witness = P2PKWitness "string list" | HTLCWitness string "string list option"

record BlindedMessage =
  bm_amount :: u64
  bm_keyset_id :: key_id
  bm_blinded_secret :: pubkey
  bm_witness :: "witness option"

record BlindSignature =
  bs_amount :: u64
  bs_keyset_id :: key_id
  bs_c :: pubkey
  bs_dleq :: "(scalar \<times> scalar) option"

record Proof =
  pr_amount :: u64
  pr_keyset_id :: key_id
  pr_secret :: string
  pr_c :: pubkey
  pr_witness :: "witness option"
  pr_dleq :: "(scalar \<times> scalar \<times> scalar) option"
  pr_p2pk_e :: "pubkey option"

record SwapRequest =
  sr_inputs :: "Proof list"
  sr_outputs :: "BlindedMessage list"
  sr_rerandomized :: bool

record SwapResponse =
  sp_signatures :: "BlindSignature list"
  rerandomization_r :: "bytes option"

record RestoreResponse =
  rr_outputs :: "BlindedMessage list"
  rr_signatures :: "BlindSignature list"

definition blinded_message_new :: "u64 \<Rightarrow> key_id \<Rightarrow> pubkey \<Rightarrow> BlindedMessage" where
  "blinded_message_new amount kid point =
     \<lparr>bm_amount = amount, bm_keyset_id = kid, bm_blinded_secret = point, bm_witness = None\<rparr>"

definition swap_request_new :: "Proof list \<Rightarrow> BlindedMessage list \<Rightarrow> SwapRequest" where
  "swap_request_new inputs outputs =
     \<lparr>sr_inputs = inputs, sr_outputs = outputs, sr_rerandomized = False\<rparr>"

definition with_rerandomization :: "SwapRequest \<Rightarrow> SwapRequest" where
  "with_rerandomization r = r\<lparr>sr_rerandomized := True\<rparr>"

text \<open>The functions.\<close>

record crypto =
  sha256 :: "bytes \<Rightarrow> bytes"
  hmac_sha256 :: "bytes \<Rightarrow> bytes \<Rightarrow> bytes"
  shared_secret :: "pubkey \<Rightarrow> seckey \<Rightarrow> bytes"
  hkdf_expand :: "bytes \<Rightarrow> bytes \<Rightarrow> bytes"
  big_size :: "u64 \<Rightarrow> bytes"
  scalar_from_be_bytes :: "bytes \<Rightarrow> scalar option"
  bls_scalar_from_bytes :: "bytes \<Rightarrow> scalar option"
  public_key :: "seckey \<Rightarrow> pubkey"
  odd_y :: "pubkey \<Rightarrow> bool"
  sk_negate :: "seckey \<Rightarrow> seckey"
  sk_add_tweak :: "seckey \<Rightarrow> scalar \<Rightarrow> (string, seckey) result"
  sk_from_slice :: "bytes \<Rightarrow> (string, seckey) result"
  pk_negate :: "pubkey \<Rightarrow> pubkey"
  pk_add_exp_tweak :: "pubkey \<Rightarrow> scalar \<Rightarrow> (string, pubkey) result"
  pk_mul_tweak :: "pubkey \<Rightarrow> seckey \<Rightarrow> (string, pubkey) result"
  x_only :: "pubkey \<Rightarrow> bytes"
  hex_encode :: "bytes \<Rightarrow> string"
  blind_message :: "string \<Rightarrow> seckey \<Rightarrow> (string, pubkey \<times> seckey) result"
  derive_rerandomization_tweak :: "bytes \<Rightarrow> (string, scalar) result"
  tweak_swap_outputs :: "bytes \<Rightarrow> BlindedMessage list \<Rightarrow> (string, BlindedMessage list) result"
  bs_verify_dleq :: "BlindSignature \<Rightarrow> pubkey \<Rightarrow> pubkey \<Rightarrow> (string, unit) result"
  proof_verify_dleq :: "Proof \<Rightarrow> pubkey \<Rightarrow> (string, unit) result"
  construct_proofs ::
    "BlindSignature list \<Rightarrow> seckey list \<Rightarrow> string list \<Rightarrow> keys \<Rightarrow> (string, Proof list) result"
  sig_all_message_hash :: "SwapRequest \<Rightarrow> bytes"
  sign_sig_all :: "SwapRequest \<Rightarrow> seckey \<Rightarrow> (string, SwapRequest) result"
  schnorr_sign :: "seckey \<Rightarrow> bytes \<Rightarrow> signature"
  schnorr_verify :: "bytes \<Rightarrow> bytes \<Rightarrow> signature \<Rightarrow> (string, unit) result"
  id_v1_from_keys :: "keys \<Rightarrow> key_id"
  id_v2_from_data :: "keys \<Rightarrow> currency_unit \<Rightarrow> u64 \<Rightarrow> u64 option \<Rightarrow> key_id"

text \<open>The scalar zero is thirty-two zero bytes.\<close>

definition scalar_zero :: scalar where
  "scalar_zero = replicate 32 0"

text \<open>The value type of \<open>serde_json\<close>, and the text encodings of keys, keyset ids and units.\<close>

datatype json =
    JNull
  | JBool bool
  | JU64 u64
  | JI64 int
  | JFloat string
  | JStr string
  | JArr "json list"
  | JObj "(string \<times> json) list"

text \<open>A document as a typed decoder meets it: the members of an object in text order, duplicates included.\<close>

datatype raw_json = RawObj "(string \<times> json) list" | RawArr "json list" | RawOther

text \<open>The keyset metadata of the mint-wide listing, as \<open>cashu\<close> decodes it.\<close>

record KeySetMeta =
  km_id :: key_id
  km_unit :: string
  km_active :: bool

record codec =
  json_parse :: "string \<Rightarrow> (string, json) result"
  json_raw :: "string \<Rightarrow> (string, raw_json) result"
  keyset_meta :: "json \<Rightarrow> (string, KeySetMeta) result"
  id_version_byte :: "key_id \<Rightarrow> byte"
  json_print :: "json \<Rightarrow> string"
  pk_parse :: "string \<Rightarrow> (string, pubkey) result"
  pk_to_hex :: "pubkey \<Rightarrow> string"
  id_parse :: "string \<Rightarrow> (string, key_id) result"
  id_to_string :: "key_id \<Rightarrow> string"
  unit_from_str :: "string \<Rightarrow> (string, currency_unit) result"
  hex_decode :: "string \<Rightarrow> (string, bytes) result"
  sk_from_hex :: "string \<Rightarrow> (string, seckey) result"
  sig_parse :: "string \<Rightarrow> (string, signature) result"
  sig_to_string :: "signature \<Rightarrow> string"
  proofs_parse :: "string \<Rightarrow> (string, Proof list) result"
  proofs_print :: "Proof list \<Rightarrow> string"
  request_parse :: "string \<Rightarrow> (string, SwapRequest) result"
  request_print :: "SwapRequest \<Rightarrow> string"
  keyset_print :: "KeysetInfo \<Rightarrow> string"

fun json_get :: "json \<Rightarrow> string \<Rightarrow> json option" where
  "json_get (JObj kvs) k = map_of kvs k"
| "json_get _ _ = None"

text \<open>Indexing with a missing key gives the null value.\<close>

definition json_index :: "json \<Rightarrow> string \<Rightarrow> json" where
  "json_index v k = (case json_get v k of None \<Rightarrow> JNull | Some x \<Rightarrow> x)"

fun as_u64 :: "json \<Rightarrow> u64 option" where
  "as_u64 (JU64 n) = Some n"
| "as_u64 _ = None"

fun as_str :: "json \<Rightarrow> string option" where
  "as_str (JStr s) = Some s"
| "as_str _ = None"

fun as_array :: "json \<Rightarrow> json list option" where
  "as_array (JArr xs) = Some xs"
| "as_array _ = None"

fun as_bool :: "json \<Rightarrow> bool option" where
  "as_bool (JBool b) = Some b"
| "as_bool _ = None"

text \<open>
  A derived struct decoder reads an object or an array.  In an object every known member occurs exactly
  once and, where unknown members are denied, no other member occurs; an array has one element per
  field.
\<close>

definition struct_fields :: "bool \<Rightarrow> string list \<Rightarrow> raw_json \<Rightarrow> json list option" where
  "struct_fields deny_unknown known raw =
     (case raw of
        RawObj kvs \<Rightarrow>
          if list_all (\<lambda>k. length (filter (\<lambda>(k', _). k' = k) kvs) = 1) known \<and>
             (deny_unknown \<longrightarrow> list_all (\<lambda>(k, _). k \<in> set known) kvs)
          then Some (map (\<lambda>k. the (map_of kvs k)) known) else None
      | RawArr xs \<Rightarrow> if length xs = length known then Some xs else None
      | RawOther \<Rightarrow> None)"

definition or_else :: "'a option \<Rightarrow> 'a option \<Rightarrow> 'a option" where
  "or_else a b = (case a of None \<Rightarrow> b | Some _ \<Rightarrow> a)"

section \<open>Documented behaviour used as hypotheses\<close>

text \<open>Adding a tweak commutes with taking the public key, and so does negation.\<close>

definition secp_laws :: "crypto \<Rightarrow> bool" where
  "secp_laws C \<longleftrightarrow>
     (\<forall>s. public_key C (sk_negate C s) = pk_negate C (public_key C s)) \<and>
     (\<forall>s r s'. sk_add_tweak C s r = Ok s' \<longrightarrow>
        pk_add_exp_tweak C (public_key C s) r = Ok (public_key C s'))"

text \<open>Diffie-Hellman is symmetric.\<close>

definition ecdh_symmetric :: "crypto \<Rightarrow> bool" where
  "ecdh_symmetric C \<longleftrightarrow>
     (\<forall>a b. shared_secret C (public_key C a) b = shared_secret C (public_key C b) a)"

text \<open>The variable-length integers of the Lightning encoding are self-delimiting.\<close>

definition big_size_delimited :: "crypto \<Rightarrow> bool" where
  "big_size_delimited C \<longleftrightarrow>
     (\<forall>m n x y. big_size C m @ x = big_size C n @ y \<longrightarrow> m = n \<and> x = y)"

text \<open>A hexadecimal encoding is injective and never contains the field separator.\<close>

definition hex_laws :: "crypto \<Rightarrow> bool" where
  "hex_laws C \<longleftrightarrow> inj (hex_encode C) \<and> (\<forall>b. CHR ''|'' \<notin> set (hex_encode C b))"

section \<open>A concrete instance\<close>

text \<open>
  Functions that satisfy the laws above and compute, used to show that the hypotheses of a property can
  hold.  The hash is the identity, a key pair is a number and itself, and the hexadecimal encoding is
  the usual one.
\<close>

definition hex_digit :: "nat \<Rightarrow> char" where
  "hex_digit d = (if d < 10 then char_of (48 + d) else char_of (87 + d))"

definition hex_byte :: "byte \<Rightarrow> string" where
  "hex_byte b = [hex_digit (unat b div 16), hex_digit (unat b mod 16)]"

definition hex_string :: "bytes \<Rightarrow> string" where
  "hex_string bs = concat (map hex_byte bs)"

definition fixed_width :: "u64 \<Rightarrow> bytes" where
  "fixed_width w = map (\<lambda>i. ucast (drop_bit (8 * (7 - i)) w)) [0..<8]"

lemma char_of_int: "(char_of (int n) :: char) = char_of n"
  by (simp add: char_of_def bit_of_nat_iff flip: bit_0)

definition latin1 :: "bytes \<Rightarrow> string" where
  [simp]: "latin1 bs = map (\<lambda>b. char_of (unat b)) bs"

lemma latin1_code [code]: "latin1 bs = map (\<lambda>b. char_of (uint b)) bs"
proof -
  have "(char_of (uint b) :: char) = char_of (unat b)" for b :: byte
    using char_of_int [of "unat b"] by simp
  then show ?thesis by simp
qed

definition read_latin1 :: "string \<Rightarrow> (string, bytes) result" where
  [simp]: "read_latin1 s = Ok (string_bytes s)"

definition example_crypto :: crypto where
  "example_crypto =
     \<lparr>sha256 = id, hmac_sha256 = (\<lambda>k m. k @ m), shared_secret = (\<lambda>pk sk. [hd (pk @ [0]) + hd (sk @ [0])]),
      hkdf_expand = (\<lambda>k info. k @ info), big_size = fixed_width,
      scalar_from_be_bytes = Some, bls_scalar_from_bytes = Some,
      public_key = id, odd_y = (\<lambda>_. False), sk_negate = id,
      sk_add_tweak = (\<lambda>s r. Ok (s @ r)), sk_from_slice = Ok,
      pk_negate = id, pk_add_exp_tweak = (\<lambda>p r. Ok (p @ r)), pk_mul_tweak = (\<lambda>p s. Ok (p @ s)),
      x_only = id, hex_encode = hex_string, blind_message = (\<lambda>s r. Ok (string_bytes s @ r, r)),
      derive_rerandomization_tweak = (\<lambda>r. Ok r),
      tweak_swap_outputs = (\<lambda>r os. Ok (map (\<lambda>m. m\<lparr>bm_blinded_secret := bm_blinded_secret m @ r\<rparr>) os)),
      bs_verify_dleq = (\<lambda>s k b. if bs_c s = k @ b then Ok () else Err ''dleq''),
      proof_verify_dleq = (\<lambda>_ _. Ok ()),
      construct_proofs = (\<lambda>ss rs secrets ks. Ok (map (\<lambda>(s, secret).
        \<lparr>pr_amount = bs_amount s, pr_keyset_id = bs_keyset_id s, pr_secret = secret, pr_c = bs_c s,
         pr_witness = None, pr_dleq = None, pr_p2pk_e = None\<rparr>) (zip ss secrets))),
      sig_all_message_hash = (\<lambda>r. concat (map pr_c (sr_inputs r)) @ concat (map bm_blinded_secret (sr_outputs r))),
      sign_sig_all = (\<lambda>r k. case sr_inputs r of
          [] \<Rightarrow> Err ''no inputs''
        | i # is \<Rightarrow> Ok (r\<lparr>sr_inputs := i\<lparr>pr_witness := Some (P2PKWitness [map (\<lambda>b. char_of (unat b))
            (k @ concat (map pr_c (sr_inputs r)) @ concat (map bm_blinded_secret (sr_outputs r)))])\<rparr> # is\<rparr>)),
      schnorr_sign = (\<lambda>k m. k @ m),
      schnorr_verify = (\<lambda>x m s. if s = x @ m then Ok () else Err ''invalid signature''),
      id_v1_from_keys = (\<lambda>ks. [0]), id_v2_from_data = (\<lambda>ks u fee ex. [1])\<rparr>"

lemma hex_digit_neq: "d < 16 \<Longrightarrow> hex_digit d \<noteq> CHR ''|''"
proof
  assume "d < 16" "hex_digit d = CHR ''|''"
  then have "(of_char (hex_digit d) :: nat) = 124" by simp
  then show False using \<open>d < 16\<close> by (auto simp: hex_digit_def split: if_splits)
qed

lemma hex_digit_inj: "d < 16 \<Longrightarrow> e < 16 \<Longrightarrow> hex_digit d = hex_digit e \<Longrightarrow> d = e"
  using arg_cong [of "hex_digit d" "hex_digit e" "of_char :: char \<Rightarrow> nat"]
  by (auto simp: hex_digit_def split: if_splits)

lemma unat_byte_less: "unat (b :: byte) < 256"
  using unsigned_less [of b] by simp

lemma hex_byte_inj: "hex_byte a = hex_byte b \<Longrightarrow> a = b"
proof -
  assume "hex_byte a = hex_byte b"
  then have "unat a div 16 = unat b div 16" "unat a mod 16 = unat b mod 16"
    using unat_byte_less [of a] unat_byte_less [of b]
    by (auto simp: hex_byte_def intro!: hex_digit_inj)
  then have "unat a = unat b" by (metis div_mult_mod_eq)
  then show "a = b" by (simp add: word_unat_eq_iff)
qed

lemma hex_string_inj: "hex_string xs = hex_string ys \<Longrightarrow> xs = ys"
proof (induction xs arbitrary: ys)
  case Nil
  then show ?case by (cases ys) (auto simp: hex_string_def hex_byte_def)
next
  case (Cons x xs)
  then obtain y ys' where ys: "ys = y # ys'"
    by (cases ys) (auto simp: hex_string_def hex_byte_def)
  have "hex_byte x = hex_byte y" "hex_string xs = hex_string ys'"
    using Cons.prems unfolding ys by (auto simp: hex_string_def hex_byte_def)
  then show ?case using Cons.IH ys hex_byte_inj by blast
qed

lemma hex_byte_sep: "CHR ''|'' \<notin> set (hex_byte b)"
proof -
  have "unat b div 16 < 16" using unat_byte_less [of b] by linarith
  then have "hex_digit (unat b div 16) \<noteq> CHR ''|''" "hex_digit (unat b mod 16) \<noteq> CHR ''|''"
    by (rule hex_digit_neq, simp add: hex_digit_neq)
  then show ?thesis by (simp add: hex_byte_def eq_commute [of "CHR ''|''"])
qed

lemma hex_string_sep: "CHR ''|'' \<notin> set (hex_string bs)"
  by (induction bs) (simp_all add: hex_string_def hex_byte_sep)

lemma example_hex_laws: "hex_laws example_crypto"
  unfolding hex_laws_def
proof
  show "inj (hex_encode example_crypto)"
    by (rule injI) (simp add: example_crypto_def hex_string_inj)
  show "\<forall>b. CHR ''|'' \<notin> set (hex_encode example_crypto b)"
    by (simp add: example_crypto_def hex_string_sep)
qed

lemma example_secp_laws: "secp_laws example_crypto"
  by (simp add: secp_laws_def example_crypto_def)

lemma example_ecdh_symmetric: "ecdh_symmetric example_crypto"
  by (simp add: ecdh_symmetric_def example_crypto_def add.commute)

text \<open>A codec that reads every text as one fixed value.\<close>

definition example_codec :: "json \<Rightarrow> codec" where
  "example_codec v =
     \<lparr>json_parse = (\<lambda>_. Ok v), json_raw = (\<lambda>_. Ok (case v of JObj kvs \<Rightarrow> RawObj kvs | JArr xs \<Rightarrow> RawArr xs | _ \<Rightarrow> RawOther)),
      keyset_meta = (\<lambda>_. Err []), id_version_byte = (\<lambda>k. hd (k @ [0])),
      json_print = (\<lambda>_. []), pk_parse = read_latin1,
      pk_to_hex = latin1, id_parse = read_latin1,
      id_to_string = latin1, unit_from_str = Ok,
      hex_decode = read_latin1, sk_from_hex = read_latin1,
      sig_parse = read_latin1, sig_to_string = latin1,
      proofs_parse = (\<lambda>_. Ok []), proofs_print = (\<lambda>_. []),
      request_parse = (\<lambda>_. Err []), request_print = (\<lambda>_. []), keyset_print = (\<lambda>_. [])\<rparr>"

end
