(* ===== verification/Storage.thy ===== *)
theory Storage
  imports External
begin

text \<open>
  The contract of the receiver's storage: the trait \<open>SpilmanStorage\<close> of
  \<open>crates/cdk-spilman/src/configurable_host.rs\<close>, with the stored data types of \<open>bridge.rs\<close>.

  The trait is a record of operations on an abstract state.  What a client sees of one channel is its
  view, the contract says how each operation changes the view, and the lifecycle of a channel is proved
  from the contract for every implementation.  Operations run one after the other: the code takes a lock
  around each of them.
\<close>

section \<open>Stored data\<close>

record ChannelFunding =
  params_json :: string
  funding_proofs_json :: string
  channel_secret_hex :: string
  keyset_info_json :: string

record PaymentProof =
  pay_balance :: u64
  pay_signature :: string

datatype ChannelState = Open | Closing | Closed

definition from_host_value :: "string option \<Rightarrow> (string, ChannelState option) result" where
  "from_host_value v =
     (case v of
        None \<Rightarrow> Ok None
      | Some t \<Rightarrow>
          if t = ''open'' then Ok (Some Open)
          else if t = ''closing'' then Ok (Some Closing)
          else if t = ''closed'' then Ok (Some Closed)
          else Err ''invalid receiver channel state'')"

record ClosingData =
  cd_expiry_timestamp :: u64
  cd_balance :: u64
  cd_signature :: string

record ClosedDataView =
  cv_expiry_timestamp :: u64
  closed_amount :: u64
  value_after_stage1 :: u64
  receiver_sum :: u64
  sender_sum :: u64
  receiver_proofs_json :: string
  sender_proofs_json :: string

record KeysetCacheEntry =
  kc_info_json :: string
  kc_active :: bool
  kc_unit :: currency_unit

type_synonym channel_id = string
type_synonym usage_map = "(string \<times> u64) list"
type_synonym 's update = "'s \<Rightarrow> (string, unit) result \<times> 's"

text \<open>The storage trait.\<close>

record 's SpilmanStorage =
  st_compare_payment :: "channel_id \<Rightarrow> PaymentProof \<Rightarrow> PaymentProof \<Rightarrow> 's update"
  st_get_close_journal :: "'s \<Rightarrow> channel_id \<Rightarrow> (string, string option) result"
  st_freeze_close :: "channel_id \<Rightarrow> PaymentProof \<Rightarrow> ClosingData \<Rightarrow> string \<Rightarrow> 's update"
  st_advance_close :: "channel_id \<Rightarrow> string \<Rightarrow> string \<Rightarrow> ClosedDataView option \<Rightarrow> 's update"
  st_get_funding :: "'s \<Rightarrow> channel_id \<Rightarrow> ChannelFunding option"
  st_save_funding :: "channel_id \<Rightarrow> ChannelFunding \<Rightarrow> 's update"
  st_get_balance :: "'s \<Rightarrow> channel_id \<Rightarrow> PaymentProof option"
  st_update_balance :: "channel_id \<Rightarrow> PaymentProof \<Rightarrow> 's update"
  st_get_usage :: "'s \<Rightarrow> channel_id \<Rightarrow> usage_map option"
  st_increment_usage :: "channel_id \<Rightarrow> usage_map \<Rightarrow> 's update"
  st_get_state :: "'s \<Rightarrow> channel_id \<Rightarrow> (string, ChannelState option) result"
  st_mark_closing :: "channel_id \<Rightarrow> ClosingData \<Rightarrow> 's update"
  st_get_closing_data :: "'s \<Rightarrow> channel_id \<Rightarrow> ClosingData option"
  st_mark_closed :: "channel_id \<Rightarrow> ClosedDataView \<Rightarrow> 's update"
  st_get_closed_data :: "'s \<Rightarrow> channel_id \<Rightarrow> ClosedDataView option"
  st_get_keyset :: "'s \<Rightarrow> string \<Rightarrow> key_id \<Rightarrow> KeysetCacheEntry option"
  st_set_keyset :: "string \<Rightarrow> key_id \<Rightarrow> KeysetCacheEntry \<Rightarrow> 's update"
  st_get_active_keyset_ids :: "'s \<Rightarrow> string \<Rightarrow> currency_unit \<Rightarrow> key_id list"
  st_list_keysets_for_unit :: "'s \<Rightarrow> string \<Rightarrow> currency_unit \<Rightarrow> (key_id \<times> KeysetCacheEntry) list"
  st_get_mints_units_keysets :: "'s \<Rightarrow> string \<Rightarrow> string \<Rightarrow> string list"
  st_get_active_units :: "'s \<Rightarrow> string set"

section \<open>The contract\<close>

text \<open>What a client sees of a channel.\<close>

record channel_view =
  v_funding :: "ChannelFunding option"
  v_state :: "ChannelState option"
  v_balance :: "PaymentProof option"
  v_closing :: "ClosingData option"
  v_closed :: "ClosedDataView option"
  v_journal :: "string option"

definition view :: "'s SpilmanStorage \<Rightarrow> 's \<Rightarrow> channel_id \<Rightarrow> channel_view" where
  "view S s c =
     \<lparr>v_funding = st_get_funding S s c,
      v_state = (case st_get_state S s c of Ok st \<Rightarrow> st | Err _ \<Rightarrow> None),
      v_balance = st_get_balance S s c, v_closing = st_get_closing_data S s c,
      v_closed = st_get_closed_data S s c,
      v_journal = (case st_get_close_journal S s c of Ok j \<Rightarrow> j | Err _ \<Rightarrow> None)\<rparr>"

text \<open>The operations that change the storage.\<close>

datatype storage_op =
    SaveFunding channel_id ChannelFunding
  | UpdateBalance channel_id PaymentProof
  | ComparePayment channel_id PaymentProof PaymentProof
  | FreezeClose channel_id PaymentProof ClosingData string
  | AdvanceClose channel_id string string "ClosedDataView option"
  | MarkClosing channel_id ClosingData
  | MarkClosed channel_id ClosedDataView
  | IncrementUsage channel_id usage_map
  | SetKeyset string key_id KeysetCacheEntry

fun run_op :: "'s SpilmanStorage \<Rightarrow> storage_op \<Rightarrow> 's update" where
  "run_op S (SaveFunding c f) = st_save_funding S c f"
| "run_op S (UpdateBalance c p) = st_update_balance S c p"
| "run_op S (ComparePayment c e p) = st_compare_payment S c e p"
| "run_op S (FreezeClose c e cd j) = st_freeze_close S c e cd j"
| "run_op S (AdvanceClose c e j d) = st_advance_close S c e j d"
| "run_op S (MarkClosing c cd) = st_mark_closing S c cd"
| "run_op S (MarkClosed c d) = st_mark_closed S c d"
| "run_op S (IncrementUsage c u) = st_increment_usage S c u"
| "run_op S (SetKeyset mint_url kid e) = st_set_keyset S mint_url kid e"

fun op_channel :: "storage_op \<Rightarrow> channel_id option" where
  "op_channel (SaveFunding c f) = Some c"
| "op_channel (UpdateBalance c p) = Some c"
| "op_channel (ComparePayment c e p) = Some c"
| "op_channel (FreezeClose c e cd j) = Some c"
| "op_channel (AdvanceClose c e j d) = Some c"
| "op_channel (MarkClosing c cd) = Some c"
| "op_channel (MarkClosed c d) = Some c"
| "op_channel (IncrementUsage c u) = Some c"
| "op_channel (SetKeyset mint_url kid e) = None"

text \<open>The effect of a successful operation on the view of its channel, and the condition for success.  A
  payment has a signature, which is never the empty string.\<close>

fun spec_step :: "storage_op \<Rightarrow> channel_view \<Rightarrow> channel_view option" where
  "spec_step (SaveFunding c f) v =
     Some (v\<lparr>v_funding := (case v_funding v of None \<Rightarrow> Some f | Some g \<Rightarrow> Some g),
             v_state := (case v_state v of None \<Rightarrow> Some Open | Some st \<Rightarrow> Some st)\<rparr>)"
| "spec_step (UpdateBalance c p) v =
     (if v_state v = Some Open
      then Some (v\<lparr>v_balance := (case v_balance v of
                                  None \<Rightarrow> Some p
                                | Some b \<Rightarrow> if pay_balance b < pay_balance p then Some p else Some b)\<rparr>)
      else None)"
| "spec_step (ComparePayment c e p) v =
     (if v_state v = Some Open \<and> v_balance v = Some e \<and> pay_balance e < pay_balance p
      then Some (v\<lparr>v_balance := Some p\<rparr>) else None)"
| "spec_step (FreezeClose c e cd j) v =
     (if cd_balance cd = pay_balance e \<and> cd_signature cd = pay_signature e \<and> v_state v = Some Open \<and>
         v_balance v = Some e \<and> v_journal v = None
      then Some (v\<lparr>v_state := Some Closing, v_closing := Some cd, v_journal := Some j\<rparr>) else None)"
| "spec_step (AdvanceClose c e j d) v =
     (if v_journal v = Some e \<and> v_state v = Some Closing
      then Some (case d of
                   None \<Rightarrow> v\<lparr>v_journal := Some j\<rparr>
                 | Some data \<Rightarrow> v\<lparr>v_state := Some Closed, v_closing := None, v_closed := Some data, v_journal := Some j\<rparr>)
      else None)"
| "spec_step (MarkClosing c cd) v =
     (if v_state v \<noteq> Some Closed \<and> v_journal v = None
      then Some (v\<lparr>v_state := Some Closing, v_closing := Some cd\<rparr>) else None)"
| "spec_step (MarkClosed c d) v =
     (if v_state v \<noteq> Some Closed \<and> v_journal v = None
      then Some (v\<lparr>v_state := Some Closed, v_closing := None, v_closed := Some d\<rparr>) else None)"
| "spec_step (IncrementUsage c u) v = Some v"
| "spec_step (SetKeyset mint_url kid e) v = Some v"

fun valid_op :: "storage_op \<Rightarrow> bool" where
  "valid_op (UpdateBalance c p) \<longleftrightarrow> pay_signature p \<noteq> []"
| "valid_op (ComparePayment c e p) \<longleftrightarrow> pay_signature e \<noteq> [] \<and> pay_signature p \<noteq> []"
| "valid_op (FreezeClose c e cd j) \<longleftrightarrow> pay_signature e \<noteq> []"
| "valid_op _ \<longleftrightarrow> True"

definition moves :: "storage_op \<Rightarrow> channel_id \<Rightarrow> channel_view \<Rightarrow> channel_view \<Rightarrow> bool" where
  "moves op c v v' \<longleftrightarrow> (if op_channel op = Some c then spec_step op v = Some v' else v' = v)"

text \<open>A run of operations, with their results.\<close>

fun run_ops :: "'s SpilmanStorage \<Rightarrow> storage_op list \<Rightarrow> 's \<Rightarrow> (string, unit) result list \<times> 's" where
  "run_ops S [] s = ([], s)"
| "run_ops S (op # ops) s =
     (case run_op S op s of (r, s1) \<Rightarrow> (case run_ops S ops s1 of (rs, s2) \<Rightarrow> (r # rs, s2)))"

text \<open>Every operation of a run is valid where it runs.\<close>

fun valid_run :: "'s SpilmanStorage \<Rightarrow> ('s \<Rightarrow> storage_op \<Rightarrow> bool) \<Rightarrow> storage_op list \<Rightarrow> 's \<Rightarrow> bool" where
  "valid_run S valid [] s \<longleftrightarrow> True"
| "valid_run S valid (op # ops) s \<longleftrightarrow> valid s op \<and> valid_run S valid ops (snd (run_op S op s))"

section \<open>The lifecycle of a view\<close>

fun stage :: "ChannelState option \<Rightarrow> nat" where
  "stage None = 0"
| "stage (Some Open) = 1"
| "stage (Some Closing) = 2"
| "stage (Some Closed) = 3"

text \<open>How a view may develop: the funding is fixed once known; the state only moves forward; a payment is
  only replaced by a larger one, and by none once the channel is closing; a closed channel keeps its
  closing record; a journal is never lost, and while it exists the frozen claim stays what it was
  until the channel is closed.\<close>

definition develops :: "channel_view \<Rightarrow> channel_view \<Rightarrow> bool" where
  "develops v v' \<longleftrightarrow>
     (v_funding v \<noteq> None \<longrightarrow> v_funding v' = v_funding v) \<and>
     stage (v_state v) \<le> stage (v_state v') \<and>
     (\<forall>b. v_balance v = Some b \<longrightarrow>
        (\<exists>b'. v_balance v' = Some b' \<and> (b' = b \<or> stage (v_state v) \<le> 1 \<and> pay_balance b < pay_balance b'))) \<and>
     (2 \<le> stage (v_state v) \<longrightarrow> v_balance v' = v_balance v) \<and>
     (v_state v = Some Closed \<longrightarrow> v_closed v' = v_closed v) \<and>
     (v_journal v \<noteq> None \<longrightarrow> v_journal v' \<noteq> None \<and>
        (2 \<le> stage (v_state v) \<longrightarrow> v_closing v' = v_closing v \<or> v_state v' = Some Closed))"

lemma stage_simps [simp]:
  "stage st = 3 \<longleftrightarrow> st = Some Closed" "3 \<le> stage st \<longleftrightarrow> st = Some Closed"
  "stage st = 2 \<longleftrightarrow> st = Some Closing" "stage st = 0 \<longleftrightarrow> st = None" "stage st \<le> 3"
  "stage st \<le> 2 \<longleftrightarrow> st \<noteq> Some Closed"
  by (cases st rule: stage.cases; simp)+

lemma develops_refl [simp]: "develops v v"
  by (simp add: develops_def)

lemma develops_balance:
  assumes "develops v v'" "v_balance v = Some b"
  shows "\<exists>b'. v_balance v' = Some b' \<and> (b' = b \<or> stage (v_state v) \<le> 1 \<and> pay_balance b < pay_balance b')"
  using assms(1) unfolding develops_def using assms(2) by blast

lemma develops_stage: "develops v v' \<Longrightarrow> stage (v_state v) \<le> stage (v_state v')"
  unfolding develops_def by blast

lemma develops_closed:
  assumes "develops v v'" "v_state v = Some Closed"
  shows "v_state v' = Some Closed" "v_closed v' = v_closed v"
  using develops_stage [OF assms(1)] assms unfolding develops_def by auto

lemma develops_trans:
  assumes "develops u v" "develops v w"
  shows "develops u w"
proof -
  note st = develops_stage [OF assms(1)] develops_stage [OF assms(2)]
  have bal: "\<exists>b'. v_balance w = Some b' \<and> (b' = b \<or> stage (v_state u) \<le> 1 \<and> pay_balance b < pay_balance b')"
    if b: "v_balance u = Some b" for b
  proof -
    obtain b1 where b1: "v_balance v = Some b1" "b1 = b \<or> stage (v_state u) \<le> 1 \<and> pay_balance b < pay_balance b1"
      using develops_balance [OF assms(1) b] by blast
    then obtain b2 where "v_balance w = Some b2" "b2 = b1 \<or> stage (v_state v) \<le> 1 \<and> pay_balance b1 < pay_balance b2"
      using develops_balance [OF assms(2)] by blast
    then show ?thesis using b1 st by auto
  qed
  have fixed: "v_balance w = v_balance u" if "2 \<le> stage (v_state u)"
    using that st assms unfolding develops_def by simp
  have fund: "v_funding w = v_funding u" if "v_funding u \<noteq> None"
    using that assms unfolding develops_def by simp
  have jo: "v_journal w \<noteq> None \<and> (2 \<le> stage (v_state u) \<longrightarrow> v_closing w = v_closing u \<or> v_state w = Some Closed)"
    if "v_journal u \<noteq> None"
  proof -
    have v: "v_journal v \<noteq> None" "2 \<le> stage (v_state u) \<Longrightarrow> v_closing v = v_closing u \<or> v_state v = Some Closed"
      using assms(1) that unfolding develops_def by blast+
    have w: "v_journal w \<noteq> None" "2 \<le> stage (v_state v) \<Longrightarrow> v_closing w = v_closing v \<or> v_state w = Some Closed"
      using assms(2) v(1) unfolding develops_def by blast+
    show ?thesis using v(2) w st develops_closed(1) [OF assms(2)] by auto
  qed
  show ?thesis
    unfolding develops_def
    using st bal fixed fund jo develops_closed [OF assms(1)] develops_closed [OF assms(2)] by auto
qed

lemma spec_step_develops:
  assumes "spec_step op v = Some v'"
  shows "develops v v'"
  using assms
  by (cases op) (auto simp: develops_def split: option.splits if_splits)

text \<open>A frozen claim is the last accepted payment.\<close>

definition frozen_claim :: "channel_view \<Rightarrow> bool" where
  "frozen_claim v \<longleftrightarrow>
     (v_journal v \<noteq> None \<and> v_state v = Some Closing \<longrightarrow>
        (\<exists>cd. v_closing v = Some cd \<and> v_balance v = Some \<lparr>pay_balance = cd_balance cd, pay_signature = cd_signature cd\<rparr>)) \<and>
     (v_journal v \<noteq> None \<longrightarrow> 2 \<le> stage (v_state v))"

lemma spec_step_frozen:
  assumes "frozen_claim v" "spec_step op v = Some v'"
  shows "frozen_claim v'"
  using assms
  by (cases op) (auto simp: frozen_claim_def split: option.splits if_splits)

section \<open>Every implementation\<close>

text \<open>The laws an implementation promises for its states \<open>ok\<close> and the operations \<open>valid\<close> there: reads succeed, a
  successful operation changes the view of its channel as specified and no other view, and a failed
  one changes none.\<close>

locale channel_store =
  fixes S :: "'s SpilmanStorage" and ok :: "'s \<Rightarrow> bool" and valid :: "'s \<Rightarrow> storage_op \<Rightarrow> bool"
  assumes reads: "ok s \<Longrightarrow> is_ok (st_get_state S s c)"
    and valid_payment: "valid_op op \<Longrightarrow> (\<And>c f. op \<noteq> SaveFunding c f) \<Longrightarrow> valid s op"
    and keeps_ok: "ok s \<Longrightarrow> valid s op \<Longrightarrow> run_op S op s = (r, s') \<Longrightarrow> ok s'"
    and effect: "ok s \<Longrightarrow> valid s op \<Longrightarrow> run_op S op s = (r, s') \<Longrightarrow>
      (if is_ok r then moves op c (view S s c) (view S s' c) else view S s' c = view S s c)"
begin

lemma step_develops:
  assumes "ok s" "valid s op" "run_op S op s = (r, s')"
  shows "develops (view S s c) (view S s' c)"
  using effect [OF assms, of c] by (auto simp: moves_def spec_step_develops split: if_splits)

lemma step_frozen:
  assumes "ok s" "valid s op" "run_op S op s = (r, s')" "frozen_claim (view S s c)"
  shows "frozen_claim (view S s' c)"
  using effect [OF assms(1-3), of c] assms(4) by (auto simp: moves_def spec_step_frozen split: if_splits)

lemma chain_develops:
  assumes "ok s" "valid_run S valid ops s"
  shows "ok (snd (run_ops S ops s)) \<and> develops (view S s c) (view S (snd (run_ops S ops s)) c)"
  using assms
proof (induction ops arbitrary: s)
  case (Cons op ops)
  obtain r s1 where r: "run_op S op s = (r, s1)" by (cases "run_op S op s")
  have "ok s1" "develops (view S s c) (view S s1 c)"
    using keeps_ok [OF Cons.prems(1) _ r] step_develops [OF Cons.prems(1) _ r] Cons.prems(2) by (simp_all add: r)
  then show ?case
    using Cons.IH [of s1] Cons.prems(2) r develops_trans by (auto split: prod.splits)
qed simp

lemma chain_frozen:
  assumes "ok s" "valid_run S valid ops s" "frozen_claim (view S s c)"
  shows "frozen_claim (view S (snd (run_ops S ops s)) c)"
  using assms
proof (induction ops arbitrary: s)
  case (Cons op ops)
  obtain r s1 where r: "run_op S op s = (r, s1)" by (cases "run_op S op s")
  have "ok s1" "frozen_claim (view S s1 c)"
    using keeps_ok [OF Cons.prems(1) _ r] step_frozen [OF Cons.prems(1) _ r Cons.prems(3)] Cons.prems(2) by (simp_all add: r)
  then show ?case
    using Cons.IH [of s1] Cons.prems(2) r by (auto split: prod.splits)
qed simp

text \<open>A success of the compare-and-swap of a payment, and of a freeze, was made against exactly the expected payment.\<close>

lemma compare_payment_exact:
  assumes "ok s" "pay_signature e \<noteq> []" "pay_signature p \<noteq> []" "st_compare_payment S c e p s = (Ok (), s')"
  shows "v_state (view S s c) = Some Open \<and> v_balance (view S s c) = Some e \<and> pay_balance e < pay_balance p \<and>
    v_balance (view S s' c) = Some p"
  using effect [of s "ComparePayment c e p" "Ok ()" s' c] valid_payment [of "ComparePayment c e p" s] assms
  by (auto simp: moves_def eq_commute [of _ "view S s' c"] split: if_splits)

lemma freeze_close_exact:
  assumes "ok s" "pay_signature e \<noteq> []" "st_freeze_close S c e cd j s = (Ok (), s')"
  shows "v_state (view S s c) = Some Open \<and> v_balance (view S s c) = Some e \<and> v_state (view S s' c) = Some Closing \<and>
    v_balance (view S s' c) = Some e \<and> v_closing (view S s' c) = Some cd \<and> v_journal (view S s' c) = Some j \<and>
    cd_balance cd = pay_balance e \<and> cd_signature cd = pay_signature e"
  using effect [of s "FreezeClose c e cd j" "Ok ()" s' c] valid_payment [of "FreezeClose c e cd j" s] assms
  by (auto simp: moves_def eq_commute [of _ "view S s' c"] split: if_splits)

text \<open>A snapshot is used at most once: after a payment or a freeze against it, neither succeeds against it again.\<close>

lemma snapshot_used:
  assumes "ok s" "pay_signature e \<noteq> []" "pay_signature p \<noteq> []" "pay_signature q \<noteq> []"
    "st_compare_payment S c e p s = (Ok (), s')"
  shows "\<not> is_ok (fst (st_compare_payment S c e q s'))" "\<not> is_ok (fst (st_freeze_close S c e cd j s'))"
proof -
  have ok': "ok s'"
    using keeps_ok [of s "ComparePayment c e p"] valid_payment [of "ComparePayment c e p" s] assms by simp
  have "v_balance (view S s' c) = Some p" "e \<noteq> p"
    using compare_payment_exact [OF assms(1-3,5)] by auto
  then show "\<not> is_ok (fst (st_compare_payment S c e q s'))" "\<not> is_ok (fst (st_freeze_close S c e cd j s'))"
    using compare_payment_exact [OF ok' assms(2,4), of c] freeze_close_exact [OF ok' assms(2), of c cd j]
    by (auto simp: is_ok_def split: sum.splits)
      (metis option.inject prod.collapse)+
qed

lemma freeze_ends_payments:
  assumes "ok s" "pay_signature e \<noteq> []" "pay_signature q \<noteq> []" "st_freeze_close S c e cd j s = (Ok (), s')"
  shows "\<not> is_ok (fst (st_compare_payment S c e' q s')) \<or> pay_signature e' = []"
    "\<not> is_ok (fst (st_update_balance S c q s'))"
proof -
  have ok': "ok s'"
    using keeps_ok [of s "FreezeClose c e cd j"] valid_payment [of "FreezeClose c e cd j" s] assms by simp
  have st: "v_state (view S s' c) = Some Closing" using freeze_close_exact [OF assms(1,2,4)] by blast
  obtain r1 s1 where r1: "st_compare_payment S c e' q s' = (r1, s1)" by (cases "st_compare_payment S c e' q s'")
  obtain r2 s2 where r2: "st_update_balance S c q s' = (r2, s2)" by (cases "st_update_balance S c q s'")
  show "\<not> is_ok (fst (st_compare_payment S c e' q s')) \<or> pay_signature e' = []"
    using effect [of s' "ComparePayment c e' q" r1 s1 c] valid_payment [of "ComparePayment c e' q" s'] ok' assms(3) r1 st
    by (cases "pay_signature e' = []") (auto simp: moves_def split: if_splits)
  show "\<not> is_ok (fst (st_update_balance S c q s'))"
    using effect [of s' "UpdateBalance c q" r2 s2 c] valid_payment [of "UpdateBalance c q" s'] ok' assms(3) r2 st
    by (auto simp: moves_def split: if_splits)
qed

end

end
