(* ===== verification/MemoryStorage.thy ===== *)
theory MemoryStorage
  imports Storage "HOL-Library.AList"
begin

text \<open>
  The in-memory implementation of the receiver's storage, \<open>MemoryStorage\<close> in
  \<open>crates/cdk-spilman/src/configurable_host.rs\<close>.

  A hash map is a partial function, or an association list where the code iterates over it.
\<close>

section \<open>State and operations\<close>

record MemoryStorage =
  ms_close_journals :: "channel_id \<rightharpoonup> string"
  ms_funding :: "channel_id \<rightharpoonup> ChannelFunding"
  ms_balance :: "channel_id \<rightharpoonup> PaymentProof"
  ms_usage :: "channel_id \<rightharpoonup> usage_map"
  ms_closing :: "channel_id \<rightharpoonup> ClosingData"
  ms_closed :: "channel_id \<rightharpoonup> ClosedDataView"
  ms_keysets :: "((string \<times> key_id) \<times> KeysetCacheEntry) list"

definition memory_new :: MemoryStorage where
  "memory_new =
     \<lparr>ms_close_journals = Map.empty, ms_funding = Map.empty, ms_balance = Map.empty, ms_usage = Map.empty,
      ms_closing = Map.empty, ms_closed = Map.empty, ms_keysets = []\<rparr>"

definition ms_get_state :: "MemoryStorage \<Rightarrow> channel_id \<Rightarrow> (string, ChannelState option) result" where
  "ms_get_state m c =
     (if ms_closed m c \<noteq> None then Ok (Some Closed)
      else if ms_closing m c \<noteq> None then Ok (Some Closing)
      else if ms_funding m c \<noteq> None then Ok (Some Open)
      else Ok None)"

definition ms_get_close_journal :: "MemoryStorage \<Rightarrow> channel_id \<Rightarrow> (string, string option) result" where
  "ms_get_close_journal m c = Ok (ms_close_journals m c)"

definition ms_compare_payment :: "channel_id \<Rightarrow> PaymentProof \<Rightarrow> PaymentProof \<Rightarrow> MemoryStorage update" where
  "ms_compare_payment c expected payment m =
     (case ms_get_state m c of
        Err e \<Rightarrow> (Err e, m)
      | Ok st \<Rightarrow>
          if st \<noteq> Some Open \<or> pay_balance payment \<le> pay_balance expected
          then (Err ''payment state conflict'', m)
          else
            (case ms_balance m c of
               None \<Rightarrow> (Err ''missing payment'', m)
             | Some current \<Rightarrow>
                 if pay_balance current \<noteq> pay_balance expected \<or> pay_signature current \<noteq> pay_signature expected
                 then (Err ''payment snapshot conflict'', m)
                 else (Ok (), m\<lparr>ms_balance := (ms_balance m)(c \<mapsto> payment)\<rparr>)))"

definition ms_freeze_close :: "channel_id \<Rightarrow> PaymentProof \<Rightarrow> ClosingData \<Rightarrow> string \<Rightarrow> MemoryStorage update" where
  "ms_freeze_close c expected closing journal m =
     (if cd_balance closing \<noteq> pay_balance expected \<or> cd_signature closing \<noteq> pay_signature expected
      then (Err ''close authorization mismatch'', m)
      else
        (case ms_balance m c of
           None \<Rightarrow> (Err ''missing payment'', m)
         | Some payment \<Rightarrow>
             if ms_funding m c = None \<or> ms_get_state m c \<noteq> Ok (Some Open) \<or>
                pay_balance payment \<noteq> pay_balance expected \<or> pay_signature payment \<noteq> pay_signature expected \<or>
                ms_get_close_journal m c \<noteq> Ok None
             then (Err ''close payment or state conflict'', m)
             else (Ok (), m\<lparr>ms_closing := (ms_closing m)(c \<mapsto> closing),
                            ms_close_journals := (ms_close_journals m)(c \<mapsto> journal)\<rparr>)))"

definition ms_advance_close ::
  "channel_id \<Rightarrow> string \<Rightarrow> string \<Rightarrow> ClosedDataView option \<Rightarrow> MemoryStorage update" where
  "ms_advance_close c expected journal completed m =
     (if ms_close_journals m c \<noteq> Some expected \<or> ms_get_state m c \<noteq> Ok (Some Closing)
      then (Err ''close journal conflict'', m)
      else
        (let m1 = (case completed of
                     None \<Rightarrow> m
                   | Some data \<Rightarrow> m\<lparr>ms_closed := (ms_closed m)(c \<mapsto> data), ms_closing := (ms_closing m)(c := None)\<rparr>)
         in (Ok (), m1\<lparr>ms_close_journals := (ms_close_journals m1)(c \<mapsto> journal)\<rparr>)))"

definition ms_save_funding :: "channel_id \<Rightarrow> ChannelFunding \<Rightarrow> MemoryStorage update" where
  "ms_save_funding c funding m =
     (Ok (), if ms_funding m c = None then m\<lparr>ms_funding := (ms_funding m)(c \<mapsto> funding)\<rparr> else m)"

definition ms_update_balance :: "channel_id \<Rightarrow> PaymentProof \<Rightarrow> MemoryStorage update" where
  "ms_update_balance c payment m =
     (if ms_get_state m c \<noteq> Ok (Some Open) then (Err ''channel is not open'', m)
      else
        (let should_update = (case ms_balance m c of None \<Rightarrow> True | Some b \<Rightarrow> pay_balance payment > pay_balance b)
         in (Ok (), if should_update then m\<lparr>ms_balance := (ms_balance m)(c \<mapsto> payment)\<rparr> else m)))"

definition ms_get_usage :: "MemoryStorage \<Rightarrow> channel_id \<Rightarrow> usage_map option" where
  "ms_get_usage m c = (case ms_usage m c of None \<Rightarrow> None | Some u \<Rightarrow> if u = [] then None else Some u)"

text \<open>The counter of one variable is increased in place, or created.\<close>

definition add_usage :: "usage_map \<Rightarrow> string \<times> u64 \<Rightarrow> usage_map" where
  "add_usage u d =
     (case d of (var, delta) \<Rightarrow>
        AList.update var ((case map_of u var of None \<Rightarrow> 0 | Some n \<Rightarrow> n) + delta) u)"

definition ms_increment_usage :: "channel_id \<Rightarrow> usage_map \<Rightarrow> MemoryStorage update" where
  "ms_increment_usage c increments m =
     (let u = (case ms_usage m c of None \<Rightarrow> [] | Some u \<Rightarrow> u)
      in (Ok (), m\<lparr>ms_usage := (ms_usage m)(c \<mapsto> foldl add_usage u increments)\<rparr>))"

definition ms_mark_closing :: "channel_id \<Rightarrow> ClosingData \<Rightarrow> MemoryStorage update" where
  "ms_mark_closing c closing m =
     (if ms_get_close_journal m c \<noteq> Ok None then (Err ''channel has an application close journal'', m)
      else if ms_closed m c \<noteq> None then (Err ''channel already closed'', m)
      else (Ok (), m\<lparr>ms_closing := (ms_closing m)(c \<mapsto> closing)\<rparr>))"

definition ms_mark_closed :: "channel_id \<Rightarrow> ClosedDataView \<Rightarrow> MemoryStorage update" where
  "ms_mark_closed c data m =
     (if ms_get_close_journal m c \<noteq> Ok None then (Err ''channel has an application close journal'', m)
      else if ms_closed m c \<noteq> None then (Err ''channel already closed'', m)
      else (Ok (), m\<lparr>ms_closed := (ms_closed m)(c \<mapsto> data), ms_closing := (ms_closing m)(c := None)\<rparr>))"

definition ms_get_keyset :: "MemoryStorage \<Rightarrow> string \<Rightarrow> key_id \<Rightarrow> KeysetCacheEntry option" where
  "ms_get_keyset m mint_url kid = map_of (ms_keysets m) (mint_url, kid)"

definition ms_set_keyset :: "string \<Rightarrow> key_id \<Rightarrow> KeysetCacheEntry \<Rightarrow> MemoryStorage update" where
  "ms_set_keyset mint_url kid entry m =
     (Ok (), m\<lparr>ms_keysets := AList.update (mint_url, kid) entry (ms_keysets m)\<rparr>)"

definition ms_get_active_keyset_ids :: "MemoryStorage \<Rightarrow> string \<Rightarrow> currency_unit \<Rightarrow> key_id list" where
  "ms_get_active_keyset_ids m mint_url u =
     map (\<lambda>((_, kid), _). kid)
       (filter (\<lambda>((mt, _), entry). mt = mint_url \<and> kc_unit entry = u \<and> kc_active entry) (ms_keysets m))"

definition ms_list_keysets_for_unit ::
  "MemoryStorage \<Rightarrow> string \<Rightarrow> currency_unit \<Rightarrow> (key_id \<times> KeysetCacheEntry) list" where
  "ms_list_keysets_for_unit m mint_url u =
     map (\<lambda>((_, kid), entry). (kid, entry))
       (filter (\<lambda>((mt, _), entry). mt = mint_url \<and> kc_unit entry = u) (ms_keysets m))"

text \<open>The nested map of the code as a function: the list under a mint and a unit, empty where the map has no entry.\<close>

definition ms_get_mints_units_keysets :: "codec \<Rightarrow> MemoryStorage \<Rightarrow> string \<Rightarrow> string \<Rightarrow> string list" where
  "ms_get_mints_units_keysets J m mint_url u =
     map (\<lambda>((_, kid), _). id_to_string J kid)
       (filter (\<lambda>((mt, _), entry). mt = mint_url \<and> kc_unit entry = u \<and> kc_active entry) (ms_keysets m))"

definition ms_get_active_units :: "MemoryStorage \<Rightarrow> string set" where
  "ms_get_active_units m = kc_unit ` set (filter kc_active (map snd (ms_keysets m)))"

definition memory_storage :: "codec \<Rightarrow> MemoryStorage SpilmanStorage" where
  "memory_storage J =
     \<lparr>st_compare_payment = ms_compare_payment, st_get_close_journal = ms_get_close_journal,
      st_freeze_close = ms_freeze_close, st_advance_close = ms_advance_close, st_get_funding = ms_funding,
      st_save_funding = ms_save_funding, st_get_balance = ms_balance, st_update_balance = ms_update_balance,
      st_get_usage = ms_get_usage, st_increment_usage = ms_increment_usage, st_get_state = ms_get_state,
      st_mark_closing = ms_mark_closing, st_get_closing_data = ms_closing, st_mark_closed = ms_mark_closed,
      st_get_closed_data = ms_closed, st_get_keyset = ms_get_keyset, st_set_keyset = ms_set_keyset,
      st_get_active_keyset_ids = ms_get_active_keyset_ids, st_list_keysets_for_unit = ms_list_keysets_for_unit,
      st_get_mints_units_keysets = ms_get_mints_units_keysets J, st_get_active_units = ms_get_active_units\<rparr>"

section \<open>The contract holds\<close>

definition memory_ok :: "MemoryStorage \<Rightarrow> bool" where
  "memory_ok m \<longleftrightarrow> (\<forall>c. ms_closing m c \<noteq> None \<longrightarrow> ms_closed m c = None)"

lemma memory_storage_simps [simp]:
  "st_compare_payment (memory_storage J) = ms_compare_payment"
  "st_get_close_journal (memory_storage J) = ms_get_close_journal"
  "st_freeze_close (memory_storage J) = ms_freeze_close" "st_advance_close (memory_storage J) = ms_advance_close"
  "st_get_funding (memory_storage J) = ms_funding" "st_save_funding (memory_storage J) = ms_save_funding"
  "st_get_balance (memory_storage J) = ms_balance" "st_update_balance (memory_storage J) = ms_update_balance"
  "st_get_usage (memory_storage J) = ms_get_usage" "st_increment_usage (memory_storage J) = ms_increment_usage"
  "st_get_state (memory_storage J) = ms_get_state" "st_mark_closing (memory_storage J) = ms_mark_closing"
  "st_get_closing_data (memory_storage J) = ms_closing" "st_mark_closed (memory_storage J) = ms_mark_closed"
  "st_get_closed_data (memory_storage J) = ms_closed" "st_get_keyset (memory_storage J) = ms_get_keyset"
  "st_set_keyset (memory_storage J) = ms_set_keyset"
  "st_get_active_keyset_ids (memory_storage J) = ms_get_active_keyset_ids"
  "st_list_keysets_for_unit (memory_storage J) = ms_list_keysets_for_unit"
  "st_get_active_units (memory_storage J) = ms_get_active_units"
  by (simp_all add: memory_storage_def)

definition ms_state :: "MemoryStorage \<Rightarrow> channel_id \<Rightarrow> ChannelState option" where
  "ms_state m c =
     (if ms_closed m c \<noteq> None then Some Closed else if ms_closing m c \<noteq> None then Some Closing
      else if ms_funding m c \<noteq> None then Some Open else None)"

lemma ms_get_state_Ok: "ms_get_state m c = Ok (ms_state m c)"
  by (simp add: ms_get_state_def ms_state_def)

lemma memory_view:
  "view (memory_storage J) m c =
     \<lparr>v_funding = ms_funding m c, v_state = ms_state m c, v_balance = ms_balance m c, v_closing = ms_closing m c,
      v_closed = ms_closed m c, v_journal = ms_close_journals m c\<rparr>"
  by (simp add: view_def ms_get_state_Ok ms_get_close_journal_def)

lemma payment_eqI: "pay_balance (a :: PaymentProof) = pay_balance b \<Longrightarrow> pay_signature a = pay_signature b \<Longrightarrow> a = b"
  by simp

text \<open>The operations without their messages: the condition for success, and the new state.\<close>

fun ms_next :: "storage_op \<Rightarrow> MemoryStorage \<Rightarrow> MemoryStorage option" where
  "ms_next (SaveFunding c f) m =
     Some (if ms_funding m c = None then m\<lparr>ms_funding := (ms_funding m)(c \<mapsto> f)\<rparr> else m)"
| "ms_next (UpdateBalance c p) m =
     (if ms_state m c = Some Open
      then Some (if (\<forall>b. ms_balance m c = Some b \<longrightarrow> pay_balance b < pay_balance p)
                 then m\<lparr>ms_balance := (ms_balance m)(c \<mapsto> p)\<rparr> else m) else None)"
| "ms_next (ComparePayment c e p) m =
     (if ms_state m c = Some Open \<and> ms_balance m c = Some e \<and> pay_balance e < pay_balance p
      then Some (m\<lparr>ms_balance := (ms_balance m)(c \<mapsto> p)\<rparr>) else None)"
| "ms_next (FreezeClose c e cd j) m =
     (if cd_balance cd = pay_balance e \<and> cd_signature cd = pay_signature e \<and> ms_state m c = Some Open \<and>
         ms_balance m c = Some e \<and> ms_close_journals m c = None
      then Some (m\<lparr>ms_closing := (ms_closing m)(c \<mapsto> cd), ms_close_journals := (ms_close_journals m)(c \<mapsto> j)\<rparr>) else None)"
| "ms_next (AdvanceClose c e j d) m =
     (if ms_close_journals m c = Some e \<and> ms_state m c = Some Closing
      then Some (case d of
                   None \<Rightarrow> m\<lparr>ms_close_journals := (ms_close_journals m)(c \<mapsto> j)\<rparr>
                 | Some data \<Rightarrow> m\<lparr>ms_closed := (ms_closed m)(c \<mapsto> data), ms_closing := (ms_closing m)(c := None),
                                 ms_close_journals := (ms_close_journals m)(c \<mapsto> j)\<rparr>) else None)"
| "ms_next (MarkClosing c cd) m =
     (if ms_state m c \<noteq> Some Closed \<and> ms_close_journals m c = None
      then Some (m\<lparr>ms_closing := (ms_closing m)(c \<mapsto> cd)\<rparr>) else None)"
| "ms_next (MarkClosed c d) m =
     (if ms_state m c \<noteq> Some Closed \<and> ms_close_journals m c = None
      then Some (m\<lparr>ms_closed := (ms_closed m)(c \<mapsto> d), ms_closing := (ms_closing m)(c := None)\<rparr>) else None)"
| "ms_next (IncrementUsage c u) m = Some (snd (ms_increment_usage c u m))"
| "ms_next (SetKeyset mint_url kid e) m = Some (snd (ms_set_keyset mint_url kid e m))"

lemma ms_state_simps:
  "ms_state m c = Some Closed \<longleftrightarrow> ms_closed m c \<noteq> None"
  "ms_state m c = Some Closing \<longleftrightarrow> ms_closed m c = None \<and> ms_closing m c \<noteq> None"
  "ms_state m c = Some Open \<longleftrightarrow> ms_closed m c = None \<and> ms_closing m c = None \<and> ms_funding m c \<noteq> None"
  by (simp_all add: ms_state_def)

lemma memory_run:
  "is_ok (fst (run_op (memory_storage J) op m)) \<longleftrightarrow> ms_next op m \<noteq> None"
  "snd (run_op (memory_storage J) op m) = (case ms_next op m of None \<Rightarrow> m | Some m' \<Rightarrow> m')"
proof -
  have "is_ok (fst (run_op (memory_storage J) op m)) = (ms_next op m \<noteq> None) \<and>
    snd (run_op (memory_storage J) op m) = (case ms_next op m of None \<Rightarrow> m | Some m' \<Rightarrow> m')"
  proof (cases op)
    case (SaveFunding c f)
    then show ?thesis by (simp add: ms_save_funding_def)
  next
    case (UpdateBalance c p)
    then show ?thesis by (auto simp: ms_update_balance_def ms_get_state_Ok Let_def split: option.splits)
  next
    case (ComparePayment c e p)
    then show ?thesis
      by (cases "ms_balance m c") (auto simp: ms_compare_payment_def ms_get_state_Ok not_le intro: payment_eqI)
  next
    case (FreezeClose c e cd j)
    then show ?thesis
      by (cases "ms_balance m c")
        (auto simp: ms_freeze_close_def ms_get_state_Ok ms_get_close_journal_def ms_state_simps intro: payment_eqI)
  next
    case (AdvanceClose c e j d)
    then show ?thesis
      by (cases d) (auto simp: ms_advance_close_def ms_get_state_Ok Let_def)
  next
    case (MarkClosing c cd)
    then show ?thesis by (auto simp: ms_mark_closing_def ms_get_close_journal_def ms_state_simps)
  next
    case (MarkClosed c d)
    then show ?thesis by (auto simp: ms_mark_closed_def ms_get_close_journal_def ms_state_simps)
  next
    case (IncrementUsage c u)
    then show ?thesis by (simp add: ms_increment_usage_def Let_def)
  next
    case (SetKeyset mint_url kid e)
    then show ?thesis by (simp add: ms_set_keyset_def)
  qed
  then show "is_ok (fst (run_op (memory_storage J) op m)) \<longleftrightarrow> ms_next op m \<noteq> None"
    "snd (run_op (memory_storage J) op m) = (case ms_next op m of None \<Rightarrow> m | Some m' \<Rightarrow> m')"
    by simp_all
qed

lemma memory_ok_simps [simp]:
  "memory_ok (m\<lparr>ms_funding := f\<rparr>) = memory_ok m" "memory_ok (m\<lparr>ms_balance := b\<rparr>) = memory_ok m"
  "memory_ok (m\<lparr>ms_close_journals := js\<rparr>) = memory_ok m" "memory_ok (m\<lparr>ms_usage := us\<rparr>) = memory_ok m"
  "memory_ok (m\<lparr>ms_keysets := ks\<rparr>) = memory_ok m"
  by (simp_all add: memory_ok_def)

lemma memory_ok_closing: "memory_ok m \<Longrightarrow> ms_closed m c = None \<Longrightarrow> memory_ok (m\<lparr>ms_closing := (ms_closing m)(c \<mapsto> cd)\<rparr>)"
  and memory_ok_closed: "memory_ok m \<Longrightarrow>
    memory_ok (m\<lparr>ms_closed := (ms_closed m)(c \<mapsto> d), ms_closing := (ms_closing m)(c := None)\<rparr>)"
  by (simp_all add: memory_ok_def)

lemma ms_next_ok:
  assumes "memory_ok m" "ms_next op m = Some m'"
  shows "memory_ok m'"
proof (cases op)
  case (FreezeClose c e cd j)
  then show ?thesis using assms memory_ok_closing [OF assms(1), of c cd] by (auto simp: ms_state_simps split: if_splits)
next
  case (AdvanceClose c e j d)
  then show ?thesis using assms memory_ok_closed [OF assms(1)] by (auto split: if_splits option.splits)
next
  case (MarkClosing c cd)
  then show ?thesis using assms memory_ok_closing [OF assms(1), of c cd] by (auto simp: ms_state_simps split: if_splits)
next
  case (MarkClosed c d)
  then show ?thesis using assms memory_ok_closed [OF assms(1)] by (auto split: if_splits)
next
  case (SaveFunding c f)
  then show ?thesis using assms by (auto split: if_splits)
next
  case (UpdateBalance c p)
  then show ?thesis using assms by (auto split: if_splits)
next
  case (ComparePayment c e p)
  then show ?thesis using assms by (auto split: if_splits)
next
  case (IncrementUsage c u)
  then show ?thesis using assms by (auto simp: ms_increment_usage_def Let_def)
next
  case (SetKeyset mint_url kid e)
  then show ?thesis using assms by (auto simp: ms_set_keyset_def)
qed

lemma memory_view_cong:
  assumes "ms_funding m' c = ms_funding m c" "ms_balance m' c = ms_balance m c" "ms_closing m' c = ms_closing m c"
    "ms_closed m' c = ms_closed m c" "ms_close_journals m' c = ms_close_journals m c"
  shows "view (memory_storage J) m' c = view (memory_storage J) m c"
  using assms by (simp add: memory_view ms_state_def)

lemma ms_next_other:
  assumes "ms_next op m = Some m'" "op_channel op \<noteq> Some c"
  shows "view (memory_storage J) m' c = view (memory_storage J) m c"
proof (cases op)
  case (AdvanceClose c' e j d)
  then show ?thesis using assms by (cases d) (auto intro!: memory_view_cong split: if_splits)
qed (use assms in \<open>auto simp: ms_increment_usage_def ms_set_keyset_def Let_def intro!: memory_view_cong split: if_splits\<close>)

lemma ms_next_spec:
  assumes "memory_ok m" "op_channel op = Some c"
  shows "spec_step op (view (memory_storage J) m c) = map_option (\<lambda>m'. view (memory_storage J) m' c) (ms_next op m)"
proof -
  have ok: "ms_closing m c = None \<or> ms_closed m c = None" using assms(1) by (auto simp: memory_ok_def)
  show ?thesis
  proof (cases op)
    case (SaveFunding c' f)
    then show ?thesis using assms(2) by (cases "ms_funding m c") (simp_all add: memory_view ms_state_def)
  next
    case (UpdateBalance c' p)
    then show ?thesis using assms(2) by (cases "ms_balance m c") (simp_all add: memory_view ms_state_def)
  next
    case (AdvanceClose c' e j d)
    then show ?thesis using assms(2) by (cases d) (simp_all add: memory_view ms_state_def)
  next
    case (IncrementUsage c' u)
    then show ?thesis using assms(2) by (simp add: memory_view ms_state_def ms_increment_usage_def Let_def)
  next
    case (FreezeClose c' e cd j)
    then show ?thesis using assms(2) ok by (simp add: memory_view ms_state_def)
  next
    case (MarkClosing c' cd)
    then show ?thesis using assms(2) ok by (simp add: memory_view ms_state_def)
  qed (use assms(2) ok in \<open>simp_all add: memory_view ms_state_def\<close>)
qed

lemma memory_effect:
  assumes "memory_ok m" "run_op (memory_storage J) op m = (r, m')"
  shows "if is_ok r then moves op c (view (memory_storage J) m c) (view (memory_storage J) m' c)
    else view (memory_storage J) m' c = view (memory_storage J) m c"
  using memory_run [of J op m] assms ms_next_other [of op m m' c J] ms_next_spec [OF assms(1), of op c J]
  by (auto simp: moves_def split: option.splits)

lemma memory_keeps_ok:
  assumes "memory_ok m" "run_op (memory_storage J) op m = (r, m')"
  shows "memory_ok m'"
  using memory_run(2) [of J op m] assms ms_next_ok [OF assms(1), of op m'] by (auto split: option.splits)

interpretation mem: channel_store "memory_storage J" memory_ok "\<lambda>_. valid_op" for J
  by unfold_locales
    (simp add: ms_get_state_Ok, assumption, rule memory_keeps_ok, assumption+, rule memory_effect, assumption+)

end
