(* ===== verification/SqliteStorage.thy ===== *)
theory SqliteStorage
  imports MemoryStorage
begin

text \<open>
  The SQLite implementation of the receiver's storage, \<open>SqliteStorage\<close> in
  \<open>crates/cdk-spilman/src/configurable_host.rs\<close>.

  A table is a partial function from its primary key, or an association list where a query returns
  several rows.  A statement changes a row exactly when its \<open>WHERE\<close> clause holds, and the number of
  changed rows is then one.  Integer columns hold signed 64-bit integers; a sum outside that range is
  stored as a floating-point number, as SQLite does, and can then no longer be read as an integer.
\<close>

section \<open>Tables\<close>

record 'j channel_row =
  funding_json :: 'j
  row_balance :: int
  row_signature :: string
  row_state :: string
  closing_json :: "'j option"
  closed_json :: "'j option"

datatype sql_number = SqlInt int | SqlReal

record 'j SqliteStorage =
  channels :: "channel_id \<rightharpoonup> 'j channel_row"
  close_journals :: "channel_id \<rightharpoonup> string"
  usage_rows :: "((channel_id \<times> string) \<times> sql_number) list"
  keyset_rows :: "((string \<times> string) \<times> 'j) list"
  funding_cache :: "channel_id \<rightharpoonup> ChannelFunding"

text \<open>The derived encoders and decoders of the stored values.\<close>

record 'j row_codec =
  print_funding :: "ChannelFunding \<Rightarrow> 'j"
  parse_funding :: "'j \<Rightarrow> ChannelFunding option"
  print_closing :: "ClosingData \<Rightarrow> 'j"
  parse_closing :: "'j \<Rightarrow> ClosingData option"
  print_closed :: "ClosedDataView \<Rightarrow> 'j"
  parse_closed :: "'j \<Rightarrow> ClosedDataView option"
  print_entry :: "KeysetCacheEntry \<Rightarrow> 'j"
  parse_entry :: "'j \<Rightarrow> KeysetCacheEntry option"

definition row_codec_faithful :: "'j row_codec \<Rightarrow> bool" where
  "row_codec_faithful K \<longleftrightarrow>
     (\<forall>x. parse_funding K (print_funding K x) = Some x) \<and> (\<forall>x. parse_closing K (print_closing K x) = Some x) \<and>
     (\<forall>x. parse_closed K (print_closed K x) = Some x) \<and> (\<forall>x. parse_entry K (print_entry K x) = Some x)"

definition sqlite_init_schema :: "'j SqliteStorage" where
  "sqlite_init_schema =
     \<lparr>channels = Map.empty, close_journals = Map.empty, usage_rows = [], keyset_rows = [], funding_cache = Map.empty\<rparr>"

text \<open>Conversions between unsigned and signed 64-bit integers.\<close>

definition i64_try_from :: "u64 \<Rightarrow> int option" where
  "i64_try_from w = (if w < 0x8000000000000000 then Some (uint w) else None)"

definition as_i64 :: "u64 \<Rightarrow> int" where
  "as_i64 w = sint w"

definition i64_as_u64 :: "int \<Rightarrow> u64" where
  "i64_as_u64 i = word_of_int i"

fun sql_add :: "sql_number \<Rightarrow> sql_number \<Rightarrow> sql_number" where
  "sql_add (SqlInt a) (SqlInt b) =
     (if - (2 ^ 63) \<le> a + b \<and> a + b < 2 ^ 63 then SqlInt (a + b) else SqlReal)"
| "sql_add _ _ = SqlReal"

section \<open>Operations\<close>

definition sq_compare_payment :: "channel_id \<Rightarrow> PaymentProof \<Rightarrow> PaymentProof \<Rightarrow> 'j SqliteStorage update" where
  "sq_compare_payment c expected payment db =
     (if pay_balance payment \<le> pay_balance expected then (Err ''payment state conflict'', db)
      else
        (case (i64_try_from (pay_balance payment), i64_try_from (pay_balance expected)) of
           (Some balance, Some previous) \<Rightarrow>
             (case channels db c of
                Some row \<Rightarrow>
                  if row_state row = ''Open'' \<and> row_balance row = previous \<and> row_signature row = pay_signature expected
                  then (Ok (), db\<lparr>channels := (channels db)(c \<mapsto>
                          row\<lparr>row_balance := balance, row_signature := pay_signature payment\<rparr>)\<rparr>)
                  else (Err ''payment snapshot or state conflict'', db)
              | None \<Rightarrow> (Err ''payment snapshot or state conflict'', db))
         | _ \<Rightarrow> (Err ''payment overflow'', db)))"

definition sq_get_close_journal :: "'j SqliteStorage \<Rightarrow> channel_id \<Rightarrow> (string, string option) result" where
  "sq_get_close_journal db c = Ok (close_journals db c)"

text \<open>The transaction is dropped, and with it every change, when a statement fails before the commit.\<close>

definition sq_freeze_close ::
  "'j row_codec \<Rightarrow> channel_id \<Rightarrow> PaymentProof \<Rightarrow> ClosingData \<Rightarrow> string \<Rightarrow> 'j SqliteStorage update" where
  "sq_freeze_close K c expected closing journal db =
     (if cd_balance closing \<noteq> pay_balance expected \<or> cd_signature closing \<noteq> pay_signature expected
      then (Err ''close authorization mismatch'', db)
      else
        (case i64_try_from (pay_balance expected) of
           None \<Rightarrow> (Err ''balance overflow'', db)
         | Some balance \<Rightarrow>
             (case channels db c of
                Some row \<Rightarrow>
                  if row_state row = ''Open'' \<and> row_balance row = balance \<and> row_signature row = pay_signature expected
                  then
                    (let tx = db\<lparr>channels := (channels db)(c \<mapsto>
                           row\<lparr>row_state := ''Closing'', closing_json := Some (print_closing K closing)\<rparr>)\<rparr>
                     in if close_journals tx c \<noteq> None
                        then (Err ''UNIQUE constraint failed: spilman_close_journals.channel_id'', db)
                        else (Ok (), tx\<lparr>close_journals := (close_journals tx)(c \<mapsto> journal)\<rparr>))
                  else (Err ''close payment or state conflict'', db)
              | None \<Rightarrow> (Err ''close payment or state conflict'', db))))"

definition has_state :: "'j SqliteStorage \<Rightarrow> channel_id \<Rightarrow> string \<Rightarrow> bool" where
  "has_state db c st = (case channels db c of None \<Rightarrow> False | Some row \<Rightarrow> row_state row = st)"

definition sq_advance_close ::
  "'j row_codec \<Rightarrow> channel_id \<Rightarrow> string \<Rightarrow> string \<Rightarrow> ClosedDataView option \<Rightarrow> 'j SqliteStorage update" where
  "sq_advance_close K c expected journal completed db =
     (if close_journals db c = Some expected \<and> has_state db c ''Closing''
      then
        (let tx = db\<lparr>close_journals := (close_journals db)(c \<mapsto> journal)\<rparr> in
         (case completed of
            None \<Rightarrow> (Ok (), tx)
          | Some data \<Rightarrow>
              (case channels tx c of
                 Some row \<Rightarrow>
                   if row_state row = ''Closing''
                   then (Ok (), tx\<lparr>channels := (channels tx)(c \<mapsto>
                           row\<lparr>row_state := ''Closed'', closed_json := Some (print_closed K data), closing_json := None\<rparr>)\<rparr>)
                   else (Err ''close state conflict'', db)
               | None \<Rightarrow> (Err ''close state conflict'', db))))
      else (Err ''close journal conflict'', db))"

text \<open>Reading the funding fills the cache.\<close>

definition sq_get_funding ::
  "'j row_codec \<Rightarrow> channel_id \<Rightarrow> 'j SqliteStorage \<Rightarrow> ChannelFunding option \<times> 'j SqliteStorage" where
  "sq_get_funding K c db =
     (case funding_cache db c of
        Some f \<Rightarrow> (Some f, db)
      | None \<Rightarrow>
          (case (case channels db c of None \<Rightarrow> None | Some row \<Rightarrow> parse_funding K (funding_json row)) of
             Some f \<Rightarrow> (Some f, db\<lparr>funding_cache := (funding_cache db)(c \<mapsto> f)\<rparr>)
           | None \<Rightarrow> (None, db)))"

definition sq_read_funding :: "'j row_codec \<Rightarrow> 'j SqliteStorage \<Rightarrow> channel_id \<Rightarrow> ChannelFunding option" where
  "sq_read_funding K db c = fst (sq_get_funding K c db)"

definition new_row :: "'j row_codec \<Rightarrow> ChannelFunding \<Rightarrow> 'j channel_row" where
  "new_row K funding =
     \<lparr>funding_json = print_funding K funding, row_balance = 0, row_signature = [], row_state = ''Open'',
      closing_json = None, closed_json = None\<rparr>"

definition sq_save_funding :: "'j row_codec \<Rightarrow> channel_id \<Rightarrow> ChannelFunding \<Rightarrow> 'j SqliteStorage update" where
  "sq_save_funding K c funding db =
     (Ok (), db\<lparr>channels := (if channels db c = None then (channels db)(c \<mapsto> new_row K funding) else channels db),
                funding_cache := (if funding_cache db c = None then (funding_cache db)(c \<mapsto> funding) else funding_cache db)\<rparr>)"

definition sq_get_balance :: "'j SqliteStorage \<Rightarrow> channel_id \<Rightarrow> PaymentProof option" where
  "sq_get_balance db c =
     (case channels db c of
        None \<Rightarrow> None
      | Some row \<Rightarrow>
          if row_signature row \<noteq> []
          then Some \<lparr>pay_balance = i64_as_u64 (row_balance row), pay_signature = row_signature row\<rparr> else None)"

definition sq_update_balance :: "channel_id \<Rightarrow> PaymentProof \<Rightarrow> 'j SqliteStorage update" where
  "sq_update_balance c payment db =
     (case i64_try_from (pay_balance payment) of
        None \<Rightarrow> (Err ''payment overflow'', db)
      | Some balance \<Rightarrow>
          (case channels db c of
             None \<Rightarrow> (Err ''Query returned no rows'', db)
           | Some row \<Rightarrow>
               if row_state row \<noteq> ''Open'' then (Err ''channel is not open'', db)
               else (Ok (), if row_state row = ''Open'' \<and> (row_balance row < balance \<or> row_signature row = [])
                            then db\<lparr>channels := (channels db)(c \<mapsto>
                                   row\<lparr>row_balance := balance, row_signature := pay_signature payment\<rparr>)\<rparr>
                            else db)))"

fun sql_u64 :: "sql_number \<Rightarrow> u64 option" where
  "sql_u64 (SqlInt i) = Some (i64_as_u64 i)"
| "sql_u64 SqlReal = None"

definition sq_get_usage :: "'j SqliteStorage \<Rightarrow> channel_id \<Rightarrow> usage_map option" where
  "sq_get_usage db c =
     (let u = List.map_filter (\<lambda>((c', var), n). if c' = c then map_option (\<lambda>w. (var, w)) (sql_u64 n) else None) (usage_rows db)
      in if u = [] then None else Some u)"

definition sq_add_usage ::
  "channel_id \<Rightarrow> ((channel_id \<times> string) \<times> sql_number) list \<Rightarrow> string \<times> u64 \<Rightarrow> ((channel_id \<times> string) \<times> sql_number) list" where
  "sq_add_usage c rows d =
     (case d of (var, delta) \<Rightarrow>
        AList.update (c, var)
          (case map_of rows (c, var) of None \<Rightarrow> SqlInt (as_i64 delta) | Some n \<Rightarrow> sql_add n (SqlInt (as_i64 delta))) rows)"

definition sq_increment_usage :: "channel_id \<Rightarrow> usage_map \<Rightarrow> 'j SqliteStorage update" where
  "sq_increment_usage c increments db =
     (Ok (), db\<lparr>usage_rows := foldl (sq_add_usage c) (usage_rows db) increments\<rparr>)"

definition sq_get_state :: "'j SqliteStorage \<Rightarrow> channel_id \<Rightarrow> (string, ChannelState option) result" where
  "sq_get_state db c =
     (case channels db c of
        None \<Rightarrow> Ok None
      | Some row \<Rightarrow>
          if row_state row = ''Open'' then Ok (Some Open)
          else if row_state row = ''Closing'' then Ok (Some Closing)
          else if row_state row = ''Closed'' then Ok (Some Closed)
          else Err ''invalid stored receiver channel state'')"

definition sq_mark_closing :: "'j row_codec \<Rightarrow> channel_id \<Rightarrow> ClosingData \<Rightarrow> 'j SqliteStorage update" where
  "sq_mark_closing K c closing db =
     (case channels db c of
        Some row \<Rightarrow>
          if row_state row \<noteq> ''Closed'' \<and> close_journals db c = None
          then (Ok (), db\<lparr>channels := (channels db)(c \<mapsto>
                  row\<lparr>row_state := ''Closing'', closing_json := Some (print_closing K closing)\<rparr>)\<rparr>)
          else (Err ''channel not found or already closed'', db)
      | None \<Rightarrow> (Err ''channel not found or already closed'', db))"

definition sq_get_closing_data :: "'j row_codec \<Rightarrow> 'j SqliteStorage \<Rightarrow> channel_id \<Rightarrow> ClosingData option" where
  "sq_get_closing_data K db c =
     (case channels db c of
        None \<Rightarrow> None
      | Some row \<Rightarrow>
          if row_state row = ''Closing''
          then (case closing_json row of None \<Rightarrow> None | Some j \<Rightarrow> parse_closing K j) else None)"

definition sq_mark_closed :: "'j row_codec \<Rightarrow> channel_id \<Rightarrow> ClosedDataView \<Rightarrow> 'j SqliteStorage update" where
  "sq_mark_closed K c data db =
     (case channels db c of
        Some row \<Rightarrow>
          if row_state row \<noteq> ''Closed'' \<and> close_journals db c = None
          then (Ok (), db\<lparr>channels := (channels db)(c \<mapsto>
                  row\<lparr>row_state := ''Closed'', closed_json := Some (print_closed K data), closing_json := None\<rparr>)\<rparr>)
          else (Err ''channel already closed or not found'', db)
      | None \<Rightarrow> (Err ''channel already closed or not found'', db))"

definition sq_get_closed_data :: "'j row_codec \<Rightarrow> 'j SqliteStorage \<Rightarrow> channel_id \<Rightarrow> ClosedDataView option" where
  "sq_get_closed_data K db c =
     (case channels db c of
        None \<Rightarrow> None
      | Some row \<Rightarrow>
          if row_state row = ''Closed''
          then (case closed_json row of None \<Rightarrow> None | Some j \<Rightarrow> parse_closed K j) else None)"

section \<open>Cached keysets\<close>

definition sq_get_keyset :: "codec \<Rightarrow> 'j row_codec \<Rightarrow> 'j SqliteStorage \<Rightarrow> string \<Rightarrow> key_id \<Rightarrow> KeysetCacheEntry option" where
  "sq_get_keyset J K db mint_url kid =
     (case map_of (keyset_rows db) (mint_url, id_to_string J kid) of None \<Rightarrow> None | Some j \<Rightarrow> parse_entry K j)"

definition sq_set_keyset ::
  "codec \<Rightarrow> 'j row_codec \<Rightarrow> string \<Rightarrow> key_id \<Rightarrow> KeysetCacheEntry \<Rightarrow> 'j SqliteStorage update" where
  "sq_set_keyset J K mint_url kid entry db =
     (Ok (), db\<lparr>keyset_rows := AList.update (mint_url, id_to_string J kid) (print_entry K entry) (keyset_rows db)\<rparr>)"

definition result_option :: "('e, 'a) result \<Rightarrow> 'a option" where
  "result_option r = (case r of Ok x \<Rightarrow> Some x | Err _ \<Rightarrow> None)"

definition sq_list_keysets_for_unit ::
  "codec \<Rightarrow> 'j row_codec \<Rightarrow> 'j SqliteStorage \<Rightarrow> string \<Rightarrow> currency_unit \<Rightarrow> (key_id \<times> KeysetCacheEntry) list" where
  "sq_list_keysets_for_unit J K db mint_url u =
     List.map_filter (\<lambda>((mt, kid), j).
       if mt = mint_url
       then (case parse_entry K j of
               None \<Rightarrow> None
             | Some entry \<Rightarrow> if kc_unit entry = u then map_option (\<lambda>k. (k, entry)) (result_option (id_parse J kid)) else None)
       else None) (keyset_rows db)"

definition sq_get_active_keyset_ids ::
  "codec \<Rightarrow> 'j row_codec \<Rightarrow> 'j SqliteStorage \<Rightarrow> string \<Rightarrow> currency_unit \<Rightarrow> key_id list" where
  "sq_get_active_keyset_ids J K db mint_url u =
     List.map_filter (\<lambda>((mt, kid), j).
       if mt = mint_url
       then (case parse_entry K j of
               None \<Rightarrow> None
             | Some entry \<Rightarrow> if kc_active entry \<and> kc_unit entry = u then result_option (id_parse J kid) else None)
       else None) (keyset_rows db)"

definition sq_get_mints_units_keysets :: "'j row_codec \<Rightarrow> 'j SqliteStorage \<Rightarrow> string \<Rightarrow> string \<Rightarrow> string list" where
  "sq_get_mints_units_keysets K db mint_url u =
     List.map_filter (\<lambda>((mt, kid), j).
       (case parse_entry K j of
          None \<Rightarrow> None
        | Some entry \<Rightarrow> if kc_active entry \<and> mt = mint_url \<and> kc_unit entry = u then Some kid else None)) (keyset_rows db)"

definition sq_get_active_units :: "'j row_codec \<Rightarrow> 'j SqliteStorage \<Rightarrow> string set" where
  "sq_get_active_units K db =
     set (List.map_filter (\<lambda>(_, j).
       (case parse_entry K j of None \<Rightarrow> None | Some entry \<Rightarrow> if kc_active entry then Some (kc_unit entry) else None))
       (keyset_rows db))"

definition sqlite_storage :: "codec \<Rightarrow> 'j row_codec \<Rightarrow> 'j SqliteStorage SpilmanStorage" where
  "sqlite_storage J K =
     \<lparr>st_compare_payment = sq_compare_payment, st_get_close_journal = sq_get_close_journal,
      st_freeze_close = sq_freeze_close K, st_advance_close = sq_advance_close K, st_get_funding = sq_read_funding K,
      st_save_funding = sq_save_funding K, st_get_balance = sq_get_balance, st_update_balance = sq_update_balance,
      st_get_usage = sq_get_usage, st_increment_usage = sq_increment_usage, st_get_state = sq_get_state,
      st_mark_closing = sq_mark_closing K, st_get_closing_data = sq_get_closing_data K,
      st_mark_closed = sq_mark_closed K, st_get_closed_data = sq_get_closed_data K,
      st_get_keyset = sq_get_keyset J K, st_set_keyset = sq_set_keyset J K,
      st_get_active_keyset_ids = sq_get_active_keyset_ids J K,
      st_list_keysets_for_unit = sq_list_keysets_for_unit J K,
      st_get_mints_units_keysets = sq_get_mints_units_keysets K, st_get_active_units = sq_get_active_units K\<rparr>"

section \<open>The contract holds\<close>

definition row_ok :: "'j row_codec \<Rightarrow> 'j channel_row \<Rightarrow> bool" where
  "row_ok K row \<longleftrightarrow>
     0 \<le> row_balance row \<and> row_balance row < 2 ^ 63 \<and> row_state row \<in> {''Open'', ''Closing'', ''Closed''} \<and>
     parse_funding K (funding_json row) \<noteq> None"

definition sqlite_ok :: "'j row_codec \<Rightarrow> 'j SqliteStorage \<Rightarrow> bool" where
  "sqlite_ok K db \<longleftrightarrow>
     row_codec_faithful K \<and>
     (\<forall>c row. channels db c = Some row \<longrightarrow> row_ok K row) \<and>
     (\<forall>c f. funding_cache db c = Some f \<longrightarrow>
        (\<exists>row. channels db c = Some row \<and> parse_funding K (funding_json row) = Some f))"

lemma sqlite_storage_simps [simp]:
  "st_compare_payment (sqlite_storage J K) = sq_compare_payment"
  "st_get_close_journal (sqlite_storage J K) = sq_get_close_journal"
  "st_freeze_close (sqlite_storage J K) = sq_freeze_close K" "st_advance_close (sqlite_storage J K) = sq_advance_close K"
  "st_get_funding (sqlite_storage J K) = sq_read_funding K" "st_save_funding (sqlite_storage J K) = sq_save_funding K"
  "st_get_balance (sqlite_storage J K) = sq_get_balance" "st_update_balance (sqlite_storage J K) = sq_update_balance"
  "st_get_usage (sqlite_storage J K) = sq_get_usage" "st_increment_usage (sqlite_storage J K) = sq_increment_usage"
  "st_get_state (sqlite_storage J K) = sq_get_state" "st_mark_closing (sqlite_storage J K) = sq_mark_closing K"
  "st_get_closing_data (sqlite_storage J K) = sq_get_closing_data K"
  "st_mark_closed (sqlite_storage J K) = sq_mark_closed K"
  "st_get_closed_data (sqlite_storage J K) = sq_get_closed_data K"
  "st_get_keyset (sqlite_storage J K) = sq_get_keyset J K" "st_set_keyset (sqlite_storage J K) = sq_set_keyset J K"
  "st_list_keysets_for_unit (sqlite_storage J K) = sq_list_keysets_for_unit J K"
  by (simp_all add: sqlite_storage_def)

text \<open>The view of a channel is a function of its row and its journal.\<close>

definition row_channel_state :: "'j channel_row \<Rightarrow> ChannelState option" where
  "row_channel_state row =
     (if row_state row = ''Open'' then Some Open else if row_state row = ''Closing'' then Some Closing
      else if row_state row = ''Closed'' then Some Closed else None)"

definition row_view :: "'j row_codec \<Rightarrow> 'j channel_row \<Rightarrow> string option \<Rightarrow> channel_view" where
  "row_view K row j =
     \<lparr>v_funding = parse_funding K (funding_json row), v_state = row_channel_state row,
      v_balance = (if row_signature row \<noteq> []
                   then Some \<lparr>pay_balance = i64_as_u64 (row_balance row), pay_signature = row_signature row\<rparr> else None),
      v_closing = (if row_state row = ''Closing'' then Option.bind (closing_json row) (parse_closing K) else None),
      v_closed = (if row_state row = ''Closed'' then Option.bind (closed_json row) (parse_closed K) else None),
      v_journal = j\<rparr>"

definition no_view :: "string option \<Rightarrow> channel_view" where
  "no_view j = \<lparr>v_funding = None, v_state = None, v_balance = None, v_closing = None, v_closed = None, v_journal = j\<rparr>"

lemma sqlite_view:
  assumes "sqlite_ok K db"
  shows "view (sqlite_storage J K) db c =
    (case channels db c of None \<Rightarrow> no_view (close_journals db c) | Some row \<Rightarrow> row_view K row (close_journals db c))"
proof (cases "channels db c")
  case None
  moreover have "funding_cache db c = None"
    using assms None unfolding sqlite_ok_def by (metis not_None_eq option.distinct(1))
  ultimately show ?thesis
    by (simp add: view_def no_view_def sq_get_state_def sq_get_close_journal_def sq_read_funding_def
        sq_get_funding_def sq_get_balance_def sq_get_closing_data_def sq_get_closed_data_def)
next
  case (Some row)
  have "sq_read_funding K db c = parse_funding K (funding_json row)"
  proof (cases "funding_cache db c")
    case None
    then show ?thesis using Some by (simp add: sq_read_funding_def sq_get_funding_def split: option.splits)
  next
    case (Some f)
    then obtain row' where "channels db c = Some row'" "parse_funding K (funding_json row') = Some f"
      using assms unfolding sqlite_ok_def by blast
    then show ?thesis using Some \<open>channels db c = Some row\<close> by (simp add: sq_read_funding_def sq_get_funding_def)
  qed
  then show ?thesis
    using Some
    by (simp add: view_def row_view_def row_channel_state_def sq_get_state_def sq_get_close_journal_def
        sq_get_balance_def sq_get_closing_data_def sq_get_closed_data_def Option.bind_def split: option.splits)
qed

lemma i64_try_from_simps:
  "i64_try_from w = Some i \<longleftrightarrow> w < 0x8000000000000000 \<and> i = uint w"
  "i64_try_from w = None \<longleftrightarrow> 0x8000000000000000 \<le> w"
  by (auto simp: i64_try_from_def not_less)

lemma u64_half: "w < 0x8000000000000000 \<longleftrightarrow> uint (w :: u64) < 2 ^ 63"
  by (simp add: word_less_def)

lemma i64_as_u64_uint [simp]: "i64_as_u64 (uint w) = w"
  by (simp add: i64_as_u64_def)

lemma uint_i64_as_u64: "0 \<le> i \<Longrightarrow> i < 2 ^ 63 \<Longrightarrow> uint (i64_as_u64 i) = i"
  by (simp add: i64_as_u64_def uint_word_of_int)

text \<open>The operations without their messages.\<close>

fun row_step :: "'j row_codec \<Rightarrow> storage_op \<Rightarrow> string option \<Rightarrow> 'j channel_row \<Rightarrow> ('j channel_row \<times> string option) option" where
  "row_step K (UpdateBalance c p) j row =
     (if pay_balance p < 0x8000000000000000 \<and> row_state row = ''Open''
      then Some (if row_balance row < uint (pay_balance p) \<or> row_signature row = []
                 then row\<lparr>row_balance := uint (pay_balance p), row_signature := pay_signature p\<rparr> else row, j) else None)"
| "row_step K (ComparePayment c e p) j row =
     (if pay_balance e < pay_balance p \<and> pay_balance p < 0x8000000000000000 \<and> row_state row = ''Open'' \<and>
         row_balance row = uint (pay_balance e) \<and> row_signature row = pay_signature e
      then Some (row\<lparr>row_balance := uint (pay_balance p), row_signature := pay_signature p\<rparr>, j) else None)"
| "row_step K (FreezeClose c e cd j') j row =
     (if cd_balance cd = pay_balance e \<and> cd_signature cd = pay_signature e \<and> pay_balance e < 0x8000000000000000 \<and>
         row_state row = ''Open'' \<and> row_balance row = uint (pay_balance e) \<and> row_signature row = pay_signature e \<and> j = None
      then Some (row\<lparr>row_state := ''Closing'', closing_json := Some (print_closing K cd)\<rparr>, Some j') else None)"
| "row_step K (AdvanceClose c e j' d) j row =
     (if j = Some e \<and> row_state row = ''Closing''
      then Some (case d of None \<Rightarrow> row
                 | Some data \<Rightarrow> row\<lparr>row_state := ''Closed'', closed_json := Some (print_closed K data), closing_json := None\<rparr>, Some j')
      else None)"
| "row_step K (MarkClosing c cd) j row =
     (if row_state row \<noteq> ''Closed'' \<and> j = None
      then Some (row\<lparr>row_state := ''Closing'', closing_json := Some (print_closing K cd)\<rparr>, None) else None)"
| "row_step K (MarkClosed c d) j row =
     (if row_state row \<noteq> ''Closed'' \<and> j = None
      then Some (row\<lparr>row_state := ''Closed'', closed_json := Some (print_closed K d), closing_json := None\<rparr>, None) else None)"
| "row_step K _ j row = Some (row, j)"

definition sq_put :: "channel_id \<Rightarrow> 'j channel_row \<times> string option \<Rightarrow> 'j SqliteStorage \<Rightarrow> 'j SqliteStorage" where
  "sq_put c rj db =
     db\<lparr>channels := (channels db)(c \<mapsto> fst rj), close_journals := (close_journals db)(c := snd rj)\<rparr>"

lemma sq_put_same [simp]: "channels db c = Some row \<Longrightarrow> sq_put c (row, close_journals db c) db = db"
  by (simp add: sq_put_def map_upd_triv)

lemma sq_put_row: "sq_put c (row, close_journals db c) db = db\<lparr>channels := (channels db)(c \<mapsto> row)\<rparr>"
  by (simp add: sq_put_def)

fun row_op :: "storage_op \<Rightarrow> channel_id option" where
  "row_op (UpdateBalance c p) = Some c"
| "row_op (ComparePayment c e p) = Some c"
| "row_op (FreezeClose c e cd j) = Some c"
| "row_op (AdvanceClose c e j d) = Some c"
| "row_op (MarkClosing c cd) = Some c"
| "row_op (MarkClosed c d) = Some c"
| "row_op _ = None"

definition runs_as :: "('e, unit) result \<times> 's \<Rightarrow> 's \<Rightarrow> 's option \<Rightarrow> bool" where
  "runs_as run s next \<longleftrightarrow> is_ok (fst run) = (next \<noteq> None) \<and> snd run = (case next of None \<Rightarrow> s | Some s' \<Rightarrow> s')"

definition sq_next :: "'j row_codec \<Rightarrow> storage_op \<Rightarrow> channel_id \<Rightarrow> 'j SqliteStorage \<Rightarrow> 'j SqliteStorage option" where
  "sq_next K op c db =
     map_option (\<lambda>rj. sq_put c rj db) (Option.bind (channels db c) (row_step K op (close_journals db c)))"

lemma sqlite_run:
  assumes "row_op op = Some c"
  shows "runs_as (run_op (sqlite_storage J K) op db) db (sq_next K op c db)"
proof (cases "channels db c")
  case None
  then show ?thesis
    using assms
    by (cases op)
      (auto simp: runs_as_def sq_next_def sq_update_balance_def sq_compare_payment_def sq_freeze_close_def
        sq_advance_close_def sq_mark_closing_def sq_mark_closed_def has_state_def split: option.splits)
next
  case (Some row)
  have put: "(db\<lparr>channels := (channels db)(c \<mapsto> row')\<rparr>) = sq_put c (row', close_journals db c) db" for row'
    by (simp add: sq_put_row)
  show ?thesis
  proof (cases op)
    case (UpdateBalance c' p)
    then show ?thesis
      using Some assms
      by (auto simp: runs_as_def sq_next_def sq_update_balance_def i64_try_from_def put)
  next
    case (ComparePayment c' e p)
    have "pay_balance e < pay_balance p \<Longrightarrow> pay_balance p < 0x8000000000000000 \<Longrightarrow> pay_balance e < 0x8000000000000000"
      by (rule less_trans)
    then show ?thesis
      using Some assms ComparePayment
      by (auto simp: runs_as_def sq_next_def sq_compare_payment_def i64_try_from_def put not_le)
  next
    case (FreezeClose c' e cd j)
    then show ?thesis
      using Some assms
      by (auto simp: runs_as_def sq_next_def sq_freeze_close_def i64_try_from_def sq_put_def Let_def)
  next
    case (AdvanceClose c' e j d)
    then show ?thesis
      using Some assms
      by (cases d) (auto simp: runs_as_def sq_next_def sq_advance_close_def has_state_def sq_put_def Let_def map_upd_triv)
  next
    case (MarkClosing c' cd)
    then show ?thesis
      using Some assms by (auto simp: runs_as_def sq_next_def sq_mark_closing_def sq_put_def fun_upd_idem)
  next
    case (MarkClosed c' d)
    then show ?thesis
      using Some assms by (auto simp: runs_as_def sq_next_def sq_mark_closed_def sq_put_def fun_upd_idem)
  qed (use assms in simp_all)
qed

text \<open>The balances of an operation fit the integer column.\<close>

fun op_small :: "storage_op \<Rightarrow> bool" where
  "op_small (UpdateBalance c p) \<longleftrightarrow> pay_balance p < 0x8000000000000000"
| "op_small (ComparePayment c e p) \<longleftrightarrow> pay_balance p < 0x8000000000000000"
| "op_small (FreezeClose c e cd j) \<longleftrightarrow> pay_balance e < 0x8000000000000000"
| "op_small _ \<longleftrightarrow> True"

lemma row_step_small: "row_step K op j row = Some rj \<Longrightarrow> op_small op"
  by (cases op) (auto split: if_splits)

lemma row_step_ok:
  assumes "row_ok K row" "row_step K op j row = Some (row', j')"
  shows "row_ok K row'" "funding_json row' = funding_json row"
  using assms
  by (cases op; auto simp: row_ok_def u64_half split: if_splits option.splits)+

lemma balance_less_iff:
  assumes "0 \<le> i" "i < 2 ^ 63"
  shows "i64_as_u64 i < w \<longleftrightarrow> i < uint w"
  using uint_i64_as_u64 [OF assms] by (simp add: word_less_def)

lemma balance_eq_iff:
  assumes "0 \<le> i" "i < 2 ^ 63"
  shows "i64_as_u64 i = w \<longleftrightarrow> i = uint w"
  using uint_i64_as_u64 [OF assms] by (auto simp: word_uint_eq_iff)

lemma payment_eq_iff:
  "\<lparr>pay_balance = b, pay_signature = s\<rparr> = p \<longleftrightarrow> b = pay_balance p \<and> s = pay_signature p"
  by (cases p) simp

lemma row_step_spec:
  assumes "row_codec_faithful K" "row_ok K row" "valid_op op" "op_small op" "row_op op = Some c"
  shows "spec_step op (row_view K row j) = map_option (\<lambda>(row', j'). row_view K row' j') (row_step K op j row)"
proof -
  have b: "0 \<le> row_balance row" "row_balance row < 2 ^ 63"
    and st: "row_state row = ''Open'' \<or> row_state row = ''Closing'' \<or> row_state row = ''Closed''"
    using assms(2) by (auto simp: row_ok_def)
  have K: "parse_closing K (print_closing K cd) = Some cd" "parse_closed K (print_closed K d) = Some d" for cd d
    using assms(1) by (simp_all add: row_codec_faithful_def)
  note v = row_view_def row_channel_state_def
  show ?thesis
  proof (cases op)
    case (UpdateBalance c' p)
    then show ?thesis
      using assms(3-5) st balance_less_iff [OF b, of "pay_balance p"] by (auto simp: v)
  next
    case (ComparePayment c' e p)
    then show ?thesis
      using assms(3-5) st balance_eq_iff [OF b, of "pay_balance e"] by (auto simp: v payment_eq_iff)
  next
    case (FreezeClose c' e cd j')
    then show ?thesis
      using assms(3-5) st balance_eq_iff [OF b, of "pay_balance e"] K by (auto simp: v payment_eq_iff)
  next
    case (AdvanceClose c' e j' d)
    then show ?thesis using assms(3-5) st K by (cases d) (auto simp: v)
  next
    case (MarkClosing c' cd)
    then show ?thesis using assms(3-5) st K by (auto simp: v)
  next
    case (MarkClosed c' d)
    then show ?thesis using assms(3-5) st K by (auto simp: v)
  qed (use assms(5) in simp_all)
qed

lemma sqlite_okD:
  assumes "sqlite_ok K db"
  shows "row_codec_faithful K" "channels db c = Some row \<Longrightarrow> row_ok K row"
    "funding_cache db c = Some f \<Longrightarrow> \<exists>row. channels db c = Some row \<and> parse_funding K (funding_json row) = Some f"
  using assms by (auto simp: sqlite_ok_def)

lemma sq_put_ok:
  assumes "sqlite_ok K db" "channels db c = Some row" "row_ok K row'" "funding_json row' = funding_json row"
  shows "sqlite_ok K (sq_put c (row', j) db)"
proof -
  have "\<exists>r. channels (sq_put c (row', j) db) c' = Some r \<and> parse_funding K (funding_json r) = Some f"
    if "funding_cache db c' = Some f" for c' f
    using sqlite_okD(3) [OF assms(1) that] assms(2,4) by (auto simp: sq_put_def)
  moreover have "row_ok K r" if "channels (sq_put c (row', j) db) c' = Some r" for c' r
    using that assms(1,3) by (auto simp: sq_put_def sqlite_ok_def split: if_splits)
  ultimately show ?thesis using sqlite_okD(1) [OF assms(1)] by (simp add: sqlite_ok_def sq_put_def)
qed

lemma sq_next_ok:
  assumes "sqlite_ok K db" "sq_next K op c db = Some db'"
  shows "sqlite_ok K db'"
proof -
  obtain row row' j' where r: "channels db c = Some row" "row_step K op (close_journals db c) row = Some (row', j')"
    "db' = sq_put c (row', j') db"
    using assms(2) by (auto simp: sq_next_def bind_eq_Some_conv)
  show ?thesis
    unfolding r(3)
    using row_step_ok [OF sqlite_okD(2) [OF assms(1) r(1)] r(2)] by (intro sq_put_ok [OF assms(1) r(1)])
qed

lemma sq_next_view:
  assumes "sqlite_ok K db" "valid_op op" "row_op op = Some c" "sq_next K op c db = Some db'"
  shows "moves op c' (view (sqlite_storage J K) db c') (view (sqlite_storage J K) db' c')"
proof -
  obtain row row' j' where r: "channels db c = Some row" "row_step K op (close_journals db c) row = Some (row', j')"
    "db' = sq_put c (row', j') db"
    using assms(4) by (auto simp: sq_next_def bind_eq_Some_conv)
  have ch: "op_channel op = Some c" using assms(3) by (cases op) auto
  note ok' = sq_next_ok [OF assms(1,4)]
  show ?thesis
  proof (cases "c' = c")
    case True
    have "spec_step op (row_view K row (close_journals db c)) = Some (row_view K row' j')"
      using row_step_spec [OF sqlite_okD(1) [OF assms(1)] sqlite_okD(2) [OF assms(1) r(1)] assms(2)
          row_step_small [OF r(2)] assms(3)] r(2) by simp
    then show ?thesis
      using True ch r(1) sqlite_view [OF assms(1)] sqlite_view [OF ok'] by (simp add: moves_def r(3) sq_put_def)
  next
    case False
    then have "channels db' c' = channels db c'" "close_journals db' c' = close_journals db c'"
      by (simp_all add: r(3) sq_put_def)
    then show ?thesis
      using False ch sqlite_view [OF assms(1), of J c'] sqlite_view [OF ok', of J c']
      by (simp add: moves_def split: option.split)
  qed
qed

text \<open>Saving funding is valid for a channel without a row, and for one whose funding is already in the cache.\<close>

definition sqlite_valid :: "'j SqliteStorage \<Rightarrow> storage_op \<Rightarrow> bool" where
  "sqlite_valid db op \<longleftrightarrow>
     valid_op op \<and> (case op of SaveFunding c f \<Rightarrow> channels db c \<noteq> None \<longrightarrow> funding_cache db c \<noteq> None | _ \<Rightarrow> True)"

lemma sq_save_funding_ok:
  assumes "sqlite_ok K db" "sqlite_valid db (SaveFunding c f)"
  shows "sqlite_ok K (snd (sq_save_funding K c f db))"
proof (cases "channels db c")
  case None
  then have "funding_cache db c = None" using sqlite_okD(3) [OF assms(1), of c] by (cases "funding_cache db c") auto
  then show ?thesis
    using assms(1) None sqlite_okD(1) [OF assms(1)]
    by (auto simp: sqlite_ok_def sq_save_funding_def row_codec_faithful_def new_row_def row_ok_def)
next
  case (Some row)
  then show ?thesis using assms by (auto simp: sq_save_funding_def sqlite_valid_def)
qed

lemma sq_save_funding_view:
  assumes "sqlite_ok K db" "sqlite_valid db (SaveFunding c f)"
  shows "moves (SaveFunding c f) c' (view (sqlite_storage J K) db c') (view (sqlite_storage J K) (snd (sq_save_funding K c f db)) c')"
proof (cases "channels db c")
  case None
  have "close_journals (snd (sq_save_funding K c f db)) = close_journals db" by (simp add: sq_save_funding_def)
  then have v: "view (sqlite_storage J K) (snd (sq_save_funding K c f db)) c' =
      (case channels (snd (sq_save_funding K c f db)) c' of
         None \<Rightarrow> no_view (close_journals db c') | Some row \<Rightarrow> row_view K row (close_journals db c'))"
    using sqlite_view [OF sq_save_funding_ok [OF assms], of J c'] by (simp split: option.split)
  show ?thesis
    using v sqlite_view [OF assms(1), of J c'] None sqlite_okD(1) [OF assms(1)]
    by (auto simp: moves_def sq_save_funding_def no_view_def row_view_def new_row_def row_channel_state_def row_codec_faithful_def)
next
  case (Some row)
  then have "snd (sq_save_funding K c f db) = db" using assms(2) by (auto simp: sq_save_funding_def sqlite_valid_def)
  moreover have "row_ok K row" by (rule sqlite_okD(2) [OF assms(1) Some])
  ultimately show ?thesis
    using sqlite_view [OF assms(1), of J c'] Some
    by (auto simp: moves_def row_view_def row_ok_def row_channel_state_def)
qed

lemma sqlite_keeps_ok_and_effect:
  assumes "sqlite_ok K db" "sqlite_valid db op" "run_op (sqlite_storage J K) op db = (r, db')"
  shows "sqlite_ok K db'"
    "if is_ok r then moves op c (view (sqlite_storage J K) db c) (view (sqlite_storage J K) db' c)
     else view (sqlite_storage J K) db' c = view (sqlite_storage J K) db c"
proof -
  have "sqlite_ok K db' \<and>
    (if is_ok r then moves op c (view (sqlite_storage J K) db c) (view (sqlite_storage J K) db' c)
     else view (sqlite_storage J K) db' c = view (sqlite_storage J K) db c)"
  proof (cases "row_op op")
    case (Some c0)
    have run: "is_ok r = (sq_next K op c0 db \<noteq> None)" "db' = (case sq_next K op c0 db of None \<Rightarrow> db | Some d \<Rightarrow> d)"
      using sqlite_run [OF Some, of J K db] assms(3) by (simp_all add: runs_as_def)
    have "valid_op op" using assms(2) by (simp add: sqlite_valid_def)
    then show ?thesis
      using run assms(1) sq_next_ok [OF assms(1)] sq_next_view [OF assms(1) _ Some]
      by (cases "sq_next K op c0 db") auto
  next
    case None
    then consider c1 f where "op = SaveFunding c1 f" | c1 u where "op = IncrementUsage c1 u" | mt k e where "op = SetKeyset mt k e"
      by (cases op) auto
    then show ?thesis
    proof cases
      case 1
      then have "db' = snd (sq_save_funding K c1 f db)" "is_ok r"
        using assms(3) by (auto simp: sq_save_funding_def)
      then show ?thesis using 1 sq_save_funding_ok [OF assms(1)] sq_save_funding_view [OF assms(1)] assms(2) by simp
    next
      case 2
      then have db': "db' = db\<lparr>usage_rows := foldl (sq_add_usage c1) (usage_rows db) u\<rparr>" "is_ok r"
        using assms(3) by (auto simp: sq_increment_usage_def)
      have ok: "sqlite_ok K db'" using assms(1) by (simp add: db'(1) sqlite_ok_def)
      then show ?thesis
        using 2 db'(2) sqlite_view [OF assms(1), of J c] sqlite_view [OF ok, of J c]
        by (simp add: moves_def db'(1) split: option.split)
    next
      case 3
      then have db': "db' = db\<lparr>keyset_rows := AList.update (mt, id_to_string J k) (print_entry K e) (keyset_rows db)\<rparr>" "is_ok r"
        using assms(3) by (auto simp: sq_set_keyset_def)
      have ok: "sqlite_ok K db'" using assms(1) by (simp add: db'(1) sqlite_ok_def)
      then show ?thesis
        using 3 db'(2) sqlite_view [OF assms(1), of J c] sqlite_view [OF ok, of J c]
        by (simp add: moves_def db'(1) split: option.split)
    qed
  qed
  then show "sqlite_ok K db'"
    "if is_ok r then moves op c (view (sqlite_storage J K) db c) (view (sqlite_storage J K) db' c)
     else view (sqlite_storage J K) db' c = view (sqlite_storage J K) db c"
    by blast+
qed

lemma sq_get_state_ok: "sqlite_ok K db \<Longrightarrow> is_ok (sq_get_state db c)"
  by (auto simp: sqlite_ok_def row_ok_def sq_get_state_def split: option.splits)

interpretation sql: channel_store "sqlite_storage J K" "sqlite_ok K" sqlite_valid for J K
proof
  fix s c
  assume "sqlite_ok K s"
  then show "is_ok (st_get_state (sqlite_storage J K) s c)" by (simp add: sq_get_state_ok)
next
  fix op s
  assume "valid_op op" "\<And>c f. op \<noteq> SaveFunding c f"
  then show "sqlite_valid s op" by (cases op) (auto simp: sqlite_valid_def)
qed (rule sqlite_keeps_ok_and_effect; assumption)+

section \<open>Properties\<close>

text \<open>Closing and reopening the database empties the cache.\<close>

definition sqlite_reopen :: "'j SqliteStorage \<Rightarrow> 'j SqliteStorage" where
  "sqlite_reopen db = db\<lparr>funding_cache := Map.empty\<rparr>"

lemma sqlite_init_ok: "row_codec_faithful K \<Longrightarrow> sqlite_ok K sqlite_init_schema"
  by (simp add: sqlite_ok_def sqlite_init_schema_def)

lemma sqlite_reopen_ok: "sqlite_ok K db \<Longrightarrow> sqlite_ok K (sqlite_reopen db)"
  by (simp add: sqlite_ok_def sqlite_reopen_def)

lemma sqlite_reopen_view: "sqlite_ok K db \<Longrightarrow> view (sqlite_storage J K) (sqlite_reopen db) c = view (sqlite_storage J K) db c"
  using sqlite_view [of K db J c] sqlite_view [OF sqlite_reopen_ok, of K db J c]
  by (simp add: sqlite_reopen_def split: option.split)

lemma frozen_no_view: "frozen_claim (no_view None)"
  by (simp add: frozen_claim_def no_view_def)

text \<open>C5: the life of a channel in the SQLite storage.  Whatever valid operations run, before and after the
  database is closed and reopened, the view of every channel develops: funding fixed, state only
  forward, payments only replaced by larger ones and frozen once the channel closes, closed data final;
  and a channel frozen by an application journal claims exactly the last accepted payment.\<close>

theorem sqlite_lifecycle:
  assumes "row_codec_faithful K"
    and "valid_run (sqlite_storage J K) sqlite_valid ops1 sqlite_init_schema"
    and "db1 = snd (run_ops (sqlite_storage J K) ops1 sqlite_init_schema)"
    and "valid_run (sqlite_storage J K) sqlite_valid ops2 (sqlite_reopen db1)"
    and "db2 = snd (run_ops (sqlite_storage J K) ops2 (sqlite_reopen db1))"
  shows "develops (view (sqlite_storage J K) db1 c) (view (sqlite_storage J K) db2 c) \<and>
    frozen_claim (view (sqlite_storage J K) db2 c)"
proof -
  note init = sqlite_init_ok [OF assms(1)]
  have ok1: "sqlite_ok K db1" using sql.chain_develops [OF init assms(2)] assms(3) by simp
  have "view (sqlite_storage J K) sqlite_init_schema c = no_view None"
    using sqlite_view [OF init, of J c] by (simp add: sqlite_init_schema_def)
  then have "frozen_claim (view (sqlite_storage J K) db1 c)"
    unfolding assms(3) by (intro sql.chain_frozen [OF init assms(2)]) (simp add: frozen_no_view)
  then have f1: "frozen_claim (view (sqlite_storage J K) (sqlite_reopen db1) c)"
    by (simp add: sqlite_reopen_view [OF ok1])
  show ?thesis
    using sql.chain_develops [OF sqlite_reopen_ok [OF ok1] assms(4), of c]
      sql.chain_frozen [OF sqlite_reopen_ok [OF ok1] assms(4) f1]
    by (simp add: assms(5) sqlite_reopen_view [OF ok1])
qed

text \<open>An operation that both storages treat alike: balances fit the column, and a channel is closed only when known.\<close>

definition admissible :: "'j SqliteStorage \<Rightarrow> storage_op \<Rightarrow> bool" where
  "admissible db op \<longleftrightarrow>
     sqlite_valid db op \<and> op_small op \<and>
     (case op of MarkClosing c _ \<Rightarrow> channels db c \<noteq> None | MarkClosed c _ \<Rightarrow> channels db c \<noteq> None | _ \<Rightarrow> True)"

lemma sqlite_ok_iff:
  assumes "sqlite_ok K db" "admissible db op" "op_channel op = Some c"
  shows "is_ok (fst (run_op (sqlite_storage J K) op db)) \<longleftrightarrow> spec_step op (view (sqlite_storage J K) db c) \<noteq> None"
proof (cases "row_op op")
  case None
  then show ?thesis using assms(3) by (cases op) (auto simp: sq_save_funding_def sq_increment_usage_def)
next
  case (Some c0)
  then have c0: "c0 = c" using assms(3) by (cases op) auto
  have run: "is_ok (fst (run_op (sqlite_storage J K) op db)) \<longleftrightarrow> sq_next K op c db \<noteq> None"
    using sqlite_run [OF Some, of J K db] by (simp add: runs_as_def c0)
  show ?thesis
  proof (cases "channels db c")
    case None
    then show ?thesis
      using run Some sqlite_view [OF assms(1), of J c] assms(2) c0
      by (cases op) (auto simp: sq_next_def no_view_def admissible_def)
  next
    case (Some row)
    have "valid_op op" "op_small op" using assms(2) by (simp_all add: admissible_def sqlite_valid_def)
    from row_step_spec [OF sqlite_okD(1) [OF assms(1)] sqlite_okD(2) [OF assms(1) Some] this \<open>row_op op = Some c0\<close>]
    show ?thesis using run Some sqlite_view [OF assms(1), of J c] by (simp add: sq_next_def)
  qed
qed

lemma memory_ok_iff:
  assumes "memory_ok m" "op_channel op = Some c"
  shows "is_ok (fst (run_op (memory_storage J) op m)) \<longleftrightarrow> spec_step op (view (memory_storage J) m c) \<noteq> None"
  using memory_run(1) [of J op m] ms_next_spec [OF assms, of J] by simp

lemma agree_step:
  assumes "memory_ok m" "sqlite_ok K db" "admissible db op"
    "\<forall>c. view (memory_storage J) m c = view (sqlite_storage J K) db c"
    "run_op (memory_storage J) op m = (r, m')" "run_op (sqlite_storage J K) op db = (q, db')"
  shows "is_ok r = is_ok q \<and> memory_ok m' \<and> sqlite_ok K db' \<and>
    (\<forall>c. view (memory_storage J) m' c = view (sqlite_storage J K) db' c)"
proof -
  have v: "sqlite_valid db op" using assms(3) by (simp add: admissible_def)
  have ok: "is_ok r = is_ok q"
  proof (cases "op_channel op")
    case None
    then obtain mt k e where "op = SetKeyset mt k e" by (cases op) auto
    then show ?thesis using assms(5,6) by (auto simp: ms_set_keyset_def sq_set_keyset_def)
  next
    case (Some c)
    then show ?thesis
      using memory_ok_iff [OF assms(1) Some, of J] sqlite_ok_iff [OF assms(2,3) Some, of J] assms(4-6) by simp
  qed
  have "view (memory_storage J) m' c = view (sqlite_storage J K) db' c" for c
    using memory_effect [OF assms(1,5), of c] sqlite_keeps_ok_and_effect(2) [OF assms(2) v assms(6), of c] assms(4) ok
    by (auto simp: moves_def split: if_splits)
  then show ?thesis
    using ok memory_keeps_ok [OF assms(1,5)] sqlite_keeps_ok_and_effect(1) [OF assms(2) v assms(6)] by blast
qed

lemma agree_run:
  assumes "memory_ok m" "sqlite_ok K db" "valid_run (sqlite_storage J K) admissible ops db"
    "\<forall>c. view (memory_storage J) m c = view (sqlite_storage J K) db c"
  shows "map is_ok (fst (run_ops (memory_storage J) ops m)) = map is_ok (fst (run_ops (sqlite_storage J K) ops db)) \<and>
    (\<forall>c. view (memory_storage J) (snd (run_ops (memory_storage J) ops m)) c =
         view (sqlite_storage J K) (snd (run_ops (sqlite_storage J K) ops db)) c)"
  using assms
proof (induction ops arbitrary: m db)
  case (Cons op ops)
  obtain r m1 where r: "run_op (memory_storage J) op m = (r, m1)" by (cases "run_op (memory_storage J) op m")
  obtain q db1 where q: "run_op (sqlite_storage J K) op db = (q, db1)" by (cases "run_op (sqlite_storage J K) op db")
  have "admissible db op" "valid_run (sqlite_storage J K) admissible ops db1" using Cons.prems(3) q by simp_all
  then show ?case
    using agree_step [OF Cons.prems(1,2) _ Cons.prems(4) r q] Cons.IH [of m1 db1] r q by (simp add: case_prod_beta')
qed simp

text \<open>C14: the in-memory and the SQLite storage are interchangeable.  Started empty and given the same operations,
  with balances that fit a signed column and channels closed only when known, they accept and refuse
  the same operations and show the same view of every channel.\<close>

theorem storages_agree:
  assumes "row_codec_faithful K" "valid_run (sqlite_storage J K) admissible ops sqlite_init_schema"
  shows "map is_ok (fst (run_ops (memory_storage J) ops memory_new)) =
      map is_ok (fst (run_ops (sqlite_storage J K) ops sqlite_init_schema)) \<and>
    view (memory_storage J) (snd (run_ops (memory_storage J) ops memory_new)) c =
      view (sqlite_storage J K) (snd (run_ops (sqlite_storage J K) ops sqlite_init_schema)) c"
proof -
  note init = sqlite_init_ok [OF assms(1)]
  have "memory_ok memory_new" by (simp add: memory_ok_def memory_new_def)
  moreover have "\<forall>c. view (memory_storage J) memory_new c = view (sqlite_storage J K) sqlite_init_schema c"
    using sqlite_view [OF init, of J]
    by (simp add: memory_view memory_new_def sqlite_init_schema_def no_view_def ms_state_def)
  ultimately show ?thesis using agree_run [OF _ init assms(2)] by blast
qed



section \<open>A concrete encoding\<close>

datatype stored = SFunding ChannelFunding | SClosing ClosingData | SClosed ClosedDataView | SEntry KeysetCacheEntry

definition example_rows :: "stored row_codec" where
  "example_rows =
     \<lparr>print_funding = SFunding, parse_funding = (\<lambda>j. case j of SFunding x \<Rightarrow> Some x | _ \<Rightarrow> None),
      print_closing = SClosing, parse_closing = (\<lambda>j. case j of SClosing x \<Rightarrow> Some x | _ \<Rightarrow> None),
      print_closed = SClosed, parse_closed = (\<lambda>j. case j of SClosed x \<Rightarrow> Some x | _ \<Rightarrow> None),
      print_entry = SEntry, parse_entry = (\<lambda>j. case j of SEntry x \<Rightarrow> Some x | _ \<Rightarrow> None)\<rparr>"

lemma example_rows_faithful: "row_codec_faithful example_rows"
  by (simp add: row_codec_faithful_def example_rows_def)

definition example_funding :: "string \<Rightarrow> ChannelFunding" where
  "example_funding p = \<lparr>params_json = p, funding_proofs_json = ''[]'', channel_secret_hex = ''00'', keyset_info_json = ''{}''\<rparr>"

definition example_payment :: "u64 \<Rightarrow> PaymentProof" where
  "example_payment b = \<lparr>pay_balance = b, pay_signature = ''s''\<rparr>"

text \<open>A channel is funded and paid, then frozen at the payment and closed with its journal.\<close>

definition example_ops1 :: "storage_op list" where
  "example_ops1 = [SaveFunding ''a'' (example_funding ''p''), UpdateBalance ''a'' (example_payment 3)]"

definition example_ops2 :: "storage_op list" where
  "example_ops2 =
     [ComparePayment ''a'' (example_payment 3) (example_payment 5),
      FreezeClose ''a'' (example_payment 5) \<lparr>cd_expiry_timestamp = 9, cd_balance = 5, cd_signature = ''s''\<rparr> ''j1'',
      UpdateBalance ''a'' (example_payment 7), AdvanceClose ''a'' ''j1'' ''j2'' None]"

lemma example_valid:
  "valid_run (sqlite_storage (example_codec JNull) example_rows) sqlite_valid example_ops1 sqlite_init_schema"
  "valid_run (sqlite_storage (example_codec JNull) example_rows) sqlite_valid example_ops2
     (sqlite_reopen (snd (run_ops (sqlite_storage (example_codec JNull) example_rows) example_ops1 sqlite_init_schema)))"
  "valid_run (sqlite_storage (example_codec JNull) example_rows) admissible (example_ops1 @ example_ops2) sqlite_init_schema"
  by code_simp+

theorem sqlite_lifecycle_witness:
  "\<exists>db1 db2. db2 = snd (run_ops (sqlite_storage (example_codec JNull) example_rows) example_ops2 (sqlite_reopen db1)) \<and>
     develops (view (sqlite_storage (example_codec JNull) example_rows) db1 ''a'')
       (view (sqlite_storage (example_codec JNull) example_rows) db2 ''a'')"
  using sqlite_lifecycle [OF example_rows_faithful example_valid(1) refl example_valid(2) refl, of "''a''"] by blast

theorem storages_agree_witness:
  "map is_ok (fst (run_ops (memory_storage (example_codec JNull)) (example_ops1 @ example_ops2) memory_new)) =
   map is_ok (fst (run_ops (sqlite_storage (example_codec JNull) example_rows) (example_ops1 @ example_ops2) sqlite_init_schema))"
  using storages_agree [OF example_rows_faithful example_valid(3)] by blast



end
