(* ===== verification/Tlv.thy ===== *)
theory Tlv
  imports External
begin

text \<open>
  The canonical encoding behind the channel id: \<open>tu64_bytes\<close> and \<open>append_tlv_record\<close> of
  \<open>crates/cdk-spilman/src/params.rs\<close>.  A record is a type, a length and a value; both integers are
  self-delimiting, so a stream of records determines its records.
\<close>

section \<open>Truncated integers\<close>

text \<open>Big-endian bytes of a 64-bit integer, and the number of its leading zero bits.\<close>

definition to_be_bytes :: "u64 \<Rightarrow> bytes" where
  "to_be_bytes w = map (\<lambda>i. ucast (drop_bit (8 * (7 - i)) w)) [0..<8]"

definition leading_zeros :: "u64 \<Rightarrow> nat" where
  "leading_zeros w = length (takeWhile (\<lambda>i. \<not> bit w i) (rev [0..<64]))"

definition tu64_bytes :: "u64 \<Rightarrow> bytes" where
  "tu64_bytes w = drop (leading_zeros w div 8) (to_be_bytes w)"

definition append_tlv_record :: "crypto \<Rightarrow> bytes \<Rightarrow> u64 \<Rightarrow> bytes \<Rightarrow> bytes" where
  "append_tlv_record C stream typ v =
     stream @ big_size C typ @ big_size C (word_of_nat (length v)) @ v"

lemma length_to_be_bytes [simp]: "length (to_be_bytes w) = 8"
  by (simp add: to_be_bytes_def)

lemma bit_to_be_bytes:
  assumes "n < 64"
  shows "bit (to_be_bytes w ! (7 - n div 8)) (n mod 8) = bit w n"
proof -
  have "7 - (7 - n div 8) = n div 8" using assms by simp
  then show ?thesis
    using assms by (simp add: to_be_bytes_def bit_simps)
qed

lemma to_be_bytes_inj:
  assumes "to_be_bytes v = to_be_bytes w"
  shows "v = w"
proof (rule bit_word_eqI)
  fix n assume "n < LENGTH(64)"
  then have "n < 64" by simp
  then show "bit v n = bit w n"
    using bit_to_be_bytes [of n v] bit_to_be_bytes [of n w] assms by simp
qed

lemma leading_zeros_le: "leading_zeros w \<le> 64"
  unfolding leading_zeros_def by (rule order_trans [OF length_takeWhile_le]) simp

lemma leading_zeros_bits:
  assumes "n < 64" "63 - n < leading_zeros w"
  shows "\<not> bit w n"
proof -
  let ?z = "takeWhile (\<lambda>i. \<not> bit w i) (rev [0..<64])"
  have lt: "63 - n < length ?z" using assms(2) by (simp only: leading_zeros_def)
  have "?z ! (63 - n) = rev [0..<64] ! (63 - n)" using lt by (rule takeWhile_nth)
  also have "\<dots> = n" using assms(1) by (simp add: rev_nth)
  finally have "n \<in> set ?z" using nth_mem [OF lt] by simp
  then show ?thesis by (auto dest: set_takeWhileD)
qed

text \<open>What the truncation drops is zero bytes only.\<close>

lemma tu64_bytes_dropped:
  assumes "i < leading_zeros w div 8"
  shows "to_be_bytes w ! i = 0"
proof (rule bit_word_eqI)
  fix n assume "n < LENGTH(8)"
  then have n: "n < 8" by simp
  have i: "i < 8" using assms leading_zeros_le [of w] by linarith
  have "63 - (8 * (7 - i) + n) < leading_zeros w" using assms i n by linarith
  then have "\<not> bit w (8 * (7 - i) + n)" using i n by (intro leading_zeros_bits) auto
  then show "bit (to_be_bytes w ! i) n = bit (0 :: byte) n"
    using i n by (simp add: to_be_bytes_def bit_simps)
qed

lemma to_be_bytes_tu64:
  "to_be_bytes w = replicate (8 - length (tu64_bytes w)) 0 @ tu64_bytes w"
proof -
  let ?k = "leading_zeros w div 8"
  have k: "?k \<le> 8" using leading_zeros_le [of w] by linarith
  have "take ?k (to_be_bytes w) = replicate ?k 0"
    using k tu64_bytes_dropped by (intro nth_equalityI) auto
  moreover have "8 - length (tu64_bytes w) = ?k" using k by (simp add: tu64_bytes_def)
  ultimately show ?thesis
    using append_take_drop_id [of ?k "to_be_bytes w"] by (simp add: tu64_bytes_def)
qed

lemma tu64_bytes_inj [simp]: "tu64_bytes v = tu64_bytes w \<longleftrightarrow> v = w"
  using to_be_bytes_tu64 [of v] to_be_bytes_tu64 [of w] to_be_bytes_inj [of v w] by auto

lemma length_tu64_bytes: "length (tu64_bytes w) \<le> 8"
  by (simp add: tu64_bytes_def)

section \<open>Streams of records\<close>

text \<open>A stream written record by record is the concatenation of its encoded records.\<close>

definition tlv_record :: "crypto \<Rightarrow> u64 \<times> bytes \<Rightarrow> bytes" where
  "tlv_record C r = big_size C (fst r) @ big_size C (word_of_nat (length (snd r))) @ snd r"

definition tlv_stream :: "crypto \<Rightarrow> (u64 \<times> bytes) list \<Rightarrow> bytes" where
  "tlv_stream C rs = concat (map (tlv_record C) rs)"

lemma append_tlv_record_stream:
  "append_tlv_record C (tlv_stream C rs) t v = tlv_stream C (rs @ [(t, v)])"
  by (simp add: append_tlv_record_def tlv_stream_def tlv_record_def)

lemma tlv_record_split:
  assumes "big_size_delimited C" "length (snd r) < 2 ^ 64" "length (snd s) < 2 ^ 64"
    "tlv_record C r @ x = tlv_record C s @ y"
  shows "r = s \<and> x = y"
proof -
  have bs: "m = n \<and> a = b" if "big_size C m @ a = big_size C n @ b" for m n a b
    using assms(1) that unfolding big_size_delimited_def by blast
  have t: "fst r = fst s"
    "big_size C (word_of_nat (length (snd r))) @ snd r @ x =
     big_size C (word_of_nat (length (snd s))) @ snd s @ y"
    using bs [of "fst r" _ "fst s"] assms(4) by (simp_all add: tlv_record_def)
  have l: "(word_of_nat (length (snd r)) :: u64) = word_of_nat (length (snd s))"
    "snd r @ x = snd s @ y"
    using bs [OF t(2)] by simp_all
  have "length (snd r) = length (snd s)"
    using arg_cong [OF l(1), of unat]
    unfolding unat_word_of_nat_u64 [OF assms(2)] unat_word_of_nat_u64 [OF assms(3)] .
  then show ?thesis using l(2) t(1) by (auto intro: prod_eqI)
qed

lemma tlv_record_nonempty:
  assumes "big_size_delimited C"
  shows "tlv_record C r \<noteq> []"
proof
  assume "tlv_record C r = []"
  then have "big_size C (fst r) = []" by (simp add: tlv_record_def)
  moreover have "big_size C (fst r + 1) @ [] = big_size C (fst r) @ big_size C (fst r + 1)"
    using \<open>big_size C (fst r) = []\<close> by simp
  ultimately show False using assms unfolding big_size_delimited_def by (metis add_cancel_left_right zero_neq_one)
qed

lemma tlv_stream_inj:
  assumes "big_size_delimited C" "tlv_stream C rs = tlv_stream C ss"
    "\<forall>r \<in> set rs. length (snd r) < 2 ^ 64" "\<forall>s \<in> set ss. length (snd s) < 2 ^ 64"
  shows "rs = ss"
  using assms(2-4)
proof (induction rs arbitrary: ss)
  case Nil
  then show ?case
    using tlv_record_nonempty [OF assms(1)] by (cases ss) (auto simp: tlv_stream_def)
next
  case (Cons r rs)
  then obtain s ss' where ss: "ss = s # ss'"
    using tlv_record_nonempty [OF assms(1)] by (cases ss) (auto simp: tlv_stream_def)
  have "r = s \<and> tlv_stream C rs = tlv_stream C ss'"
    using Cons.prems unfolding ss
    by (intro tlv_record_split [OF assms(1)]) (auto simp: tlv_stream_def)
  then show ?case using Cons ss by auto
qed

text \<open>The concrete instance writes its integers with a fixed width, which is self-delimiting.\<close>

lemma example_big_size_delimited: "big_size_delimited example_crypto"
proof -
  have eq: "big_size example_crypto = to_be_bytes"
    by (simp add: example_crypto_def fixed_width_def to_be_bytes_def fun_eq_iff)
  show ?thesis
    unfolding big_size_delimited_def eq by (auto dest: to_be_bytes_inj)
qed

end
