(* ===== verification/Params.thy ===== *)
theory Params
  imports Tlv
begin

text \<open>
  Channel parameters: \<open>crates/cdk-spilman/src/params.rs\<close>.

  The parameters both parties agree on, the channel id that commits to them, the scalars and blinded
  keys derived from the channel secret, and the two-stage fee computation.
\<close>

section \<open>Hashing to scalars\<close>

definition channel_id_tag :: bytes where
  "channel_id_tag = string_bytes ''Cashu_Spilman_channel_id''"

definition channel_id_encoding_version :: u64 where
  "channel_id_encoding_version = 1"

definition tagged_sha256 :: "crypto \<Rightarrow> bytes \<Rightarrow> bytes \<Rightarrow> bytes" where
  "tagged_sha256 C tag message =
     (let tag_hash = sha256 C tag in sha256 C (tag_hash @ tag_hash @ message))"

definition nonzero_scalar :: "crypto \<Rightarrow> bytes \<Rightarrow> scalar option" where
  "nonzero_scalar C candidate =
     (case scalar_from_be_bytes C candidate of
        Some s \<Rightarrow> if s \<noteq> scalar_zero then Some s else None
      | None \<Rightarrow> None)"

definition hash_to_secp_scalar :: "crypto \<Rightarrow> bytes \<Rightarrow> (bytes \<Rightarrow> bytes) \<Rightarrow> (string, scalar) result" where
  "hash_to_secp_scalar C input hash =
     (case nonzero_scalar C (hash input) of
        Some s \<Rightarrow> Ok s
      | None \<Rightarrow>
          (case nonzero_scalar C (hash (input @ [0xff])) of
             Some s \<Rightarrow> Ok s
           | None \<Rightarrow> Err ''Failed to derive valid secp256k1 scalar after retry''))"

definition u32_be_bytes :: "nat \<Rightarrow> bytes" where
  "u32_be_bytes n = map (\<lambda>i. word_of_nat (n div 256 ^ (3 - i))) [0..<4]"

fun bls_attempts :: "crypto \<Rightarrow> bytes \<Rightarrow> (bytes \<Rightarrow> bytes) \<Rightarrow> nat list \<Rightarrow> (string, scalar) result" where
  "bls_attempts C input hash [] = Err ''Failed to derive valid BLS scalar after 256 attempts''"
| "bls_attempts C input hash (counter # counters) =
     (let candidate = hash (input @ u32_be_bytes counter) in
      if candidate = replicate 32 0 then bls_attempts C input hash counters
      else case bls_scalar_from_bytes C (rev candidate) of
             Some s \<Rightarrow> Ok s
           | None \<Rightarrow> bls_attempts C input hash counters)"

definition hash_to_bls_scalar :: "crypto \<Rightarrow> bytes \<Rightarrow> (bytes \<Rightarrow> bytes) \<Rightarrow> (string, scalar) result" where
  "hash_to_bls_scalar C input hash = bls_attempts C input hash [0..<256]"

section \<open>Data\<close>

record Stage2P2bkTweakInfo =
  ephemeral_secret :: seckey
  ephemeral_pubkey :: pubkey
  ephemeral_shared_secret_x :: bytes
  stage2_tweak_scalar :: scalar

datatype Stage2Role = Sender | Receiver

datatype CommitmentMode = Ordinary | Rerandomized

definition is_ordinary :: "CommitmentMode \<Rightarrow> bool" where
  "is_ordinary mode = (mode = Ordinary)"

definition commitment_mode_from_str :: "string \<Rightarrow> (string, CommitmentMode) result" where
  "commitment_mode_from_str v =
     (if v = ''ordinary'' then Ok Ordinary
      else if v = ''rerandomized'' then Ok Rerandomized
      else Err ''invalid commitment_mode'')"

record ChannelParameters =
  commitment_mode :: CommitmentMode
  sender_pubkey :: pubkey
  receiver_pubkey :: pubkey
  mint :: string
  unit :: currency_unit
  capacity :: u64
  funding_token_amount :: u64
  expiry_timestamp :: u64
  setup_timestamp :: u64
  keyset_info :: KeysetInfo
  maximum_amount_for_one_output :: u64
  channel_secret :: bytes

fun stage2_context :: "Stage2Role \<Rightarrow> string" where
  "stage2_context Sender = ''sender_stage2''"
| "stage2_context Receiver = ''receiver_stage2''"

fun role_pubkey :: "Stage2Role \<Rightarrow> ChannelParameters \<Rightarrow> pubkey" where
  "role_pubkey Sender p = sender_pubkey p"
| "role_pubkey Receiver p = receiver_pubkey p"

section \<open>The channel secret and the blinded keys\<close>

definition compute_channel_secret :: "crypto \<Rightarrow> seckey \<Rightarrow> pubkey \<Rightarrow> bytes" where
  "compute_channel_secret C my_secret their_pubkey =
     (let raw_ecdh = shared_secret C their_pubkey my_secret
      in hkdf_expand C raw_ecdh (string_bytes ''Cashu_Spilman_channel_secret_v1''))"

definition derive_blinded_secret_key :: "crypto \<Rightarrow> seckey \<Rightarrow> scalar \<Rightarrow> (string, seckey) result" where
  "derive_blinded_secret_key C secret r =
     (let effective_secret =
            (if odd_y C (public_key C secret) then sk_negate C secret else secret)
      in map_err (\<lambda>e. ''Failed to add blinding tweak: '' @ e) (sk_add_tweak C effective_secret r))"

definition derive_blinded_pubkey :: "crypto \<Rightarrow> pubkey \<Rightarrow> scalar \<Rightarrow> (string, pubkey) result" where
  "derive_blinded_pubkey C pk r =
     (let effective_pubkey = (if odd_y C pk then pk_negate C pk else pk)
      in map_err (\<lambda>e. ''Failed to blind pubkey: '' @ e) (pk_add_exp_tweak C effective_pubkey r))"

section \<open>Constructors\<close>

definition capacity_error :: "u64 \<Rightarrow> u64 \<Rightarrow> u64 \<Rightarrow> string" where
  "capacity_error cap max_capacity funding =
     ''capacity '' @ show_u64 cap @ '' exceeds maximum achievable capacity '' @ show_u64 max_capacity
     @ '' for funding_token_amount '' @ show_u64 funding
     @ '' (capacity must be <= forward(forward(funding_token_amount)))''"

definition params_new ::
  "pubkey \<Rightarrow> pubkey \<Rightarrow> string \<Rightarrow> currency_unit \<Rightarrow> u64 \<Rightarrow> u64 \<Rightarrow> u64 \<Rightarrow> u64 \<Rightarrow> KeysetInfo \<Rightarrow> u64 \<Rightarrow> bytes
   \<Rightarrow> (string, ChannelParameters) run" where
  "params_new sender receiver mint_url u cap funding expiry setup ks max_amt secret =
     (if ki_input_fee_ppk ks > 999
      then Some (Err (''input_fee_ppk must be between 0 and 999 (inclusive), got ''
                        @ show_u64 (ki_input_fee_ppk ks)))
      else run_bind (deterministic_value_after_fees ks funding max_amt) (\<lambda>after_stage1.
           run_bind (deterministic_value_after_fees ks after_stage1 max_amt) (\<lambda>max_capacity.
           if cap > max_capacity then Some (Err (capacity_error cap max_capacity funding))
           else Some (Ok \<lparr>commitment_mode = Ordinary, sender_pubkey = sender,
                  receiver_pubkey = receiver, mint = trim_end_char (CHR ''/'') mint_url, unit = u,
                  capacity = cap, funding_token_amount = funding, expiry_timestamp = expiry,
                  setup_timestamp = setup, keyset_info = ks,
                  maximum_amount_for_one_output = max_amt, channel_secret = secret\<rparr>))))"

definition key_mismatch :: string where
  "key_mismatch = ''Secret key's public key doesn't match either sender_pubkey or receiver_pubkey''"

definition counterparty :: "crypto \<Rightarrow> seckey \<Rightarrow> pubkey \<Rightarrow> pubkey \<Rightarrow> (string, pubkey) result" where
  "counterparty C my_secret sender receiver =
     (let my_pubkey = public_key C my_secret in
      if my_pubkey = sender then Ok receiver
      else if my_pubkey = receiver then Ok sender
      else Err key_mismatch)"

definition new_with_secret_key ::
  "crypto \<Rightarrow> pubkey \<Rightarrow> pubkey \<Rightarrow> string \<Rightarrow> currency_unit \<Rightarrow> u64 \<Rightarrow> u64 \<Rightarrow> u64 \<Rightarrow> u64 \<Rightarrow> KeysetInfo \<Rightarrow> u64
   \<Rightarrow> seckey \<Rightarrow> (string, ChannelParameters) run" where
  "new_with_secret_key C sender receiver mint_url u cap funding expiry setup ks max_amt my_secret =
     run_bind (Some (counterparty C my_secret sender receiver)) (\<lambda>their_pubkey.
       params_new sender receiver mint_url u cap funding expiry setup ks max_amt
         (compute_channel_secret C my_secret their_pubkey))"

definition with_commitment_mode :: "ChannelParameters \<Rightarrow> CommitmentMode \<Rightarrow> ChannelParameters" where
  "with_commitment_mode p mode = p\<lparr>commitment_mode := mode\<rparr>"

definition get_capacity :: "ChannelParameters \<Rightarrow> u64" where
  "get_capacity p = capacity p"

definition unit_name :: "ChannelParameters \<Rightarrow> string" where
  "unit_name p = unit p"

section \<open>The channel id\<close>

definition channel_id_tlv_stream :: "crypto \<Rightarrow> ChannelParameters \<Rightarrow> bytes" where
  "channel_id_tlv_stream C p =
     (let stream = [];
          stream = append_tlv_record C stream 0 (tu64_bytes channel_id_encoding_version);
          stream = append_tlv_record C stream 2 (string_bytes (mint p));
          stream = append_tlv_record C stream 4 (string_bytes (unit_name p));
          stream = append_tlv_record C stream 6 (tu64_bytes (capacity p));
          stream = append_tlv_record C stream 8 (tu64_bytes (funding_token_amount p));
          stream = append_tlv_record C stream 10 (ki_keyset_id (keyset_info p));
          stream = append_tlv_record C stream 12 (tu64_bytes (ki_input_fee_ppk (keyset_info p)));
          stream = append_tlv_record C stream 14 (tu64_bytes (maximum_amount_for_one_output p));
          stream = append_tlv_record C stream 16 (sender_pubkey p);
          stream = append_tlv_record C stream 18 (receiver_pubkey p);
          stream = append_tlv_record C stream 20 (tu64_bytes (setup_timestamp p));
          stream = append_tlv_record C stream 22 (tu64_bytes (expiry_timestamp p));
          stream = append_tlv_record C stream 24 (channel_secret p)
      in if commitment_mode p = Rerandomized then append_tlv_record C stream 26 [1] else stream)"

definition get_channel_id_bytes :: "crypto \<Rightarrow> ChannelParameters \<Rightarrow> bytes" where
  "get_channel_id_bytes C p = tagged_sha256 C channel_id_tag (channel_id_tlv_stream C p)"

definition get_channel_id :: "crypto \<Rightarrow> ChannelParameters \<Rightarrow> string" where
  "get_channel_id C p = hex_encode C (get_channel_id_bytes C p)"

section \<open>The parameters as JSON\<close>

definition channel_id_params_value :: "codec \<Rightarrow> ChannelParameters \<Rightarrow> json" where
  "channel_id_params_value J p =
     JObj ([(''mint'', JStr (mint p)),
            (''unit'', JStr (unit_name p)),
            (''capacity'', JU64 (capacity p)),
            (''funding_token_amount'', JU64 (funding_token_amount p)),
            (''keyset_id'', JStr (id_to_string J (ki_keyset_id (keyset_info p)))),
            (''input_fee_ppk'', JU64 (ki_input_fee_ppk (keyset_info p))),
            (''maximum_amount_for_one_output'', JU64 (maximum_amount_for_one_output p)),
            (''setup_timestamp'', JU64 (setup_timestamp p)),
            (''sender_pubkey'', JStr (pk_to_hex J (sender_pubkey p))),
            (''receiver_pubkey'', JStr (pk_to_hex J (receiver_pubkey p))),
            (''expiry_timestamp'', JU64 (expiry_timestamp p))]
           @ (if commitment_mode p = Rerandomized
              then [(''commitment_mode'', JStr ''rerandomized'')] else []))"

definition get_channel_id_params_json :: "codec \<Rightarrow> ChannelParameters \<Rightarrow> string" where
  "get_channel_id_params_json J p = json_print J (channel_id_params_value J p)"

definition missing_field :: "string \<Rightarrow> string" where
  "missing_field k = ''Missing or invalid '' @ [CHR 0x27] @ k @ [CHR 0x27] @ '' field''"

definition str_field :: "json \<Rightarrow> string \<Rightarrow> (string, string) result" where
  "str_field v k = ok_or (missing_field k) (as_str (json_index v k))"

definition u64_field :: "json \<Rightarrow> string \<Rightarrow> (string, u64) result" where
  "u64_field v k = ok_or (missing_field k) (as_u64 (json_index v k))"

definition pubkey_field :: "codec \<Rightarrow> json \<Rightarrow> string \<Rightarrow> (string, pubkey) result" where
  "pubkey_field J v k =
     rbind (str_field v k) (\<lambda>hex. map_err (\<lambda>e. ''Invalid '' @ k @ '': '' @ e) (pk_parse J hex))"

text \<open>The derived deserialiser of a unit-only enum: a string, or an object with the one variant and null.\<close>

fun commitment_mode_from_value :: "json \<Rightarrow> (string, CommitmentMode) result" where
  "commitment_mode_from_value (JStr s) = commitment_mode_from_str s"
| "commitment_mode_from_value (JObj [(s, JNull)]) = commitment_mode_from_str s"
| "commitment_mode_from_value _ = Err ''invalid commitment_mode''"

definition parse_commitment_mode :: "json \<Rightarrow> (string, CommitmentMode) result" where
  "parse_commitment_mode v =
     (case json_get v ''commitment_mode'' of
        None \<Rightarrow> Ok Ordinary
      | Some value \<Rightarrow> commitment_mode_from_value value)"

definition parse_keyset_binding :: "codec \<Rightarrow> json \<Rightarrow> KeysetInfo \<Rightarrow> (string, unit) result" where
  "parse_keyset_binding J v ks =
     rbind (ok_or (missing_field ''keyset_id'')
              (or_else (as_str (json_index v ''keyset_id'')) (as_str (json_index v ''keysetId''))))
       (\<lambda>keyset_id_str.
     rbind (map_err (\<lambda>e. ''Invalid keyset_id: '' @ e) (id_parse J keyset_id_str)) (\<lambda>json_keyset_id.
     rbind (ok_or (missing_field ''input_fee_ppk'')
              (or_else (as_u64 (json_index v ''input_fee_ppk'')) (as_u64 (json_index v ''inputFeePpk''))))
       (\<lambda>json_input_fee_ppk.
     if ki_keyset_id ks \<noteq> json_keyset_id
     then Err (''keyset_id mismatch: JSON has '' @ id_to_string J json_keyset_id
               @ '', KeysetInfo has '' @ id_to_string J (ki_keyset_id ks))
     else if ki_input_fee_ppk ks \<noteq> json_input_fee_ppk
     then Err (''input_fee_ppk mismatch: JSON has '' @ show_u64 json_input_fee_ppk
               @ '', KeysetInfo has '' @ show_u64 (ki_input_fee_ppk ks))
     else Ok ())))"

record parsed_params =
  pp_mode :: CommitmentMode
  pp_mint :: string
  pp_unit :: currency_unit
  pp_capacity :: u64
  pp_funding :: u64
  pp_max :: u64
  pp_setup :: u64
  pp_sender :: pubkey
  pp_receiver :: pubkey
  pp_expiry :: u64

definition parse_params_value :: "codec \<Rightarrow> json \<Rightarrow> KeysetInfo \<Rightarrow> (string, parsed_params) result" where
  "parse_params_value J v ks =
     rbind (parse_commitment_mode v) (\<lambda>mode.
     rbind (parse_keyset_binding J v ks) (\<lambda>_.
     rbind (str_field v ''mint'') (\<lambda>mint_url.
     rbind (str_field v ''unit'') (\<lambda>unit_str.
     rbind (map_err (\<lambda>e. ''Invalid unit: '' @ e) (unit_from_str J unit_str)) (\<lambda>u.
     rbind (u64_field v ''capacity'') (\<lambda>cap.
     rbind (u64_field v ''funding_token_amount'') (\<lambda>funding.
     rbind (u64_field v ''maximum_amount_for_one_output'') (\<lambda>max_amt.
     rbind (u64_field v ''setup_timestamp'') (\<lambda>setup.
     rbind (pubkey_field J v ''sender_pubkey'') (\<lambda>sender.
     rbind (pubkey_field J v ''receiver_pubkey'') (\<lambda>receiver.
     rbind (u64_field v ''expiry_timestamp'') (\<lambda>expiry.
     Ok \<lparr>pp_mode = mode, pp_mint = mint_url, pp_unit = u, pp_capacity = cap, pp_funding = funding,
         pp_max = max_amt, pp_setup = setup, pp_sender = sender, pp_receiver = receiver,
         pp_expiry = expiry\<rparr>))))))))))))"

definition from_json_with_channel_secret ::
  "codec \<Rightarrow> string \<Rightarrow> KeysetInfo \<Rightarrow> bytes \<Rightarrow> (string, ChannelParameters) run" where
  "from_json_with_channel_secret J json_str ks secret =
     run_bind (Some (rbind (map_err (\<lambda>e. ''Invalid JSON: '' @ e) (json_parse J json_str))
                       (\<lambda>v. parse_params_value J v ks))) (\<lambda>pp.
     run_bind (params_new (pp_sender pp) (pp_receiver pp) (pp_mint pp) (pp_unit pp) (pp_capacity pp)
                 (pp_funding pp) (pp_expiry pp) (pp_setup pp) ks (pp_max pp) secret) (\<lambda>p.
     Some (Ok (with_commitment_mode p (pp_mode pp)))))"

definition from_json_with_secret_key ::
  "crypto \<Rightarrow> codec \<Rightarrow> string \<Rightarrow> KeysetInfo \<Rightarrow> seckey \<Rightarrow> (string, ChannelParameters) run" where
  "from_json_with_secret_key C J json_str ks my_secret =
     run_bind (Some (rbind (map_err (\<lambda>e. ''Invalid JSON: '' @ e) (json_parse J json_str)) (\<lambda>v.
                     rbind (pubkey_field J v ''sender_pubkey'') (\<lambda>sender.
                     rbind (pubkey_field J v ''receiver_pubkey'') (\<lambda>receiver.
                     counterparty C my_secret sender receiver))))) (\<lambda>their_pubkey.
     from_json_with_channel_secret J json_str ks (compute_channel_secret C my_secret their_pubkey))"

section \<open>Derived scalars and keys\<close>

definition derive_blinding_scalar :: "crypto \<Rightarrow> ChannelParameters \<Rightarrow> string \<Rightarrow> (string, scalar) result" where
  "derive_blinding_scalar C p context =
     (let message = string_bytes ''Cashu_Spilman_stage1_key_tweak_v1''
                    @ string_bytes (get_channel_id C p @ ''|'' @ context)
      in map_err (\<lambda>e. ''Failed to derive stage-1 blinding scalar: '' @ e)
           (hash_to_secp_scalar C message (hmac_sha256 C (channel_secret p))))"

definition stage2_ephemeral_message :: "crypto \<Rightarrow> ChannelParameters \<Rightarrow> string \<Rightarrow> u64 \<Rightarrow> usize \<Rightarrow> bytes" where
  "stage2_ephemeral_message C p context amount index =
     string_bytes ''Cashu_Spilman_P2BK_ephemeral_v1''
     @ string_bytes (get_channel_id C p @ ''|'' @ context @ ''|'' @ show_u64 amount @ ''|'' @ show_u64 index)"

definition derive_stage2_p2bk_ephemeral_secret_for_output ::
  "crypto \<Rightarrow> ChannelParameters \<Rightarrow> string \<Rightarrow> u64 \<Rightarrow> usize \<Rightarrow> (string, seckey) result" where
  "derive_stage2_p2bk_ephemeral_secret_for_output C p context amount index =
     rbind (map_err (\<lambda>e. ''Failed to derive stage-2 ephemeral secret: '' @ e)
              (hash_to_secp_scalar C (stage2_ephemeral_message C p context amount index)
                 (hmac_sha256 C (channel_secret p)))) (\<lambda>s.
     map_err (\<lambda>e. ''Invalid stage-2 ephemeral secret: '' @ e) (sk_from_slice C s))"

definition derive_nut28_shared_secret_x :: "crypto \<Rightarrow> pubkey \<Rightarrow> seckey \<Rightarrow> (string, bytes) result" where
  "derive_nut28_shared_secret_x C pk secret =
     rbind (pk_mul_tweak C pk secret) (\<lambda>shared_point. Ok (x_only C shared_point))"

definition derive_nut28_P2KB_shared_secret_scalar :: "crypto \<Rightarrow> bytes \<Rightarrow> byte \<Rightarrow> (string, scalar) result" where
  "derive_nut28_P2KB_shared_secret_scalar C zx i_byte =
     hash_to_secp_scalar C (string_bytes ''Cashu_P2BK_v1'' @ zx @ [i_byte]) (sha256 C)"

definition stage2_tweak_info_for_role ::
  "crypto \<Rightarrow> ChannelParameters \<Rightarrow> Stage2Role \<Rightarrow> u64 \<Rightarrow> usize \<Rightarrow> (string, Stage2P2bkTweakInfo) result" where
  "stage2_tweak_info_for_role C p role amount index =
     rbind (derive_stage2_p2bk_ephemeral_secret_for_output C p (stage2_context role) amount index)
       (\<lambda>secret.
     rbind (derive_nut28_shared_secret_x C (role_pubkey role p) secret) (\<lambda>zx.
     rbind (derive_nut28_P2KB_shared_secret_scalar C zx 0) (\<lambda>tweak.
     Ok \<lparr>ephemeral_secret = secret, ephemeral_pubkey = public_key C secret,
         ephemeral_shared_secret_x = zx, stage2_tweak_scalar = tweak\<rparr>)))"

definition get_sender_blinded_pubkey_for_stage1 :: "crypto \<Rightarrow> ChannelParameters \<Rightarrow> (string, pubkey) result" where
  "get_sender_blinded_pubkey_for_stage1 C p =
     rbind (derive_blinding_scalar C p ''sender_stage1'') (\<lambda>r. derive_blinded_pubkey C (sender_pubkey p) r)"

definition get_receiver_blinded_pubkey_for_stage1 :: "crypto \<Rightarrow> ChannelParameters \<Rightarrow> (string, pubkey) result" where
  "get_receiver_blinded_pubkey_for_stage1 C p =
     rbind (derive_blinding_scalar C p ''receiver_stage1'') (\<lambda>r. derive_blinded_pubkey C (receiver_pubkey p) r)"

definition get_sender_blinded_secret_key_for_stage1 :: "crypto \<Rightarrow> ChannelParameters \<Rightarrow> seckey \<Rightarrow> (string, seckey) result" where
  "get_sender_blinded_secret_key_for_stage1 C p secret =
     rbind (derive_blinding_scalar C p ''sender_stage1'') (\<lambda>r. derive_blinded_secret_key C secret r)"

definition derive_sender_blinding_scalar_for_stage1 :: "crypto \<Rightarrow> ChannelParameters \<Rightarrow> (string, scalar) result" where
  "derive_sender_blinding_scalar_for_stage1 C p = derive_blinding_scalar C p ''sender_stage1''"

definition derive_receiver_blinding_scalar_for_stage1 :: "crypto \<Rightarrow> ChannelParameters \<Rightarrow> (string, scalar) result" where
  "derive_receiver_blinding_scalar_for_stage1 C p = derive_blinding_scalar C p ''receiver_stage1''"

definition get_sender_blinded_pubkey_for_stage1_refund :: "crypto \<Rightarrow> ChannelParameters \<Rightarrow> (string, pubkey) result" where
  "get_sender_blinded_pubkey_for_stage1_refund C p =
     rbind (derive_blinding_scalar C p ''sender_stage1_refund'') (\<lambda>r. derive_blinded_pubkey C (sender_pubkey p) r)"

definition get_sender_blinded_secret_key_for_stage1_refund :: "crypto \<Rightarrow> ChannelParameters \<Rightarrow> seckey \<Rightarrow> (string, seckey) result" where
  "get_sender_blinded_secret_key_for_stage1_refund C p secret =
     rbind (derive_blinding_scalar C p ''sender_stage1_refund'') (\<lambda>r. derive_blinded_secret_key C secret r)"

definition get_receiver_blinded_secret_key_for_stage1 :: "crypto \<Rightarrow> ChannelParameters \<Rightarrow> seckey \<Rightarrow> (string, seckey) result" where
  "get_receiver_blinded_secret_key_for_stage1 C p secret =
     rbind (derive_blinding_scalar C p ''receiver_stage1'') (\<lambda>r. derive_blinded_secret_key C secret r)"

definition get_sender_blinded_pubkey_for_stage2_output ::
  "crypto \<Rightarrow> ChannelParameters \<Rightarrow> u64 \<Rightarrow> usize \<Rightarrow> (string, pubkey) result" where
  "get_sender_blinded_pubkey_for_stage2_output C p amount index =
     rbind (stage2_tweak_info_for_role C p Sender amount index) (\<lambda>t.
     derive_blinded_pubkey C (sender_pubkey p) (stage2_tweak_scalar t))"

definition get_receiver_blinded_pubkey_for_stage2_output ::
  "crypto \<Rightarrow> ChannelParameters \<Rightarrow> u64 \<Rightarrow> usize \<Rightarrow> (string, pubkey) result" where
  "get_receiver_blinded_pubkey_for_stage2_output C p amount index =
     rbind (stage2_tweak_info_for_role C p Receiver amount index) (\<lambda>t.
     derive_blinded_pubkey C (receiver_pubkey p) (stage2_tweak_scalar t))"

definition get_sender_blinded_secret_key_for_stage2_output ::
  "crypto \<Rightarrow> ChannelParameters \<Rightarrow> seckey \<Rightarrow> u64 \<Rightarrow> usize \<Rightarrow> (string, seckey) result" where
  "get_sender_blinded_secret_key_for_stage2_output C p secret amount index =
     rbind (stage2_tweak_info_for_role C p Sender amount index) (\<lambda>t.
     derive_blinded_secret_key C secret (stage2_tweak_scalar t))"

definition get_receiver_blinded_secret_key_for_stage2_output ::
  "crypto \<Rightarrow> ChannelParameters \<Rightarrow> seckey \<Rightarrow> u64 \<Rightarrow> usize \<Rightarrow> (string, seckey) result" where
  "get_receiver_blinded_secret_key_for_stage2_output C p secret amount index =
     rbind (stage2_tweak_info_for_role C p Receiver amount index) (\<lambda>t.
     derive_blinded_secret_key C secret (stage2_tweak_scalar t))"

definition get_stage2_blinded_pubkey_for_stage1_output ::
  "crypto \<Rightarrow> ChannelParameters \<Rightarrow> string \<Rightarrow> u64 \<Rightarrow> usize \<Rightarrow> (string, pubkey) result" where
  "get_stage2_blinded_pubkey_for_stage1_output C p context amount index =
     (if context = ''receiver'' then get_receiver_blinded_pubkey_for_stage2_output C p amount index
      else if context = ''sender'' then get_sender_blinded_pubkey_for_stage2_output C p amount index
      else if context = ''funding''
      then Err ''Funding context requires 2-of-2 blinded pubkeys, use new_funding() instead''
      else Err (''Unknown context: '' @ context))"

definition stage2_p2pk_e_for_role ::
  "crypto \<Rightarrow> ChannelParameters \<Rightarrow> Stage2Role \<Rightarrow> u64 \<Rightarrow> usize \<Rightarrow> (string, pubkey) result" where
  "stage2_p2pk_e_for_role C p role amount index =
     rbind (stage2_tweak_info_for_role C p role amount index) (\<lambda>t. Ok (ephemeral_pubkey t))"

section \<open>The two fee stages\<close>

definition get_minimum_funding_token_amount :: "u64 \<Rightarrow> KeysetInfo \<Rightarrow> u64 \<Rightarrow> (string, u64) run" where
  "get_minimum_funding_token_amount cap ks max_amt =
     run_bind (inverse_deterministic_value_after_fees ks cap max_amt) (\<lambda>first_inverse.
     run_bind (inverse_deterministic_value_after_fees ks (nominal_value first_inverse) max_amt)
       (\<lambda>second_inverse. Some (Ok (nominal_value second_inverse))))"

definition get_total_funding_token_amount :: "ChannelParameters \<Rightarrow> (string, u64) run" where
  "get_total_funding_token_amount p = Some (Ok (funding_token_amount p))"

definition get_value_after_stage1_with_keyset :: "ChannelParameters \<Rightarrow> KeysetInfo \<Rightarrow> (string, u64) run" where
  "get_value_after_stage1_with_keyset p ks =
     deterministic_value_after_fees ks (funding_token_amount p) (maximum_amount_for_one_output p)"

definition get_value_after_stage1 :: "ChannelParameters \<Rightarrow> (string, u64) run" where
  "get_value_after_stage1 p = get_value_after_stage1_with_keyset p (keyset_info p)"

definition get_de_facto_balance :: "ChannelParameters \<Rightarrow> u64 \<Rightarrow> (string, u64) run" where
  "get_de_facto_balance p intended_balance =
     run_bind (inverse_deterministic_value_after_fees (keyset_info p) intended_balance
                 (maximum_amount_for_one_output p)) (\<lambda>r.
     deterministic_value_after_fees (keyset_info p) (nominal_value r) (maximum_amount_for_one_output p))"

section \<open>What the channel id commits to\<close>

text \<open>The records of the channel id's stream, in order.\<close>

definition channel_id_records :: "ChannelParameters \<Rightarrow> (u64 \<times> bytes) list" where
  "channel_id_records p =
     [(0, tu64_bytes channel_id_encoding_version), (2, string_bytes (mint p)),
      (4, string_bytes (unit_name p)), (6, tu64_bytes (capacity p)),
      (8, tu64_bytes (funding_token_amount p)), (10, ki_keyset_id (keyset_info p)),
      (12, tu64_bytes (ki_input_fee_ppk (keyset_info p))),
      (14, tu64_bytes (maximum_amount_for_one_output p)), (16, sender_pubkey p),
      (18, receiver_pubkey p), (20, tu64_bytes (setup_timestamp p)),
      (22, tu64_bytes (expiry_timestamp p)), (24, channel_secret p)]
     @ (if commitment_mode p = Rerandomized then [(26, [1])] else [])"

lemma channel_id_stream_records:
  "channel_id_tlv_stream C p = tlv_stream C (channel_id_records p)"
  by (simp add: channel_id_tlv_stream_def channel_id_records_def append_tlv_record_def tlv_stream_def
      tlv_record_def Let_def)

text \<open>Every variable-length field fits the address space.\<close>

definition params_sized :: "ChannelParameters \<Rightarrow> bool" where
  "params_sized p \<longleftrightarrow> length (mint p) < 2 ^ 64 \<and> length (unit p) < 2 ^ 64 \<and>
     length (ki_keyset_id (keyset_info p)) < 2 ^ 64 \<and> length (sender_pubkey p) < 2 ^ 64 \<and>
     length (receiver_pubkey p) < 2 ^ 64 \<and> length (channel_secret p) < 2 ^ 64"

lemma channel_id_records_sized:
  assumes "params_sized p" "r \<in> set (channel_id_records p)"
  shows "length (snd r) < 2 ^ 64"
proof -
  have tu: "length (tu64_bytes w) < 2 ^ 64" for w using length_tu64_bytes [of w] by simp
  show ?thesis
    using assms tu unfolding channel_id_records_def params_sized_def unit_name_def
    by (simp split: if_splits) (elim disjE; simp)
qed

definition same_channel :: "ChannelParameters \<Rightarrow> ChannelParameters \<Rightarrow> bool" where
  "same_channel p q \<longleftrightarrow>
     commitment_mode p = commitment_mode q \<and> sender_pubkey p = sender_pubkey q \<and>
     receiver_pubkey p = receiver_pubkey q \<and> mint p = mint q \<and> unit p = unit q \<and>
     capacity p = capacity q \<and> funding_token_amount p = funding_token_amount q \<and>
     expiry_timestamp p = expiry_timestamp q \<and> setup_timestamp p = setup_timestamp q \<and>
     ki_keyset_id (keyset_info p) = ki_keyset_id (keyset_info q) \<and>
     ki_input_fee_ppk (keyset_info p) = ki_input_fee_ppk (keyset_info q) \<and>
     maximum_amount_for_one_output p = maximum_amount_for_one_output q \<and>
     channel_secret p = channel_secret q"

lemma channel_id_records_inj:
  assumes "channel_id_records p = channel_id_records q"
  shows "same_channel p q"
proof -
  have "commitment_mode p = commitment_mode q"
    using assms by (cases "commitment_mode p"; cases "commitment_mode q")
      (simp_all add: channel_id_records_def)
  then show ?thesis
    using assms by (simp add: channel_id_records_def same_channel_def unit_name_def)
qed

section \<open>Properties\<close>


definition example_params :: "u64 \<Rightarrow> CommitmentMode \<Rightarrow> ChannelParameters" where
  "example_params cap mode =
     \<lparr>commitment_mode = mode, sender_pubkey = [2, 1], receiver_pubkey = [3, 1], mint = ''https://m'',
      unit = ''sat'', capacity = cap, funding_token_amount = 12, expiry_timestamp = 200,
      setup_timestamp = 100, keyset_info = example_keyset [1, 2, 4, 8] 100,
      maximum_amount_for_one_output = 0, channel_secret = [7]\<rparr>"

lemma example_params_sized: "params_sized (example_params cap mode)"
  by (simp add: params_sized_def example_params_def example_keyset_def keyset_info_new_def)


text \<open>The secret key a party derives signs for the public key the other party derives.\<close>

lemma blinded_keys_match:
  assumes "secp_laws C" "derive_blinded_secret_key C s r = Ok k"
  shows "derive_blinded_pubkey C (public_key C s) r = Ok (public_key C k)"
proof -
  have neg: "public_key C (sk_negate C s) = pk_negate C (public_key C s)"
    and add: "sk_add_tweak C t r = Ok k \<Longrightarrow> pk_add_exp_tweak C (public_key C t) r = Ok (public_key C k)" for t
    using assms(1) by (simp_all add: secp_laws_def)
  show ?thesis
    using assms(2) add [of s] add [of "sk_negate C s"]
    by (cases "odd_y C (public_key C s)")
      (simp_all add: derive_blinded_secret_key_def derive_blinded_pubkey_def Let_def neg)
qed

lemma rbind_blinded:
  assumes "secp_laws C" "rbind m (\<lambda>t. derive_blinded_secret_key C s (f t)) = Ok k"
  shows "rbind m (\<lambda>t. derive_blinded_pubkey C (public_key C s) (f t)) = Ok (public_key C k)"
proof (cases m)
  case (Inr t)
  then show ?thesis using assms(2) blinded_keys_match [OF assms(1), of s "f t" k] by simp
qed (use assms(2) in simp)

text \<open>C20: for every key a channel derives (both parties in stage 1, the refund key, and both parties' key of each
  stage-2 output), the derived secret key belongs to the derived public key, whatever the parity of
  the party's own key.\<close>

theorem derived_keys_correspond:
  assumes "secp_laws C" "public_key C a = sender_pubkey p" "public_key C c = receiver_pubkey p"
  shows "(get_sender_blinded_secret_key_for_stage1 C p a = Ok k \<longrightarrow>
            get_sender_blinded_pubkey_for_stage1 C p = Ok (public_key C k)) \<and>
         (get_receiver_blinded_secret_key_for_stage1 C p c = Ok k \<longrightarrow>
            get_receiver_blinded_pubkey_for_stage1 C p = Ok (public_key C k)) \<and>
         (get_sender_blinded_secret_key_for_stage1_refund C p a = Ok k \<longrightarrow>
            get_sender_blinded_pubkey_for_stage1_refund C p = Ok (public_key C k)) \<and>
         (get_sender_blinded_secret_key_for_stage2_output C p a amount index = Ok k \<longrightarrow>
            get_stage2_blinded_pubkey_for_stage1_output C p ''sender'' amount index = Ok (public_key C k)) \<and>
         (get_receiver_blinded_secret_key_for_stage2_output C p c amount index = Ok k \<longrightarrow>
            get_stage2_blinded_pubkey_for_stage1_output C p ''receiver'' amount index = Ok (public_key C k))"
proof (intro conjI impI)
  note match = rbind_blinded [OF assms(1)] and pk = assms(2,3) [symmetric]
  show "get_sender_blinded_pubkey_for_stage1 C p = Ok (public_key C k)"
    if "get_sender_blinded_secret_key_for_stage1 C p a = Ok k"
    using that unfolding get_sender_blinded_secret_key_for_stage1_def
      get_sender_blinded_pubkey_for_stage1_def pk by (rule match)
  show "get_receiver_blinded_pubkey_for_stage1 C p = Ok (public_key C k)"
    if "get_receiver_blinded_secret_key_for_stage1 C p c = Ok k"
    using that unfolding get_receiver_blinded_secret_key_for_stage1_def
      get_receiver_blinded_pubkey_for_stage1_def pk by (rule match)
  show "get_sender_blinded_pubkey_for_stage1_refund C p = Ok (public_key C k)"
    if "get_sender_blinded_secret_key_for_stage1_refund C p a = Ok k"
    using that unfolding get_sender_blinded_secret_key_for_stage1_refund_def
      get_sender_blinded_pubkey_for_stage1_refund_def pk by (rule match)
  have "get_sender_blinded_pubkey_for_stage2_output C p amount index = Ok (public_key C k)"
    if "get_sender_blinded_secret_key_for_stage2_output C p a amount index = Ok k"
    using that unfolding get_sender_blinded_secret_key_for_stage2_output_def
      get_sender_blinded_pubkey_for_stage2_output_def pk by (rule match)
  then show "get_stage2_blinded_pubkey_for_stage1_output C p ''sender'' amount index = Ok (public_key C k)"
    if "get_sender_blinded_secret_key_for_stage2_output C p a amount index = Ok k"
    using that by (simp add: get_stage2_blinded_pubkey_for_stage1_output_def)
  have "get_receiver_blinded_pubkey_for_stage2_output C p amount index = Ok (public_key C k)"
    if "get_receiver_blinded_secret_key_for_stage2_output C p c amount index = Ok k"
    using that unfolding get_receiver_blinded_secret_key_for_stage2_output_def
      get_receiver_blinded_pubkey_for_stage2_output_def pk by (rule match)
  then show "get_stage2_blinded_pubkey_for_stage1_output C p ''receiver'' amount index = Ok (public_key C k)"
    if "get_receiver_blinded_secret_key_for_stage2_output C p c amount index = Ok k"
    using that by (simp add: get_stage2_blinded_pubkey_for_stage1_output_def)
qed

lemma example_scalar:
  assumes "hd (channel_secret p) \<noteq> 0" "channel_secret p \<noteq> []"
  shows "hash_to_secp_scalar example_crypto input (hmac_sha256 example_crypto (channel_secret p)) =
    Ok (channel_secret p @ input)"
proof -
  have "hd scalar_zero = 0" by (simp add: scalar_zero_def)
  then have "channel_secret p @ input \<noteq> scalar_zero" using assms by (metis hd_append2)
  then show ?thesis by (simp add: hash_to_secp_scalar_def nonzero_scalar_def example_crypto_def)
qed

theorem derived_keys_correspond_witness:
  "\<exists>k. get_sender_blinded_secret_key_for_stage1 example_crypto (example_params 5 Ordinary) [2, 1] = Ok k \<and>
       get_sender_blinded_pubkey_for_stage1 example_crypto (example_params 5 Ordinary) =
         Ok (public_key example_crypto k)"
proof -
  have pk: "public_key example_crypto [2, 1] = sender_pubkey (example_params 5 Ordinary)"
    "public_key example_crypto [3, 1] = receiver_pubkey (example_params 5 Ordinary)"
    by (simp_all add: example_crypto_def example_params_def)
  have "is_ok (get_sender_blinded_secret_key_for_stage1 example_crypto (example_params 5 Ordinary) [2, 1])"
    using example_scalar [of "example_params 5 Ordinary"]
    by (simp add: get_sender_blinded_secret_key_for_stage1_def derive_blinding_scalar_def Let_def
        derive_blinded_secret_key_def) (simp add: example_params_def example_crypto_def)
  then obtain k where
    "get_sender_blinded_secret_key_for_stage1 example_crypto (example_params 5 Ordinary) [2, 1] = Ok k"
    by (auto simp: is_ok_def split: sum.splits)
  then show ?thesis using derived_keys_correspond [OF example_secp_laws pk] by blast
qed

text \<open>C21: the sender and the receiver, each from its own secret key and the other's public key, construct the
  same parameters, hence the same channel secret and channel id, or fail with the same error.\<close>

theorem parties_agree:
  assumes "ecdh_symmetric C" "public_key C a = sender" "public_key C c = receiver"
  shows "new_with_secret_key C sender receiver mint_url u cap funding expiry setup ks max_amt a =
         new_with_secret_key C sender receiver mint_url u cap funding expiry setup ks max_amt c"
proof -
  have "compute_channel_secret C a receiver = compute_channel_secret C c sender"
    using assms unfolding compute_channel_secret_def ecdh_symmetric_def by metis
  then show ?thesis
    using assms(2,3) by (simp add: new_with_secret_key_def counterparty_def Let_def)
qed

theorem parties_agree_witness:
  "new_with_secret_key example_crypto [2] [3] ''m'' ''sat'' 5 12 9 8 (example_keyset [1, 2] 0) 0 [2] =
   new_with_secret_key example_crypto [2] [3] ''m'' ''sat'' 5 12 9 8 (example_keyset [1, 2] 0) 0 [3]"
  by (rule parties_agree [OF example_ecdh_symmetric]) (simp_all add: example_crypto_def)

text \<open>What the constructor accepts: the fee is below one unit per output, the capacity survives two fee stages,
  and the mint address has no trailing slash.\<close>

lemma params_new_OkD:
  assumes "params_new sender receiver mint_url u cap funding expiry setup ks max_amt secret = Some (Ok p)"
  shows "ki_input_fee_ppk ks \<le> 999"
    and "\<exists>v1 v2. deterministic_value_after_fees ks funding max_amt = Some (Ok v1) \<and>
           deterministic_value_after_fees ks v1 max_amt = Some (Ok v2) \<and> cap \<le> v2"
    and "p = \<lparr>commitment_mode = Ordinary, sender_pubkey = sender, receiver_pubkey = receiver,
              mint = trim_end_char (CHR ''/'') mint_url, unit = u, capacity = cap,
              funding_token_amount = funding, expiry_timestamp = expiry, setup_timestamp = setup,
              keyset_info = ks, maximum_amount_for_one_output = max_amt, channel_secret = secret\<rparr>"
  using assms by (auto simp: params_new_def run_bind_eq_Ok not_less split: if_splits)

lemma params_new_OkI:
  assumes "ki_input_fee_ppk ks \<le> 999"
    "deterministic_value_after_fees ks funding max_amt = Some (Ok v1)"
    "deterministic_value_after_fees ks v1 max_amt = Some (Ok v2)" "cap \<le> v2"
  shows "\<exists>p. params_new sender receiver mint_url u cap funding expiry setup ks max_amt secret = Some (Ok p)"
  using assms by (simp add: params_new_def not_less)



text \<open>The balance a channel can actually pay is at least the intended one, and is a fixed point: asking for
  it again gives the same balance.\<close>

lemma de_facto_balance_fixed:
  assumes "get_de_facto_balance p intended = Some (Ok b)"
  shows "intended \<le> b \<and> get_de_facto_balance p b = Some (Ok b)"
proof -
  obtain r where r: "inverse_deterministic_value_after_fees (keyset_info p) intended
      (maximum_amount_for_one_output p) = Some (Ok r)"
    "deterministic_value_after_fees (keyset_info p) (nominal_value r)
      (maximum_amount_for_one_output p) = Some (Ok b)"
    using assms by (auto simp: get_de_facto_balance_def run_bind_eq_Ok)
  have b: "b = actual_balance r" using ks_fees.inv_exact [OF r] .
  then show ?thesis
    using ks_fees.inv_reach [OF r(1)] ks_fees.inv_again [OF r(1)] r(2)
    by (simp add: get_de_facto_balance_def)
qed

section \<open>The JSON form round-trips\<close>

text \<open>The encodings read back what they wrote, for the values of one channel.\<close>

definition codec_faithful :: "codec \<Rightarrow> ChannelParameters \<Rightarrow> bool" where
  "codec_faithful J p \<longleftrightarrow>
     json_parse J (json_print J (channel_id_params_value J p)) = Ok (channel_id_params_value J p) \<and>
     pk_parse J (pk_to_hex J (sender_pubkey p)) = Ok (sender_pubkey p) \<and>
     pk_parse J (pk_to_hex J (receiver_pubkey p)) = Ok (receiver_pubkey p) \<and>
     id_parse J (id_to_string J (ki_keyset_id (keyset_info p))) = Ok (ki_keyset_id (keyset_info p)) \<and>
     unit_from_str J (unit_name p) = Ok (unit p)"

lemma params_value_get:
  "json_get (channel_id_params_value J p) ''commitment_mode'' =
     (if commitment_mode p = Rerandomized then Some (JStr ''rerandomized'') else None)"
  "json_get (channel_id_params_value J p) ''mint'' = Some (JStr (mint p))"
  "json_get (channel_id_params_value J p) ''unit'' = Some (JStr (unit_name p))"
  "json_get (channel_id_params_value J p) ''capacity'' = Some (JU64 (capacity p))"
  "json_get (channel_id_params_value J p) ''funding_token_amount'' = Some (JU64 (funding_token_amount p))"
  "json_get (channel_id_params_value J p) ''keyset_id'' =
     Some (JStr (id_to_string J (ki_keyset_id (keyset_info p))))"
  "json_get (channel_id_params_value J p) ''input_fee_ppk'' = Some (JU64 (ki_input_fee_ppk (keyset_info p)))"
  "json_get (channel_id_params_value J p) ''maximum_amount_for_one_output'' =
     Some (JU64 (maximum_amount_for_one_output p))"
  "json_get (channel_id_params_value J p) ''setup_timestamp'' = Some (JU64 (setup_timestamp p))"
  "json_get (channel_id_params_value J p) ''sender_pubkey'' = Some (JStr (pk_to_hex J (sender_pubkey p)))"
  "json_get (channel_id_params_value J p) ''receiver_pubkey'' = Some (JStr (pk_to_hex J (receiver_pubkey p)))"
  "json_get (channel_id_params_value J p) ''expiry_timestamp'' = Some (JU64 (expiry_timestamp p))"
  by (simp_all add: channel_id_params_value_def)

lemma parse_params_value_roundtrip:
  assumes "codec_faithful J p"
  shows "parse_params_value J (channel_id_params_value J p) (keyset_info p) =
    Ok \<lparr>pp_mode = commitment_mode p, pp_mint = mint p, pp_unit = unit p, pp_capacity = capacity p,
        pp_funding = funding_token_amount p, pp_max = maximum_amount_for_one_output p,
        pp_setup = setup_timestamp p, pp_sender = sender_pubkey p, pp_receiver = receiver_pubkey p,
        pp_expiry = expiry_timestamp p\<rparr>"
proof -
  have mode: "parse_commitment_mode (channel_id_params_value J p) = Ok (commitment_mode p)"
    by (cases "commitment_mode p")
      (simp_all add: parse_commitment_mode_def params_value_get commitment_mode_from_str_def)
  have binding: "parse_keyset_binding J (channel_id_params_value J p) (keyset_info p) = Ok ()"
    using assms by (simp add: parse_keyset_binding_def json_index_def params_value_get or_else_def
        codec_faithful_def)
  show ?thesis
    using assms
    by (simp add: parse_params_value_def mode binding str_field_def u64_field_def pubkey_field_def
        json_index_def params_value_get codec_faithful_def)
qed

text \<open>C23: parameters accepted by the constructor survive their JSON form: reading it back with the same keyset and
  channel secret gives the same parameters, the commitment mode included.\<close>

theorem params_json_roundtrip:
  assumes "params_new sender receiver mint_url u cap funding expiry setup ks max_amt secret = Some (Ok p0)"
    and "codec_faithful J (with_commitment_mode p0 mode)"
  shows "from_json_with_channel_secret J (get_channel_id_params_json J (with_commitment_mode p0 mode)) ks secret =
    Some (Ok (with_commitment_mode p0 mode))"
proof -
  note p0 = params_new_OkD(3) [OF assms(1)]
  have ks: "keyset_info (with_commitment_mode p0 mode) = ks"
    by (simp add: p0 with_commitment_mode_def)
  have "params_new sender receiver (trim_end_char (CHR ''/'') mint_url) u cap funding expiry setup ks
      max_amt secret = Some (Ok p0)"
    using assms(1) by (simp only: params_new_def trim_end_char_idem)
  then show ?thesis
    using assms(2) parse_params_value_roundtrip [OF assms(2)] unfolding ks
    by (simp add: from_json_with_channel_secret_def get_channel_id_params_json_def codec_faithful_def)
      (simp add: p0 with_commitment_mode_def)
qed

lemma example_codec_faithful:
  "codec_faithful (example_codec (channel_id_params_value (example_codec JNull) p)) p"
proof -
  have "string_bytes (map (\<lambda>b. char_of (unat b)) bs) = bs" for bs
    using unat_byte_less by (induction bs) simp_all
  then show ?thesis
    by (simp add: codec_faithful_def channel_id_params_value_def example_codec_def unit_name_def)
qed

theorem params_json_roundtrip_witness:
  "\<exists>p J. from_json_with_channel_secret J (get_channel_id_params_json J p) (example_keyset [1, 2] 0) [7] = Some (Ok p)"
proof -
  obtain p0 where "params_new [2] [3] ''m/'' ''sat'' 5 12 9 8 (example_keyset [1, 2] 0) 0 [7] = Some (Ok p0)"
  proof -
    have "\<exists>p. params_new [2] [3] ''m/'' ''sat'' 5 12 9 8 (example_keyset [1, 2] 0) 0 [7] = Some (Ok p)"
      by (rule params_new_OkI [where ?v1.0 = 12 and ?v2.0 = 12]) (code_simp)+
    then show ?thesis using that by blast
  qed
  from params_json_roundtrip [OF this example_codec_faithful, of Rerandomized] show ?thesis by blast
qed

end
