(* ===== verification/SwapCompletion.thy ===== *)
theory SwapCompletion
  imports External "HOL-Library.Multiset"
begin

text \<open>
  Completing a swap: \<open>crates/cdk-spilman/src/swap_completion.rs\<close> and the exact-completion functions of
  \<open>crates/cdk-spilman/src/bindings.rs\<close> it rests on.

  A prepared request keeps, for each output, the secret and the blinding factor.  Signatures come back
  in the order of the request (a swap) or in any order together with their outputs (a restore), and are
  accepted only if they answer the request exactly.
\<close>

section \<open>Data\<close>

record PreparedOutput =
  po_blinded_message :: BlindedMessage
  po_secret :: string
  po_blinding_factor :: seckey

record PreparedSwapOutput =
  ps_blinded_message :: BlindedMessage
  ps_secret :: string
  ps_blinding_factor :: seckey

section \<open>Matching a restore response\<close>

fun position :: "('a \<Rightarrow> bool) \<Rightarrow> 'a list \<Rightarrow> nat option" where
  "position P [] = None"
| "position P (x # xs) = (if P x then Some 0 else map_option Suc (position P xs))"

fun match_outputs ::
  "string \<Rightarrow> BlindedMessage list \<Rightarrow> (BlindedMessage \<times> BlindSignature) list \<Rightarrow> BlindSignature option list
   \<Rightarrow> (string, BlindSignature option list) result" where
  "match_outputs role expected [] matched = Ok matched"
| "match_outputs role expected ((output, signature) # rest) matched =
     (case position (\<lambda>e. e = output) expected of
        None \<Rightarrow> Err (role @ '' restore returned an unknown output'')
      | Some i \<Rightarrow>
          if matched ! i \<noteq> None then Err (role @ '' restore returned a duplicate output'')
          else match_outputs role expected rest (matched[i := Some signature]))"

definition collect_matched ::
  "string \<Rightarrow> BlindSignature option list \<Rightarrow> (string, BlindSignature list) result" where
  "collect_matched role matched =
     traverse (\<lambda>(i, s). ok_or (role @ '' restore omitted expected output '' @ show_nat i) s)
       (enumerate 0 matched)"

definition match_restore_response ::
  "RestoreResponse \<Rightarrow> BlindedMessage list \<Rightarrow> string \<Rightarrow> (string, BlindSignature list) result" where
  "match_restore_response response expected role =
     (if length (rr_outputs response) \<noteq> length (rr_signatures response)
      then Err (role @ '' restore output/signature count mismatch: ''
                  @ show_nat (length (rr_outputs response)) @ '' outputs, ''
                  @ show_nat (length (rr_signatures response)) @ '' signatures'')
      else if length (rr_outputs response) \<noteq> length expected
      then Err (role @ '' restore count mismatch: expected '' @ show_nat (length expected)
                  @ '', got '' @ show_nat (length (rr_outputs response)))
      else rbind (match_outputs role expected (zip (rr_outputs response) (rr_signatures response))
                    (replicate (length expected) None))
             (collect_matched role))"

section \<open>Completing exactly\<close>

fun try_sum :: "string \<Rightarrow> u64 \<Rightarrow> u64 list \<Rightarrow> (string, u64) result" where
  "try_sum e acc [] = Ok acc"
| "try_sum e acc (x # xs) =
     (case checked_add acc x of None \<Rightarrow> Err e | Some t \<Rightarrow> try_sum e t xs)"

definition check_signature ::
  "crypto \<Rightarrow> codec \<Rightarrow> KeysetInfo \<Rightarrow> nat \<Rightarrow> BlindSignature \<Rightarrow> PreparedOutput \<Rightarrow> (string, unit) result" where
  "check_signature C J ks index signature output =
     (let message = po_blinded_message output in
      if bs_amount signature \<noteq> bm_amount message
      then Err (''Signature '' @ show_nat index @ '' amount mismatch: expected ''
                  @ show_u64 (bm_amount message) @ '', got '' @ show_u64 (bs_amount signature))
      else if bs_keyset_id signature \<noteq> bm_keyset_id message
      then Err (''Signature '' @ show_nat index @ '' keyset mismatch: expected ''
                  @ id_to_string J (bm_keyset_id message) @ '', got ''
                  @ id_to_string J (bs_keyset_id signature))
      else rbind (ok_or (''Missing denomination key for signature '' @ show_nat index)
                    (amount_key (active_keys ks) (bm_amount message))) (\<lambda>mint_key.
           map_err (\<lambda>e. ''Invalid DLEQ for signature '' @ show_nat index @ '': '' @ e)
             (bs_verify_dleq C signature mint_key (bm_blinded_secret message))))"

fun check_signatures ::
  "crypto \<Rightarrow> codec \<Rightarrow> KeysetInfo \<Rightarrow> nat \<Rightarrow> BlindSignature list \<Rightarrow> PreparedOutput list \<Rightarrow> (string, unit) result" where
  "check_signatures C J ks index (s # ss) (p # ps) =
     rbind (check_signature C J ks index s p) (\<lambda>_. check_signatures C J ks (Suc index) ss ps)"
| "check_signatures C J ks index _ _ = Ok ()"

definition complete_exact_signatures ::
  "crypto \<Rightarrow> codec \<Rightarrow> BlindSignature list \<Rightarrow> PreparedOutput list \<Rightarrow> KeysetInfo \<Rightarrow> BlindedMessage list option
   \<Rightarrow> (string, Proof list) result" where
  "complete_exact_signatures C J signatures expected ks exact_outputs =
     (if length signatures \<noteq> length expected
      then Err (''Signature count mismatch: expected '' @ show_nat (length expected) @ '', got ''
                  @ show_nat (length signatures))
      else if (case exact_outputs of
                 None \<Rightarrow> False
               | Some exact \<Rightarrow> exact \<noteq> map po_blinded_message expected)
      then Err ''Prepared blinded outputs do not match opening secrets''
      else rbind (try_sum ''Expected output total overflow'' 0
                    (map (bm_amount \<circ> po_blinded_message) expected)) (\<lambda>expected_total.
           rbind (try_sum ''Response signature total overflow'' 0 (map bs_amount signatures))
             (\<lambda>response_total.
           if response_total \<noteq> expected_total
           then Err (''Signature total mismatch: expected '' @ show_u64 expected_total @ '', got ''
                       @ show_u64 response_total)
           else rbind (check_signatures C J ks 0 signatures expected) (\<lambda>_.
                map_err (\<lambda>e. ''Failed to construct proofs: '' @ e)
                  (construct_proofs C signatures (map po_blinding_factor expected)
                     (map po_secret expected) (active_keys ks))))))"

section \<open>Ordinary and rerandomized swaps\<close>

definition swap_authorization_digest :: "crypto \<Rightarrow> SwapRequest \<Rightarrow> bytes" where
  "swap_authorization_digest C request = sig_all_message_hash C request"

definition swap_restore_request ::
  "crypto \<Rightarrow> SwapRequest \<Rightarrow> bytes option \<Rightarrow> (string, BlindedMessage list) result" where
  "swap_restore_request C request r =
     (if sr_outputs request = [] then Err ''empty prepared swap outputs''
      else if \<not> distinct (map bm_blinded_secret (sr_outputs request))
      then Err ''duplicate prepared swap outputs''
      else case (sr_rerandomized request, r) of
             (False, None) \<Rightarrow> Ok (sr_outputs request)
           | (True, Some r) \<Rightarrow>
               map_err (\<lambda>_. ''invalid derived swap points'') (tweak_swap_outputs C r (sr_outputs request))
           | _ \<Rightarrow> Err ''swap mode/randomness mismatch'')"

definition effective_blinding :: "crypto \<Rightarrow> scalar option \<Rightarrow> seckey \<Rightarrow> (string, seckey) result" where
  "effective_blinding C tweak blinding_factor =
     (case tweak of
        None \<Rightarrow> Ok blinding_factor
      | Some t \<Rightarrow>
          rbind (map_err (\<lambda>_. ''invalid original blinding scalar'') (sk_from_slice C blinding_factor))
            (\<lambda>original.
          rbind (map_err (\<lambda>_. ''invalid effective blinding scalar'') (sk_add_tweak C original t))
            (\<lambda>effective.
          map_err (\<lambda>_. ''invalid effective blinding scalar'') (sk_from_slice C effective))))"

definition effective_output ::
  "crypto \<Rightarrow> KeysetInfo \<Rightarrow> scalar option \<Rightarrow> string set \<Rightarrow> PreparedSwapOutput \<Rightarrow> BlindedMessage \<Rightarrow> BlindedMessage
   \<Rightarrow> (string, PreparedOutput) result" where
  "effective_output C ks tweak secrets p original output =
     (if ps_blinded_message p \<noteq> original \<or> bm_keyset_id original \<noteq> ki_keyset_id ks
         \<or> amount_key (active_keys ks) (bm_amount original) = None \<or> ps_secret p \<in> secrets
      then Err ''prepared swap output binding mismatch''
      else rbind (map_err (\<lambda>_. ''invalid original swap blinding'')
                    (blind_message C (ps_secret p) (ps_blinding_factor p))) (\<lambda>(point, _).
           if point \<noteq> bm_blinded_secret original
           then Err ''prepared swap secrets do not match original points''
           else rbind (effective_blinding C tweak (ps_blinding_factor p)) (\<lambda>bf.
                Ok \<lparr>po_blinded_message = output, po_secret = ps_secret p, po_blinding_factor = bf\<rparr>)))"

text \<open>The iterator over the zipped outputs; the set holds the secrets seen so far.\<close>

fun effective_loop ::
  "crypto \<Rightarrow> KeysetInfo \<Rightarrow> scalar option \<Rightarrow> string set
   \<Rightarrow> ((PreparedSwapOutput \<times> BlindedMessage) \<times> BlindedMessage) list \<Rightarrow> (string, PreparedOutput list) result" where
  "effective_loop C ks tweak secrets [] = Ok []"
| "effective_loop C ks tweak secrets (((p, original), output) # rest) =
     rbind (effective_output C ks tweak secrets p original output) (\<lambda>po.
     rbind (effective_loop C ks tweak (insert (ps_secret p) secrets) rest) (\<lambda>pos. Ok (po # pos)))"

definition effective_outputs ::
  "crypto \<Rightarrow> SwapRequest \<Rightarrow> PreparedSwapOutput list \<Rightarrow> KeysetInfo \<Rightarrow> bytes option
   \<Rightarrow> (string, PreparedOutput list) result" where
  "effective_outputs C request prepared ks r =
     rbind (swap_restore_request C request r) (\<lambda>derived.
     if length prepared \<noteq> length (sr_outputs request) then Err ''prepared swap output count mismatch''
     else rbind (case r of
                   None \<Rightarrow> Ok None
                 | Some r \<Rightarrow> rbind (map_err (\<lambda>_. ''invalid mint randomness'') (derive_rerandomization_tweak C r))
                               (\<lambda>t. Ok (Some t))) (\<lambda>tweak.
          effective_loop C ks tweak {} (zip (zip prepared (sr_outputs request)) derived)))"

fun verify_proof_dleqs :: "crypto \<Rightarrow> KeysetInfo \<Rightarrow> Proof list \<Rightarrow> (string, unit) result" where
  "verify_proof_dleqs C ks [] = Ok ()"
| "verify_proof_dleqs C ks (pr # prs) =
     rbind (ok_or ''missing proof denomination key'' (amount_key (active_keys ks) (pr_amount pr))) (\<lambda>key.
     rbind (map_err (\<lambda>_. ''invalid unblinded swap proof DLEQ'') (proof_verify_dleq C pr key)) (\<lambda>_.
     verify_proof_dleqs C ks prs))"

definition complete ::
  "crypto \<Rightarrow> codec \<Rightarrow> BlindSignature list \<Rightarrow> PreparedOutput list \<Rightarrow> KeysetInfo \<Rightarrow> (string, Proof list) result" where
  "complete C J signatures outputs ks =
     rbind (map_err (\<lambda>_. ''invalid complete swap signature set or DLEQ'')
              (complete_exact_signatures C J signatures outputs ks None)) (\<lambda>proofs.
     rbind (verify_proof_dleqs C ks proofs) (\<lambda>_. Ok proofs))"

definition complete_swap_response ::
  "crypto \<Rightarrow> codec \<Rightarrow> SwapRequest \<Rightarrow> PreparedSwapOutput list \<Rightarrow> SwapResponse \<Rightarrow> KeysetInfo
   \<Rightarrow> (string, Proof list) result" where
  "complete_swap_response C J request prepared response ks =
     rbind (effective_outputs C request prepared ks (rerandomization_r response)) (\<lambda>outputs.
     complete C J (sp_signatures response) outputs ks)"

definition complete_swap_restore ::
  "crypto \<Rightarrow> codec \<Rightarrow> SwapRequest \<Rightarrow> PreparedSwapOutput list \<Rightarrow> bytes option \<Rightarrow> RestoreResponse \<Rightarrow> KeysetInfo
   \<Rightarrow> (string, Proof list option) result" where
  "complete_swap_restore C J request prepared r response ks =
     rbind (effective_outputs C request prepared ks r) (\<lambda>outputs.
     if rr_outputs response = [] \<and> rr_signatures response = [] then Ok None
     else rbind (map_err (\<lambda>_. ''invalid exact swap restore'')
                   (match_restore_response response (map po_blinded_message outputs) ''swap''))
            (\<lambda>signatures.
          rbind (complete C J signatures outputs ks) (\<lambda>proofs. Ok (Some proofs))))"

section \<open>Matching is exact and independent of the order\<close>

lemma position_Some:
  "position P xs = Some i \<Longrightarrow> i < length xs \<and> P (xs ! i) \<and> (\<forall>j < i. \<not> P (xs ! j))"
proof (induction xs arbitrary: i)
  case (Cons x xs)
  then show ?case by (auto split: if_splits simp: less_Suc_eq_0_disj)
qed simp

lemma position_None: "position P xs = None \<longleftrightarrow> (\<forall>x \<in> set xs. \<not> P x)"
  by (induction xs) auto

lemma position_distinct:
  assumes "distinct xs" "i < length xs"
  shows "position (\<lambda>e. e = xs ! i) xs = Some i"
proof (cases "position (\<lambda>e. e = xs ! i) xs")
  case None
  then show ?thesis using assms(2) by (auto simp: position_None)
next
  case (Some j)
  then show ?thesis
    using position_Some [OF Some] assms by (auto simp: nth_eq_iff_index_eq)
qed

text \<open>The entries of a partly filled table, as a multiset of output and signature.\<close>

definition filled :: "BlindedMessage list \<Rightarrow> BlindSignature option list \<Rightarrow> (BlindedMessage \<times> BlindSignature) multiset" where
  "filled expected matched =
     image_mset (\<lambda>i. (expected ! i, the (matched ! i)))
       (filter_mset (\<lambda>i. matched ! i \<noteq> None) (mset_set {..<length matched}))"

lemma filled_update:
  assumes "i < length matched" "matched ! i = None"
  shows "filled expected (matched[i := Some s]) = add_mset (expected ! i, s) (filled expected matched)"
proof -
  have "{j \<in> {..<length matched}. matched[i := Some s] ! j \<noteq> None} =
      insert i {j \<in> {..<length matched}. matched ! j \<noteq> None}"
    using assms(1) by (auto simp: nth_list_update)
  then have "filter_mset (\<lambda>j. matched[i := Some s] ! j \<noteq> None) (mset_set {..<length matched}) =
      add_mset i (filter_mset (\<lambda>j. matched ! j \<noteq> None) (mset_set {..<length matched}))"
    using assms(2) by simp
  moreover have "image_mset (\<lambda>j. (expected ! j, the (matched[i := Some s] ! j)))
        (filter_mset (\<lambda>j. matched ! j \<noteq> None) (mset_set {..<length matched})) =
      image_mset (\<lambda>j. (expected ! j, the (matched ! j)))
        (filter_mset (\<lambda>j. matched ! j \<noteq> None) (mset_set {..<length matched}))"
  proof (rule image_mset_cong)
    fix j assume "j \<in># filter_mset (\<lambda>j. matched ! j \<noteq> None) (mset_set {..<length matched})"
    then have "j \<noteq> i" using assms(2) by auto
    then show "(expected ! j, the (matched[i := Some s] ! j)) = (expected ! j, the (matched ! j))" by simp
  qed
  ultimately show ?thesis using assms(1) by (simp add: filled_def)
qed

lemma filled_empty: "filled expected (replicate n None) = {#}"
proof -
  have "filter_mset (\<lambda>i. replicate n (None :: BlindSignature option) ! i \<noteq> None) (mset_set {..<n}) = {#}"
    by (rule multiset_eqI) (auto simp: count_eq_zero_iff)
  then show ?thesis unfolding filled_def length_replicate by (simp only: image_mset_empty)
qed

lemma filled_mem:
  assumes "distinct expected" "length matched = length expected" "i < length expected"
  shows "(expected ! i, s) \<in># filled expected matched \<longleftrightarrow> matched ! i = Some s"
  using assms by (auto simp: filled_def image_iff nth_eq_iff_index_eq)

lemma filled_inj:
  assumes "distinct expected" "length m = length expected" "length m' = length expected"
    "filled expected m = filled expected m'"
  shows "m = m'"
proof (rule nth_equalityI)
  fix i assume "i < length m"
  then have "m ! i = Some s \<longleftrightarrow> m' ! i = Some s" for s
    using filled_mem [OF assms(1,2), of i s] filled_mem [OF assms(1,3), of i s] assms(2,4) by simp
  then show "m ! i = m' ! i" by (metis not_None_eq)
qed (simp add: assms)

lemma filled_full: "length sigs = length expected \<Longrightarrow> filled expected (map Some sigs) = mset (zip expected sigs)"
proof -
  assume len: "length sigs = length expected"
  have "filter_mset (\<lambda>i. map Some sigs ! i \<noteq> None) (mset_set {..<length sigs}) = mset_set {..<length sigs}"
    by (simp add: lessThan_def cong: conj_cong)
  then have "filled expected (map Some sigs) =
      image_mset (\<lambda>i. (expected ! i, sigs ! i)) (mset_set {..<length sigs})"
    unfolding filled_def length_map by (simp only:) (rule image_mset_cong, simp)
  also have "\<dots> = mset (map (\<lambda>i. (expected ! i, sigs ! i)) [0..<length sigs])"
    by (simp add: atLeast0LessThan [symmetric])
  also have "map (\<lambda>i. (expected ! i, sigs ! i)) [0..<length sigs] = zip expected sigs"
    using len by (intro nth_equalityI) auto
  finally show ?thesis .
qed

lemma match_outputs_sound:
  assumes "match_outputs role expected rest matched = Ok matched'" "length matched = length expected"
  shows "length matched' = length expected \<and> filled expected matched' = mset rest + filled expected matched"
  using assms
proof (induction role expected rest matched rule: match_outputs.induct)
  case (2 role expected out signature rest matched)
  obtain i where i: "position (\<lambda>e. e = out) expected = Some i" "matched ! i = None"
    "match_outputs role expected rest (matched[i := Some signature]) = Ok matched'"
    using 2(2) by (auto split: option.splits if_splits)
  have "i < length expected" "expected ! i = out"
    using position_Some [OF i(1)] by auto
  then show ?case
    using 2(1) [OF i(1)] i(2,3) 2(3) by (simp add: filled_update)
qed simp

text \<open>Conversely, on distinct expected outputs the loop cannot fail while the remaining pairs are for outputs
  that are still open.\<close>

lemma match_outputs_complete:
  assumes "distinct expected" "length matched = length expected"
    "\<forall>(out, s) \<in> set rest. out \<in> set expected"
    "distinct (map fst rest)"
    "\<forall>i < length expected. matched ! i \<noteq> None \<longrightarrow> expected ! i \<notin> set (map fst rest)"
  shows "\<exists>matched'. match_outputs role expected rest matched = Ok matched'"
  using assms(2-5)
proof (induction rest arbitrary: matched)
  case (Cons p rest)
  obtain out s where p: "p = (out, s)" by force
  obtain i where i: "i < length expected" "expected ! i = out"
    using Cons.prems(2) p by (auto simp: in_set_conv_nth)
  have pos: "position (\<lambda>e. e = out) expected = Some i"
    using position_distinct [OF assms(1) i(1)] i(2) by simp
  have "matched ! i = None" using Cons.prems(4) i p by auto
  moreover have "\<exists>matched'. match_outputs role expected rest (matched[i := Some s]) = Ok matched'"
  proof (rule Cons.IH)
    show "\<forall>j < length expected. matched[i := Some s] ! j \<noteq> None \<longrightarrow> expected ! j \<notin> set (map fst rest)"
      using Cons.prems(1,3,4) i p by (auto simp: nth_list_update)
  qed (use Cons.prems p in auto)
  ultimately show ?case using p pos by auto
qed simp

lemma collect_matched_Ok:
  "collect_matched role matched = Ok sigs \<longleftrightarrow> matched = map Some sigs"
proof
  assume "collect_matched role matched = Ok sigs"
  then show "matched = map Some sigs"
    unfolding collect_matched_def traverse_eq_Ok
    by (auto simp: list_all2_conv_all_nth nth_enumerate_eq intro!: nth_equalityI)
next
  assume "matched = map Some sigs"
  then show "collect_matched role matched = Ok sigs"
    unfolding collect_matched_def traverse_eq_Ok
    by (auto simp: list_all2_conv_all_nth nth_enumerate_eq)
qed

lemma mset_zip_map_fst: "length xs = length ys \<Longrightarrow> image_mset fst (mset (zip xs ys)) = mset xs"
  by (metis map_fst_zip mset_map)

text \<open>A full table has one entry per expected out, so the expected outputs are distinct.\<close>

lemma match_outputs_distinct:
  assumes "match_outputs role expected rest (replicate (length expected) None) = Ok (map Some sigs)"
  shows "distinct expected"
proof -
  have gen: "\<forall>i < length expected. matched' ! i \<noteq> None \<longrightarrow>
      matched ! i \<noteq> None \<or> (\<forall>j < i. expected ! j \<noteq> expected ! i)"
    if "match_outputs role expected rest matched = Ok matched'" "length matched = length expected"
    for rest matched matched'
    using that
  proof (induction role expected rest matched rule: match_outputs.induct)
    case (2 role expected out signature rest matched)
    obtain k where k: "position (\<lambda>e. e = out) expected = Some k" "matched ! k = None"
      "match_outputs role expected rest (matched[k := Some signature]) = Ok matched'"
      using 2(2) by (auto split: option.splits if_splits)
    have k': "k < length expected" "\<forall>j < k. expected ! j \<noteq> expected ! k"
      using position_Some [OF k(1)] by auto
    have ih: "\<forall>i < length expected. matched' ! i \<noteq> None \<longrightarrow>
        matched[k := Some signature] ! i \<noteq> None \<or> (\<forall>j < i. expected ! j \<noteq> expected ! i)"
      using 2(1) [OF k(1)] k(2,3) 2(3) by simp
    show ?case
    proof (intro allI impI)
      fix i assume i: "i < length expected" "matched' ! i \<noteq> None"
      show "matched ! i \<noteq> None \<or> (\<forall>j < i. expected ! j \<noteq> expected ! i)"
        using ih i k' by (cases "i = k") auto
    qed
  qed simp
  have "length (map Some sigs) = length expected"
    using match_outputs_sound [OF assms] by simp
  then have "expected ! j \<noteq> expected ! i" if "i < length expected" "j < i" for i j
    using gen [OF assms] that by auto
  then show ?thesis by (metis distinct_conv_nth nat_neq_iff)
qed

lemma match_restore_response_iff:
  "match_restore_response response expected role = Ok sigs \<longleftrightarrow>
     distinct expected \<and> length sigs = length expected \<and>
     length (rr_outputs response) = length (rr_signatures response) \<and>
     mset (zip (rr_outputs response) (rr_signatures response)) = mset (zip expected sigs)"
  (is "?l \<longleftrightarrow> ?r")
proof
  assume ?l
  then have len: "length (rr_outputs response) = length (rr_signatures response)"
    "length (rr_outputs response) = length expected"
    and m: "match_outputs role expected (zip (rr_outputs response) (rr_signatures response))
        (replicate (length expected) None) = Ok (map Some sigs)"
    by (auto simp: match_restore_response_def rbind_eq_Ok collect_matched_Ok split: if_splits)
  then show ?r
    using match_outputs_sound [OF m, simplified filled_empty] match_outputs_distinct [OF m]
      filled_full [of sigs expected] by simp
next
  assume r: ?r
  let ?pairs = "zip (rr_outputs response) (rr_signatures response)"
  have "image_mset fst (mset ?pairs) = image_mset fst (mset (zip expected sigs))" using r by simp
  then have outs: "mset (rr_outputs response) = mset expected"
    using r mset_zip_map_fst [of "rr_outputs response" "rr_signatures response"]
      mset_zip_map_fst [of expected sigs] by simp
  then have len: "length (rr_outputs response) = length expected" by (rule mset_eq_length)
  have fst_pairs: "map fst ?pairs = rr_outputs response" using r by simp
  have "distinct (map fst ?pairs)" using outs r by (simp add: fst_pairs) (metis mset_eq_imp_distinct_iff)
  moreover have "\<forall>(out, s) \<in> set ?pairs. out \<in> set expected"
    using mset_eq_setD [OF outs] by (auto dest: set_zip_leftD)
  ultimately obtain matched' where m: "match_outputs role expected ?pairs (replicate (length expected) None) = Ok matched'"
    using match_outputs_complete [of expected "replicate (length expected) None" ?pairs role] r by auto
  note s = match_outputs_sound [OF m, simplified filled_empty]
  have "filled expected matched' = filled expected (map Some sigs)"
    using s r by (simp add: filled_full)
  then have "matched' = map Some sigs"
    using s r by (intro filled_inj [of expected]) simp_all
  then show ?l using m len r by (simp add: match_restore_response_def collect_matched_Ok)
qed

text \<open>C24: a restore response is accepted exactly when it pairs every expected output with one signature, in any
  order; the accepted signatures are those of the expected outputs, in the expected order.  In
  particular a repeated, missing or unknown output rejects the response.\<close>

theorem restore_match_exact:
  "match_restore_response response expected role = Ok sigs \<longleftrightarrow>
     distinct expected \<and> length sigs = length expected \<and>
     length (rr_outputs response) = length (rr_signatures response) \<and>
     mset (zip (rr_outputs response) (rr_signatures response)) = mset (zip expected sigs)"
  by (rule match_restore_response_iff)

section \<open>Completion is sound\<close>

text \<open>A signature answers an output: same amount and keyset, and a valid proof of equal discrete logarithms
  under the keyset's key for that amount.\<close>

definition answers :: "crypto \<Rightarrow> KeysetInfo \<Rightarrow> BlindSignature \<Rightarrow> PreparedOutput \<Rightarrow> bool" where
  "answers C ks s po \<longleftrightarrow>
     bs_amount s = bm_amount (po_blinded_message po) \<and>
     bs_keyset_id s = bm_keyset_id (po_blinded_message po) \<and>
     (\<exists>key. amount_key (active_keys ks) (bm_amount (po_blinded_message po)) = Some key \<and>
        bs_verify_dleq C s key (bm_blinded_secret (po_blinded_message po)) = Ok ())"

text \<open>Documented behaviour of the constructors of proofs and of rerandomized outputs: proofs keep the amounts
  and keysets of the signatures and the given secrets; a tweak changes points only.\<close>

definition construct_faithful :: "crypto \<Rightarrow> bool" where
  "construct_faithful C \<longleftrightarrow>
     (\<forall>ss rs secrets ks prs. length ss = length secrets \<longrightarrow> construct_proofs C ss rs secrets ks = Ok prs \<longrightarrow>
        map pr_amount prs = map bs_amount ss \<and> map pr_keyset_id prs = map bs_keyset_id ss \<and>
        map pr_secret prs = secrets)"

definition tweak_faithful :: "crypto \<Rightarrow> bool" where
  "tweak_faithful C \<longleftrightarrow>
     (\<forall>r os os'. tweak_swap_outputs C r os = Ok os' \<longrightarrow>
        map bm_amount os' = map bm_amount os \<and> map bm_keyset_id os' = map bm_keyset_id os)"

lemma check_signatures_Ok:
  "length ss = length ps \<Longrightarrow>
     check_signatures C J ks i ss ps = Ok () \<longleftrightarrow> list_all2 (answers C ks) ss ps"
proof (induction C J ks i ss ps rule: check_signatures.induct)
  case (1 C J ks i s ss p ps)
  have "check_signature C J ks i s p = Ok () \<longleftrightarrow> answers C ks s p"
    by (auto simp: check_signature_def answers_def Let_def rbind_eq_Ok)
  then show ?case using 1 by (auto simp: rbind_eq_Ok)
qed simp_all

lemma try_sum_Ok:
  "try_sum e acc xs = Ok t \<longleftrightarrow> unat acc + sum_list (map unat xs) < 2 ^ 64 \<and> t = acc + sum_list xs"
proof (induction xs arbitrary: acc)
  case Nil
  then show ?case using unat_u64_less [of acc] by auto
next
  case (Cons x xs)
  then show ?case
    by (auto simp: checked_add_def unat_add_exact add.assoc)
qed

lemma complete_exact_Ok:
  assumes "complete_exact_signatures C J sigs expected ks exact = Ok proofs"
  shows "list_all2 (answers C ks) sigs expected"
    and "construct_proofs C sigs (map po_blinding_factor expected) (map po_secret expected)
           (active_keys ks) = Ok proofs"
    and "sum_list (map (unat \<circ> bm_amount \<circ> po_blinded_message) expected) < 2 ^ 64"
    and "\<forall>os. exact = Some os \<longrightarrow> os = map po_blinded_message expected"
  using assms
  by (auto simp: complete_exact_signatures_def rbind_eq_Ok try_sum_Ok check_signatures_Ok comp_assoc
      split: if_splits option.splits)

lemma complete_exact_facts:
  assumes "construct_faithful C" "complete_exact_signatures C J sigs expected ks exact = Ok proofs"
  shows "list_all2 (answers C ks) sigs expected \<and>
    map pr_amount proofs = map (bm_amount \<circ> po_blinded_message) expected \<and>
    map pr_keyset_id proofs = map (bm_keyset_id \<circ> po_blinded_message) expected \<and>
    map pr_secret proofs = map po_secret expected \<and>
    sum_list (map (unat \<circ> pr_amount) proofs) < 2 ^ 64"
proof -
  note ok = complete_exact_Ok [OF assms(2)]
  have len: "length sigs = length expected" using ok(1) by (rule list_all2_lengthD)
  have am: "map bs_amount sigs = map (bm_amount \<circ> po_blinded_message) expected"
    "map bs_keyset_id sigs = map (bm_keyset_id \<circ> po_blinded_message) expected"
    using ok(1) by (induction rule: list_all2_induct) (auto simp: answers_def)
  have pr: "map pr_amount proofs = map bs_amount sigs" "map pr_keyset_id proofs = map bs_keyset_id sigs"
    "map pr_secret proofs = map po_secret expected"
    using assms(1) ok(2) len unfolding construct_faithful_def by (metis length_map)+
  have "map (unat \<circ> pr_amount) proofs = map unat (map pr_amount proofs)" by simp
  then show ?thesis
    using ok(1,3) pr am by (simp add: comp_assoc)
qed

text \<open>Whatever exact completion returns, every signature has been checked against its own output (amount,
  keyset, and discrete-log proof under that denomination's key), the total of the outputs does not
  overflow, and the proofs carry the amounts, keysets and secrets of the prepared outputs, in order.\<close>

lemma complete_exact_sound:
  assumes "construct_faithful C" "complete_exact_signatures C J sigs expected ks exact = Ok proofs"
  shows "list_all2 (answers C ks) sigs expected \<and>
    map pr_amount proofs = map (bm_amount \<circ> po_blinded_message) expected \<and>
    map pr_keyset_id proofs = map (bm_keyset_id \<circ> po_blinded_message) expected \<and>
    map pr_secret proofs = map po_secret expected \<and>
    sum_list (map (unat \<circ> pr_amount) proofs) < 2 ^ 64"
  by (rule complete_exact_facts [OF assms])

lemma example_construct_faithful: "construct_faithful example_crypto"
  by (auto simp: construct_faithful_def example_crypto_def intro!: nth_equalityI)

definition example_prepared :: "u64 \<Rightarrow> byte \<Rightarrow> string \<Rightarrow> PreparedOutput" where
  "example_prepared amount point secret =
     \<lparr>po_blinded_message = blinded_message_new amount [0] [point], po_secret = secret, po_blinding_factor = [1]\<rparr>"

definition example_signature :: "u64 \<Rightarrow> byte \<Rightarrow> BlindSignature" where
  "example_signature amount point =
     \<lparr>bs_amount = amount, bs_keyset_id = [0], bs_c = [2, point], bs_dleq = None\<rparr>"

section \<open>Whole responses\<close>

lemma effective_output_Ok:
  assumes "effective_output C ks tweak secrets p original out = Ok po"
  shows "ps_blinded_message p = original" "bm_keyset_id original = ki_keyset_id ks"
    "ps_secret p \<notin> secrets" "po_blinded_message po = out" "po_secret po = ps_secret p"
    "\<exists>bf. blind_message C (ps_secret p) (ps_blinding_factor p) = Ok (bm_blinded_secret original, bf)"
  using assms by (auto simp: effective_output_def rbind_eq_Ok split: if_splits prod.splits)

lemma effective_loop_Ok:
  assumes "effective_loop C ks tweak secrets (zip (zip prepared originals) derived) = Ok outs"
    "length prepared = length originals" "length derived = length originals"
  shows "map ps_blinded_message prepared = originals \<and> map po_blinded_message outs = derived \<and>
    map po_secret outs = map ps_secret prepared \<and> distinct (map ps_secret prepared) \<and>
    set (map ps_secret prepared) \<inter> secrets = {} \<and>
    (\<forall>m \<in> set originals. bm_keyset_id m = ki_keyset_id ks) \<and> length outs = length originals"
  using assms
proof (induction originals arbitrary: prepared derived secrets outs)
  case (Cons m originals)
  obtain p prepared' where p: "prepared = p # prepared'" using Cons.prems(2) by (cases prepared) auto
  obtain d derived' where d: "derived = d # derived'" using Cons.prems(3) by (cases derived) auto
  obtain po outs' where o: "effective_output C ks tweak secrets p m d = Ok po"
    "effective_loop C ks tweak (insert (ps_secret p) secrets) (zip (zip prepared' originals) derived') = Ok outs'"
    "outs = po # outs'"
    using Cons.prems(1) p d by (auto simp: rbind_eq_Ok)
  show ?case
    using Cons.IH [OF o(2)] Cons.prems(2,3) effective_output_Ok [OF o(1)] p d o(3) by auto
qed auto

lemma swap_restore_request_Ok:
  assumes "swap_restore_request C request r = Ok derived"
  shows "sr_outputs request \<noteq> []" "distinct (map bm_blinded_secret (sr_outputs request))"
    "sr_rerandomized request \<longleftrightarrow> r \<noteq> None"
    "derived = sr_outputs request \<or> (\<exists>x. tweak_swap_outputs C x (sr_outputs request) = Ok derived)"
  using assms by (auto simp: swap_restore_request_def split: if_splits bool.splits option.splits)

text \<open>What a successful binding of the prepared outputs to their request guarantees.\<close>

definition bound :: "SwapRequest \<Rightarrow> PreparedSwapOutput list \<Rightarrow> KeysetInfo \<Rightarrow> bytes option \<Rightarrow> bool" where
  "bound request prepared ks r \<longleftrightarrow>
     (sr_rerandomized request \<longleftrightarrow> r \<noteq> None) \<and>
     map ps_blinded_message prepared = sr_outputs request \<and>
     distinct (map bm_blinded_secret (sr_outputs request)) \<and>
     distinct (map ps_secret prepared) \<and>
     (\<forall>m \<in> set (sr_outputs request). bm_keyset_id m = ki_keyset_id ks)"

lemma effective_outputs_Ok:
  assumes "tweak_faithful C" "effective_outputs C request prepared ks r = Ok outs"
  shows "bound request prepared ks r"
    "map (bm_amount \<circ> po_blinded_message) outs = map bm_amount (sr_outputs request)"
    "map (bm_keyset_id \<circ> po_blinded_message) outs = map bm_keyset_id (sr_outputs request)"
    "map po_secret outs = map ps_secret prepared"
proof -
  obtain derived tweak where d: "swap_restore_request C request r = Ok derived"
    "length prepared = length (sr_outputs request)"
    "effective_loop C ks tweak {} (zip (zip prepared (sr_outputs request)) derived) = Ok outs"
    using assms(2) by (auto simp: effective_outputs_def rbind_eq_Ok split: if_splits)
  note r = swap_restore_request_Ok [OF d(1)]
  have am: "map bm_amount derived = map bm_amount (sr_outputs request)"
    "map bm_keyset_id derived = map bm_keyset_id (sr_outputs request)"
    using r(4) assms(1) unfolding tweak_faithful_def by auto
  have len: "length derived = length (sr_outputs request)"
    using am(1) by (metis length_map)
  note l = effective_loop_Ok [OF d(3,2) len]
  show "bound request prepared ks r" using l r by (simp add: bound_def)
  show "map (bm_amount \<circ> po_blinded_message) outs = map bm_amount (sr_outputs request)"
    "map (bm_keyset_id \<circ> po_blinded_message) outs = map bm_keyset_id (sr_outputs request)"
    "map po_secret outs = map ps_secret prepared"
    using l am by (auto simp flip: map_map)
qed

lemma complete_swap_response_facts:
  assumes "construct_faithful C" "tweak_faithful C"
    "complete_swap_response C J request prepared response ks = Ok proofs"
  shows "bound request prepared ks (rerandomization_r response) \<and>
    map pr_amount proofs = map bm_amount (sr_outputs request) \<and>
    map pr_keyset_id proofs = map bm_keyset_id (sr_outputs request) \<and>
    map pr_secret proofs = map ps_secret prepared"
proof -
  obtain outs where outs: "effective_outputs C request prepared ks (rerandomization_r response) = Ok outs"
    "complete_exact_signatures C J (sp_signatures response) outs ks None = Ok proofs"
    using assms(3) by (auto simp: complete_swap_response_def complete_def rbind_eq_Ok)
  show ?thesis
    using effective_outputs_Ok [OF assms(2) outs(1)] complete_exact_facts [OF assms(1) outs(2)] by simp
qed

text \<open>C25: a completed swap response was bound to its request (matching mode and randomness, the retained outputs
  being exactly the request's, distinct points and secrets, one keyset), and yields one proof per
  requested output with that output's amount, keyset and secret, in order.\<close>

theorem complete_swap_response_sound:
  assumes "construct_faithful C" "tweak_faithful C"
    "complete_swap_response C J request prepared response ks = Ok proofs"
  shows "bound request prepared ks (rerandomization_r response) \<and>
    map pr_amount proofs = map bm_amount (sr_outputs request) \<and>
    map pr_keyset_id proofs = map bm_keyset_id (sr_outputs request) \<and>
    map pr_secret proofs = map ps_secret prepared"
  by (rule complete_swap_response_facts [OF assms])

lemma example_tweak_faithful: "tweak_faithful example_crypto"
  by (auto simp: tweak_faithful_def example_crypto_def)

definition example_request :: SwapRequest where
  "example_request =
     with_rerandomization (swap_request_new [] [blinded_message_new 1 [0] [97, 1], blinded_message_new 2 [0] [98, 1]])"

definition example_retained :: "PreparedSwapOutput list" where
  "example_retained =
     [\<lparr>ps_blinded_message = blinded_message_new 1 [0] [97, 1], ps_secret = ''a'', ps_blinding_factor = [1]\<rparr>,
      \<lparr>ps_blinded_message = blinded_message_new 2 [0] [98, 1], ps_secret = ''b'', ps_blinding_factor = [1]\<rparr>]"

definition example_signed :: "BlindSignature list" where
  "example_signed =
     [\<lparr>bs_amount = 1, bs_keyset_id = [0], bs_c = [2, 97, 1, 9], bs_dleq = None\<rparr>,
      \<lparr>bs_amount = 2, bs_keyset_id = [0], bs_c = [2, 98, 1, 9], bs_dleq = None\<rparr>]"

theorem complete_swap_response_sound_witness:
  "\<exists>proofs. complete_swap_response example_crypto (example_codec JNull) example_request example_retained
      \<lparr>sp_signatures = example_signed, rerandomization_r = Some [9]\<rparr> (example_keyset [1, 2] 0) = Ok proofs \<and>
    map pr_secret proofs = [''a'', ''b'']"
proof -
  let ?run = "complete_swap_response example_crypto (example_codec JNull) example_request example_retained
      \<lparr>sp_signatures = example_signed, rerandomization_r = Some [9]\<rparr> (example_keyset [1, 2] 0)"
  have "is_ok ?run" by code_simp
  then obtain proofs where ok: "?run = Ok proofs" by (auto simp: is_ok_def split: sum.splits)
  have "map pr_secret proofs = map ps_secret example_retained"
    using complete_swap_response_sound [OF example_construct_faithful example_tweak_faithful ok] by blast
  then show ?thesis using ok by (simp add: example_retained_def)
qed

text \<open>C26: completing from a restore response depends only on which signature the mint returned for which output:
  two responses that list the same pairs in different orders give the same result.\<close>

theorem complete_swap_restore_order:
  assumes "length (rr_outputs a) = length (rr_signatures a)" "length (rr_outputs b) = length (rr_signatures b)"
    "mset (zip (rr_outputs a) (rr_signatures a)) = mset (zip (rr_outputs b) (rr_signatures b))"
  shows "complete_swap_restore C J request prepared r a ks = complete_swap_restore C J request prepared r b ks"
proof -
  have "match_restore_response a expected role = Ok sigs \<longleftrightarrow> match_restore_response b expected role = Ok sigs"
    for expected role sigs
    unfolding match_restore_response_iff using assms by simp
  then have "map_err (\<lambda>_. e) (match_restore_response a expected role) =
      map_err (\<lambda>_. e) (match_restore_response b expected role)" for e :: string and expected role
    by (cases "match_restore_response a expected role"; cases "match_restore_response b expected role")
      (auto, metis Inl_Inr_False)
  moreover have "rr_outputs a = [] \<and> rr_signatures a = [] \<longleftrightarrow> rr_outputs b = [] \<and> rr_signatures b = []"
    using assms mset_eq_length [OF assms(3)] by (metis length_0_conv length_zip min.idem)
  ultimately show ?thesis by (simp only: complete_swap_restore_def)
qed

theorem complete_swap_restore_order_witness:
  "complete_swap_restore example_crypto (example_codec JNull) example_request example_retained (Some [9])
     \<lparr>rr_outputs = [blinded_message_new 1 [0] [97, 1, 9], blinded_message_new 2 [0] [98, 1, 9]],
      rr_signatures = example_signed\<rparr> (example_keyset [1, 2] 0) =
   complete_swap_restore example_crypto (example_codec JNull) example_request example_retained (Some [9])
     \<lparr>rr_outputs = [blinded_message_new 2 [0] [98, 1, 9], blinded_message_new 1 [0] [97, 1, 9]],
      rr_signatures = rev example_signed\<rparr> (example_keyset [1, 2] 0)"
  by (rule complete_swap_restore_order) (simp_all add: example_signed_def)

end
