(* ===== verification/Deterministic.thy ===== *)
theory Deterministic
  imports Params SwapCompletion
begin

text \<open>
  Deterministic outputs: \<open>crates/cdk-spilman/src/deterministic.rs\<close> and the output derivation of
  \<open>params.rs\<close>.

  Every output of a channel (funding, and both sides of a commitment) is derived from the channel
  secret, the channel id, a context, the amount and an index.  A commitment for a balance is a list of
  receiver outputs and a list of sender outputs, merged by a stable sort on the amount.
\<close>

section \<open>One output\<close>

record DeterministicSecretWithBlinding =
  ds_secret :: string
  ds_blinding_factor :: seckey
  ds_amount :: u64
  ds_index :: usize

definition p2pk_secret :: "string \<Rightarrow> string \<Rightarrow> string" where
  \<open>p2pk_secret pubkey_hex nonce =
     ''["P2PK",{"data":"'' @ pubkey_hex @ ''","nonce":"'' @ nonce @ ''","tags":[]}]''\<close>

definition new_p2pk ::
  "codec \<Rightarrow> pubkey \<Rightarrow> string \<Rightarrow> seckey \<Rightarrow> u64 \<Rightarrow> usize \<Rightarrow> (string, DeterministicSecretWithBlinding) result" where
  "new_p2pk J pk nonce blinding_factor amount index =
     Ok \<lparr>ds_secret = p2pk_secret (pk_to_hex J pk) nonce, ds_blinding_factor = blinding_factor,
         ds_amount = amount, ds_index = index\<rparr>"

definition funding_secret :: "string \<Rightarrow> string \<Rightarrow> string \<Rightarrow> u64 \<Rightarrow> string \<Rightarrow> string" where
  \<open>funding_secret sender_hex nonce receiver_hex expiry refund_hex =
     ''["P2PK",{"data":"'' @ sender_hex @ ''","nonce":"'' @ nonce @ ''","tags":[["pubkeys","'' @ receiver_hex
     @ ''"],["locktime","'' @ show_u64 expiry @ ''"],["n_sigs","2"],["refund","'' @ refund_hex
     @ ''"],["n_sigs_refund","1"],["sigflag","SIG_ALL"]]}]''\<close>

definition new_funding ::
  "crypto \<Rightarrow> codec \<Rightarrow> ChannelParameters \<Rightarrow> string \<Rightarrow> seckey \<Rightarrow> u64 \<Rightarrow> usize
   \<Rightarrow> (string, DeterministicSecretWithBlinding) result" where
  "new_funding C J p nonce blinding_factor amount index =
     rbind (get_sender_blinded_pubkey_for_stage1 C p) (\<lambda>sender.
     rbind (get_receiver_blinded_pubkey_for_stage1 C p) (\<lambda>receiver.
     rbind (get_sender_blinded_pubkey_for_stage1_refund C p) (\<lambda>refund.
     Ok \<lparr>ds_secret = funding_secret (pk_to_hex J sender) nonce (pk_to_hex J receiver)
            (expiry_timestamp p) (pk_to_hex J refund),
         ds_blinding_factor = blinding_factor, ds_amount = amount, ds_index = index\<rparr>)))"

definition to_blinded_message ::
  "crypto \<Rightarrow> DeterministicSecretWithBlinding \<Rightarrow> u64 \<Rightarrow> key_id \<Rightarrow> (string, BlindedMessage) result" where
  "to_blinded_message C ds amount kid =
     rbind (blind_message C (ds_secret ds) (ds_blinding_factor ds)) (\<lambda>(blinded_point, _).
     Ok (blinded_message_new amount kid blinded_point))"

definition nonce_text :: "string \<Rightarrow> string \<Rightarrow> u64 \<Rightarrow> usize \<Rightarrow> string" where
  "nonce_text channel_id context amount index =
     channel_id @ ''|'' @ context @ ''|'' @ show_u64 amount @ ''|nonce|'' @ show_u64 index"

definition blinding_text :: "string \<Rightarrow> string \<Rightarrow> u64 \<Rightarrow> usize \<Rightarrow> string" where
  "blinding_text channel_id context amount index =
     channel_id @ ''|'' @ context @ ''|'' @ show_u64 amount @ ''|blinding|'' @ show_u64 index"

definition create_deterministic_output_with_blinding ::
  "crypto \<Rightarrow> codec \<Rightarrow> ChannelParameters \<Rightarrow> string \<Rightarrow> u64 \<Rightarrow> usize
   \<Rightarrow> (string, DeterministicSecretWithBlinding) result" where
  "create_deterministic_output_with_blinding C J p context amount index =
     (let channel_id = get_channel_id C p; hmac = hmac_sha256 C (channel_secret p) in
      rbind (map_err (\<lambda>e. ''Failed to derive deterministic nonce: '' @ e)
               (hash_to_secp_scalar C (string_bytes (nonce_text channel_id context amount index)) hmac))
        (\<lambda>nonce_scalar.
      rbind (map_err (\<lambda>e. ''Failed to derive deterministic blinding factor: '' @ e)
               (hash_to_secp_scalar C (string_bytes (blinding_text channel_id context amount index)) hmac))
        (\<lambda>blinding_scalar.
      rbind (map_err (\<lambda>e. ''Invalid deterministic blinding factor: '' @ e)
               (sk_from_slice C blinding_scalar)) (\<lambda>blinding_factor.
      let nonce = hex_encode C nonce_scalar in
      if context = ''funding'' then new_funding C J p nonce blinding_factor amount index
      else rbind (get_stage2_blinded_pubkey_for_stage1_output C p context amount index) (\<lambda>pk.
           new_p2pk J pk nonce blinding_factor amount index)))))"

section \<open>The outputs of one context\<close>

record DeterministicOutputsForOneContext =
  do_context :: string
  do_amount :: u64
  ordered_amounts :: OrderedListOfAmounts
  do_params :: ChannelParameters

definition outputs_new ::
  "string \<Rightarrow> u64 \<Rightarrow> ChannelParameters \<Rightarrow> (string, DeterministicOutputsForOneContext) run" where
  "outputs_new context amount p =
     run_bind (from_target amount (maximum_amount_for_one_output p) (keyset_info p)) (\<lambda>oa.
     Some (Ok \<lparr>do_context = context, do_amount = amount, ordered_amounts = oa, do_params = p\<rparr>))"

definition outputs_value_after_fees :: "DeterministicOutputsForOneContext \<Rightarrow> u64" where
  "outputs_value_after_fees d = value_after_fees (ordered_amounts d)"

text \<open>The pairs of amount and index, smallest amount first.\<close>

definition amount_indices :: "OrderedListOfAmounts \<Rightarrow> (u64 \<times> usize) list" where
  "amount_indices l =
     concat (map (\<lambda>(amount, count). map (\<lambda>i. (amount, word_of_nat i)) [0..<unat count])
       (iter_smallest_first l))"

definition get_secrets_with_blinding ::
  "crypto \<Rightarrow> codec \<Rightarrow> DeterministicOutputsForOneContext
   \<Rightarrow> (string, DeterministicSecretWithBlinding list) result" where
  "get_secrets_with_blinding C J d =
     (if do_amount d = 0 then Ok []
      else traverse (\<lambda>(amount, index).
             create_deterministic_output_with_blinding C J (do_params d) (do_context d) amount index)
             (amount_indices (ordered_amounts d)))"

definition smallest_first_amounts :: "OrderedListOfAmounts \<Rightarrow> u64 list" where
  "smallest_first_amounts l =
     concat (map (\<lambda>(amount, count). replicate (unat count) amount) (iter_smallest_first l))"

definition get_blinded_messages ::
  "crypto \<Rightarrow> codec \<Rightarrow> DeterministicOutputsForOneContext \<Rightarrow> key_id option
   \<Rightarrow> (string, BlindedMessage list) result" where
  "get_blinded_messages C J d override_keyset_id =
     rbind (get_secrets_with_blinding C J d) (\<lambda>secrets.
     (let kid = (case override_keyset_id of None \<Rightarrow> ki_keyset_id (keyset_info (do_params d)) | Some k \<Rightarrow> k)
      in traverse (\<lambda>(secret, amount). to_blinded_message C secret amount kid)
           (zip secrets (smallest_first_amounts (ordered_amounts d)))))"

section \<open>Commitments\<close>

record CommitmentOutputs =
  receiver_outputs :: DeterministicOutputsForOneContext
  sender_outputs :: DeterministicOutputsForOneContext

record ProofWithMetadata =
  pm_proof :: Proof
  pm_amount :: u64
  pm_index :: usize
  is_receiver :: bool

definition for_balance :: "u64 \<Rightarrow> ChannelParameters \<Rightarrow> (string, CommitmentOutputs) run" where
  "for_balance receiver_balance p =
     (if receiver_balance > capacity p
      then Some (Err (''Receiver balance '' @ show_u64 receiver_balance @ '' exceeds channel capacity ''
                        @ show_u64 (capacity p)))
      else
        run_bind (get_value_after_stage1 p) (\<lambda>amount_after_stage1.
        run_bind (inverse_deterministic_value_after_fees (keyset_info p) receiver_balance
                    (maximum_amount_for_one_output p)) (\<lambda>inverse_result.
        (let charlie_nominal = nominal_value inverse_result in
         if charlie_nominal > amount_after_stage1
         then Some (Err (''Receiver balance '' @ show_u64 receiver_balance @ '' requires nominal value ''
                @ show_u64 charlie_nominal @ '' which exceeds available amount ''
                @ show_u64 amount_after_stage1 @ '' after stage 1 fees''))
         else
           run_bind (outputs_new ''receiver'' charlie_nominal p) (\<lambda>charlie_outputs.
           run_bind (outputs_new ''sender'' (amount_after_stage1 - charlie_nominal) p) (\<lambda>alice_outputs.
           Some (Ok \<lparr>receiver_outputs = charlie_outputs, sender_outputs = alice_outputs\<rparr>)))))))"

definition create_swap_request ::
  "crypto \<Rightarrow> codec \<Rightarrow> CommitmentOutputs \<Rightarrow> Proof list \<Rightarrow> key_id option \<Rightarrow> (string, SwapRequest) result" where
  "create_swap_request C J co funding_proofs override_keyset_id =
     rbind (get_blinded_messages C J (receiver_outputs co) override_keyset_id) (\<lambda>receiver.
     rbind (get_blinded_messages C J (sender_outputs co) override_keyset_id) (\<lambda>sender.
     (let outputs = sort_key bm_amount (receiver @ sender);
          request = swap_request_new funding_proofs outputs
      in Ok (case commitment_mode (do_params (receiver_outputs co)) of
               Ordinary \<Rightarrow> request
             | Rerandomized \<Rightarrow> with_rerandomization request))))"

definition attach_stage2_p2pk_e ::
  "crypto \<Rightarrow> ChannelParameters \<Rightarrow> Proof \<Rightarrow> Stage2Role \<Rightarrow> u64 \<Rightarrow> usize \<Rightarrow> (string, Proof) result" where
  "attach_stage2_p2pk_e C p pr role amount index =
     rbind (stage2_p2pk_e_for_role C p role amount index) (\<lambda>e. Ok (pr\<lparr>pr_p2pk_e := Some e\<rparr>))"

definition commitment_complete_swap_response ::
  "crypto \<Rightarrow> codec \<Rightarrow> CommitmentOutputs \<Rightarrow> SwapResponse \<Rightarrow> KeysetInfo \<Rightarrow> (string, ProofWithMetadata list) result" where
  "commitment_complete_swap_response C J co response output_keyset =
     (let p = do_params (receiver_outputs co);
          expected_count = ol_len (ordered_amounts (receiver_outputs co))
                             + ol_len (ordered_amounts (sender_outputs co));
          n = length (sp_signatures response)
      in
      if ki_unit output_keyset \<noteq> unit p then Err ''commitment output keyset unit mismatch''
      else if n \<noteq> expected_count
      then Err (''Expected '' @ show_nat expected_count @ '' blind signatures but received '' @ show_nat n)
      else
        rbind (get_secrets_with_blinding C J (receiver_outputs co)) (\<lambda>receiver.
        rbind (get_secrets_with_blinding C J (sender_outputs co)) (\<lambda>sender.
        (let all_outputs = sort_key (\<lambda>(det, _). ds_amount det)
               (map (\<lambda>det. (det, True)) receiver @ map (\<lambda>det. (det, False)) sender)
         in
         if length all_outputs \<noteq> n
         then Err (''Internal mismatch: derived '' @ show_nat (length all_outputs) @ '' outputs for ''
                     @ show_nat n @ '' blind signatures'')
         else
           rbind (create_swap_request C J co [] (Some (ki_keyset_id output_keyset))) (\<lambda>request.
           rbind (complete_swap_response C J request
                    (map (\<lambda>((det, _), message). \<lparr>ps_blinded_message = message, ps_secret = ds_secret det,
                                               ps_blinding_factor = ds_blinding_factor det\<rparr>)
                       (zip all_outputs (sr_outputs request)))
                    response output_keyset) (\<lambda>all_proofs.
           if length all_proofs \<noteq> length all_outputs
           then Err (''Internal mismatch: unblinded '' @ show_nat (length all_proofs) @ '' proofs for ''
                       @ show_nat (length all_outputs) @ '' outputs'')
           else traverse (\<lambda>(pr, (det, is_rcv)).
                  rbind (attach_stage2_p2pk_e C p pr (if is_rcv then Receiver else Sender)
                           (ds_amount det) (ds_index det)) (\<lambda>pr'.
                  Ok \<lparr>pm_proof = pr', pm_amount = ds_amount det, pm_index = ds_index det, is_receiver = is_rcv\<rparr>))
                  (zip all_proofs all_outputs)))))))"

definition unblind_all ::
  "crypto \<Rightarrow> codec \<Rightarrow> CommitmentOutputs \<Rightarrow> BlindSignature list \<Rightarrow> keys \<Rightarrow> (string, ProofWithMetadata list) result" where
  "unblind_all C J co signatures ks =
     (let keyset = (keyset_info (do_params (receiver_outputs co)))\<lparr>active_keys := ks\<rparr>;
          keyset = (case signatures of [] \<Rightarrow> keyset | s # _ \<Rightarrow> keyset\<lparr>ki_keyset_id := bs_keyset_id s\<rparr>)
      in commitment_complete_swap_response C J co
           \<lparr>sp_signatures = signatures, rerandomization_r = None\<rparr> keyset)"

text \<open>The restore endpoint of the mint is an argument.\<close>

definition restore_swap_response ::
  "crypto \<Rightarrow> codec \<Rightarrow> CommitmentOutputs \<Rightarrow> (BlindedMessage list \<Rightarrow> (string, RestoreResponse) result)
   \<Rightarrow> bytes option \<Rightarrow> (string, SwapResponse) result" where
  "restore_swap_response C J co post_restore randomness =
     rbind (create_swap_request C J co [] None) (\<lambda>request.
     rbind (swap_restore_request C request randomness) (\<lambda>outputs.
     rbind (post_restore outputs) (\<lambda>response.
     rbind (match_restore_response response outputs ''commitment'') (\<lambda>signatures.
     Ok \<lparr>sp_signatures = signatures, rerandomization_r = randomness\<rparr>))))"

definition restore_all_blind_signatures ::
  "crypto \<Rightarrow> codec \<Rightarrow> CommitmentOutputs \<Rightarrow> (BlindedMessage list \<Rightarrow> (string, RestoreResponse) result)
   \<Rightarrow> (string, BlindSignature list) result" where
  "restore_all_blind_signatures C J co post_restore =
     rbind (restore_swap_response C J co post_restore None) (\<lambda>response. Ok (sp_signatures response))"

section \<open>A commitment exists for every balance\<close>

text \<open>The amounts of a context are the split of its nominal amount.\<close>

definition context_wf :: "DeterministicOutputsForOneContext \<Rightarrow> bool" where
  "context_wf d \<longleftrightarrow>
     from_target (do_amount d) (maximum_amount_for_one_output (do_params d)) (keyset_info (do_params d)) =
       Some (Ok (ordered_amounts d))"

lemma outputs_new_Ok:
  "outputs_new context amount p = Some (Ok d) \<longleftrightarrow>
     context_wf d \<and> do_context d = context \<and> do_amount d = amount \<and> do_params d = p"
  by (auto simp: outputs_new_def context_wf_def run_bind_eq_Ok)

lemma outputs_new_total:
  assumes "fee_safe (keyset_info p) n"
  shows "\<exists>d. outputs_new context amount p = Some (Ok d)"
  using assms from_target_total [of "keyset_info p" amount "maximum_amount_for_one_output p"]
  unfolding outputs_new_def fee_safe_def keyset_wf_def by (metis run_bind_simps(3))

lemma for_balance_OkE:
  assumes "for_balance b p = Some (Ok co)"
  obtains v1 r where "b \<le> capacity p" "get_value_after_stage1 p = Some (Ok v1)"
    "inverse_deterministic_value_after_fees (keyset_info p) b (maximum_amount_for_one_output p) = Some (Ok r)"
    "nominal_value r \<le> v1" "context_wf (receiver_outputs co)" "context_wf (sender_outputs co)"
    "do_amount (receiver_outputs co) = nominal_value r" "do_amount (sender_outputs co) = v1 - nominal_value r"
    "do_context (receiver_outputs co) = ''receiver''" "do_context (sender_outputs co) = ''sender''"
    "do_params (receiver_outputs co) = p" "do_params (sender_outputs co) = p"
  using assms
  by (auto simp: for_balance_def run_bind_eq_Ok outputs_new_Ok Let_def not_less split: if_splits)

lemma params_new_fields:
  assumes "params_new sender receiver mint_url u cap funding expiry setup ks max_amt secret = Some (Ok p)"
  shows "keyset_info p = ks" "funding_token_amount p = funding"
    "maximum_amount_for_one_output p = max_amt" "capacity p = cap"
  using params_new_OkD(3) [OF assms] by simp_all

lemma for_balance_exists:
  assumes "fee_safe (keyset_info p) (funding_token_amount p)"
    "deterministic_value_after_fees (keyset_info p) (funding_token_amount p) (maximum_amount_for_one_output p) = Some (Ok v1)"
    "deterministic_value_after_fees (keyset_info p) v1 (maximum_amount_for_one_output p) = Some (Ok v2)"
    "capacity p \<le> v2" "b \<le> capacity p"
  shows "\<exists>co. for_balance b p = Some (Ok co)"
proof -
  have "b \<le> v2" using assms(4,5) by simp
  then obtain r where r:
    "inverse_deterministic_value_after_fees (keyset_info p) b (maximum_amount_for_one_output p) = Some (Ok r)"
    "nominal_value r \<le> v1"
    using ks_fees.balance_fits [OF assms(1-3)] by blast
  obtain d1 d2 where d: "outputs_new ''receiver'' (nominal_value r) p = Some (Ok d1)"
    "outputs_new ''sender'' (v1 - nominal_value r) p = Some (Ok d2)"
    using outputs_new_total [OF assms(1)] by metis
  have "get_value_after_stage1 p = Some (Ok v1)"
    using assms(2) by (simp add: get_value_after_stage1_def get_value_after_stage1_with_keyset_def)
  then show ?thesis
    using assms(5) r d by (simp add: for_balance_def not_less Let_def)
qed



section \<open>A commitment conserves the value\<close>

lemma sum_amounts_context:
  "context_wf d \<Longrightarrow> sum_list (map unat (ol_amounts (ordered_amounts d))) = unat (do_amount d)"
  unfolding context_wf_def by (rule from_target_sum(1))

text \<open>C8: a commitment splits exactly what is left of the funding after the first fee stage: the receiver's and the
  sender's outputs add up to it, and the receiver's outputs are worth, after the second stage, at
  least the balance they stand for.\<close>

theorem for_balance_conserves:
  assumes "for_balance b p = Some (Ok co)" "get_value_after_stage1 p = Some (Ok v1)"
  shows "sum_list (map unat (ol_amounts (ordered_amounts (receiver_outputs co)))) +
         sum_list (map unat (ol_amounts (ordered_amounts (sender_outputs co)))) = unat v1 \<and>
         b \<le> outputs_value_after_fees (receiver_outputs co)"
  using assms(1)
proof (rule for_balance_OkE)
  fix v r
  assume *: "get_value_after_stage1 p = Some (Ok v)"
    "inverse_deterministic_value_after_fees (keyset_info p) b (maximum_amount_for_one_output p) = Some (Ok r)"
    "nominal_value r \<le> v" "context_wf (receiver_outputs co)" "context_wf (sender_outputs co)"
    "do_amount (receiver_outputs co) = nominal_value r" "do_amount (sender_outputs co) = v - nominal_value r"
    "do_params (receiver_outputs co) = p"
  have v: "v = v1" using *(1) assms(2) by simp
  have "deterministic_value_after_fees (keyset_info p) (nominal_value r) (maximum_amount_for_one_output p) =
      Some (Ok (outputs_value_after_fees (receiver_outputs co)))"
    using *(4,6,8)
    by (simp add: context_wf_def deterministic_value_after_fees_def outputs_value_after_fees_def)
  then have "b \<le> outputs_value_after_fees (receiver_outputs co)"
    using ks_fees.inv_exact [OF *(2)] ks_fees.inv_reach [OF *(2)] by simp
  then show ?thesis
    using sum_amounts_context [OF *(4)] sum_amounts_context [OF *(5)] *(3,6,7) v
    by (simp add: unat_sub word_le_nat_alt)
qed

theorem for_balance_conserves_witness:
  "\<exists>co. for_balance 5 (example_params 10 Ordinary) = Some (Ok co) \<and>
     5 \<le> outputs_value_after_fees (receiver_outputs co)"
proof -
  have "map_option is_ok (for_balance 5 (example_params 10 Ordinary)) = Some True"
    "get_value_after_stage1 (example_params 10 Ordinary) = Some (Ok 11)"
    by code_simp+
  then show ?thesis using run_ok_obtain for_balance_conserves by blast
qed

section \<open>The derivation texts are separated\<close>

lemma digits_no_bar: "CHR ''|'' \<notin> set (show_u64 w)"
proof
  assume "CHR ''|'' \<in> set (show_u64 w)"
  then have "is_digit (CHR ''|'')" by (rule show_u64_digits)
  then show False by (simp add: is_digit_def)
qed

lemma derivation_text_split:
  assumes "CHR ''|'' \<notin> set id1" "CHR ''|'' \<notin> set id2" "CHR ''|'' \<notin> set c1" "CHR ''|'' \<notin> set c2"
    "id1 @ ''|'' @ c1 @ ''|'' @ show_u64 a1 @ ''|'' @ t1 = id2 @ ''|'' @ c2 @ ''|'' @ show_u64 a2 @ ''|'' @ t2"
  shows "id1 = id2 \<and> c1 = c2 \<and> a1 = a2 \<and> t1 = t2"
proof -
  have 1: "id1 = id2 \<and> c1 @ CHR ''|'' # show_u64 a1 @ ''|'' @ t1 = c2 @ CHR ''|'' # show_u64 a2 @ ''|'' @ t2"
    using assms(5) by (intro separator_split [OF _ assms(1,2)]) simp
  then have 2: "c1 = c2 \<and> show_u64 a1 @ CHR ''|'' # t1 = show_u64 a2 @ CHR ''|'' # t2"
    by (intro separator_split [OF _ assms(3,4)]) simp
  then have "show_u64 a1 = show_u64 a2 \<and> t1 = t2"
    by (intro separator_split [OF _ digits_no_bar digits_no_bar]) simp
  then show ?thesis using 1 2 by simp
qed

text \<open>C28: no two derived outputs share a derivation input.  Within the channels of one key derivation the nonce
  texts of different channels, contexts, amounts or indices differ, so do the blinding texts, and a
  nonce text is never a blinding text.\<close>

theorem derivation_inputs_separate:
  assumes "hex_laws C" "CHR ''|'' \<notin> set c" "CHR ''|'' \<notin> set c'"
  shows "(nonce_text (get_channel_id C p) c a i = nonce_text (get_channel_id C p') c' a' i' \<longrightarrow>
            get_channel_id C p = get_channel_id C p' \<and> c = c' \<and> a = a' \<and> i = i') \<and>
         (blinding_text (get_channel_id C p) c a i = blinding_text (get_channel_id C p') c' a' i' \<longrightarrow>
            get_channel_id C p = get_channel_id C p' \<and> c = c' \<and> a = a' \<and> i = i') \<and>
         nonce_text (get_channel_id C p) c a i \<noteq> blinding_text (get_channel_id C p') c' a' i'"
proof -
  have id: "CHR ''|'' \<notin> set (get_channel_id C q)" for q
    using assms(1) by (simp add: hex_laws_def get_channel_id_def)
  note split = derivation_text_split [OF id id assms(2,3)]
  have nonce: "nonce_text cid ctx amt idx = cid @ ''|'' @ ctx @ ''|'' @ show_u64 amt @ ''|'' @ (''nonce|'' @ show_u64 idx)"
    and blinding: "blinding_text cid ctx amt idx = cid @ ''|'' @ ctx @ ''|'' @ show_u64 amt @ ''|'' @ (''blinding|'' @ show_u64 idx)"
    for cid ctx amt idx
    by (simp_all add: nonce_text_def blinding_text_def)
  show ?thesis
    unfolding nonce blinding by (intro conjI impI notI; drule split; simp)
qed

theorem derivation_inputs_separate_witness:
  "nonce_text (get_channel_id example_crypto (example_params 5 Ordinary)) ''sender'' 1 0 \<noteq>
   nonce_text (get_channel_id example_crypto (example_params 5 Ordinary)) ''sender'' 1 1"
  using derivation_inputs_separate [OF example_hex_laws, of "''sender''" "''sender''"
      "example_params 5 Ordinary" 1 0 "example_params 5 Ordinary" 1 1] by simp

section \<open>The order of a swap request is the order of its completion\<close>

lemma insort_key_list_all2:
  assumes "list_all2 R xs ys" "R x y" "\<And>x y. R x y \<Longrightarrow> k x = k' y"
  shows "list_all2 R (insort_key k x xs) (insort_key k' y ys)"
  using assms(1)
proof (induction rule: list_all2_induct)
  case Nil
  then show ?case using assms(2) by simp
next
  case (Cons a as b bs)
  then show ?case using assms(2) assms(3) [OF assms(2)] assms(3) [OF Cons(1)] by simp
qed

lemma sort_key_list_all2:
  assumes "list_all2 R xs ys" "\<And>x y. R x y \<Longrightarrow> k x = k' y"
  shows "list_all2 R (sort_key k xs) (sort_key k' ys)"
  using assms(1)
proof (induction rule: list_all2_induct)
  case (Cons a as b bs)
  then show ?case using insort_key_list_all2 [of R _ _ a b k k'] assms(2) by simp
qed simp

lemma created_amount:
  assumes "create_deterministic_output_with_blinding C J p context amount index = Ok d"
  shows "ds_amount d = amount" "ds_index d = index"
  using assms
  by (auto simp: create_deterministic_output_with_blinding_def new_funding_def new_p2pk_def Let_def
      rbind_eq_Ok split: if_splits)

lemma amount_indices_fst: "map fst (amount_indices l) = smallest_first_amounts l"
  by (simp add: amount_indices_def smallest_first_amounts_def map_concat comp_def case_prod_beta'
      map_replicate_const)

lemma secrets_amounts:
  assumes "get_secrets_with_blinding C J d = Ok ss"
  shows "map ds_amount ss = (if do_amount d = 0 then [] else smallest_first_amounts (ordered_amounts d))"
proof (cases "do_amount d = 0")
  case False
  then have "list_all2 (\<lambda>(a, i) s. create_deterministic_output_with_blinding C J (do_params d) (do_context d) a i = Ok s)
      (amount_indices (ordered_amounts d)) ss"
    using assms by (simp add: get_secrets_with_blinding_def traverse_eq_Ok case_prod_beta')
  then have "map fst (amount_indices (ordered_amounts d)) = map ds_amount ss"
    by (induction rule: list_all2_induct) (auto dest: created_amount)
  then show ?thesis using False by (simp add: amount_indices_fst)
qed (use assms in \<open>simp add: get_secrets_with_blinding_def\<close>)

text \<open>A message that blinds an output: its amount is the output's.\<close>

definition blinds :: "crypto \<Rightarrow> key_id \<Rightarrow> DeterministicSecretWithBlinding \<Rightarrow> BlindedMessage \<Rightarrow> bool" where
  "blinds C kid det m \<longleftrightarrow> to_blinded_message C det (ds_amount det) kid = Ok m"

lemma blinds_message:
  assumes "blinds C kid det m"
  shows "bm_amount m = ds_amount det" "bm_keyset_id m = kid"
    "\<exists>r. blind_message C (ds_secret det) (ds_blinding_factor det) = Ok (bm_blinded_secret m, r)"
  using assms by (auto simp: blinds_def to_blinded_message_def rbind_eq_Ok blinded_message_new_def)

lemma blinded_messages_blind:
  assumes "get_blinded_messages C J d (Some kid) = Ok ms" "get_secrets_with_blinding C J d = Ok ss"
  shows "list_all2 (blinds C kid) ss ms"
proof -
  have "list_all2 (\<lambda>(s, a) m. to_blinded_message C s a kid = Ok m)
      (zip ss (smallest_first_amounts (ordered_amounts d))) ms"
    using assms by (simp add: get_blinded_messages_def traverse_eq_Ok case_prod_beta')
  moreover have "zip ss (smallest_first_amounts (ordered_amounts d)) = map (\<lambda>s. (s, ds_amount s)) ss"
  proof (cases "do_amount d = 0")
    case False
    then have "smallest_first_amounts (ordered_amounts d) = map ds_amount ss"
      using secrets_amounts [OF assms(2)] by simp
    then show ?thesis by (simp add: zip_map2 zip_same_conv_map)
  qed (use secrets_amounts [OF assms(2)] in simp)
  ultimately show ?thesis by (simp add: list_all2_map1 blinds_def [abs_def])
qed

text \<open>The outputs in the order both sides use: receiver before sender, sorted by amount, stably.\<close>

definition commitment_order ::
  "DeterministicSecretWithBlinding list \<Rightarrow> DeterministicSecretWithBlinding list
   \<Rightarrow> (DeterministicSecretWithBlinding \<times> bool) list" where
  "commitment_order receiver sender =
     sort_key (\<lambda>(det, _). ds_amount det) (map (\<lambda>det. (det, True)) receiver @ map (\<lambda>det. (det, False)) sender)"

lemma swap_request_blinds:
  assumes "create_swap_request C J co inputs (Some kid) = Ok request"
    "get_secrets_with_blinding C J (receiver_outputs co) = Ok rs"
    "get_secrets_with_blinding C J (sender_outputs co) = Ok ss"
  shows "list_all2 (\<lambda>(det, _) m. blinds C kid det m) (commitment_order rs ss) (sr_outputs request)"
    and "sr_inputs request = inputs"
    and "sr_rerandomized request \<longleftrightarrow> commitment_mode (do_params (receiver_outputs co)) = Rerandomized"
proof -
  obtain m1 m2 where m: "get_blinded_messages C J (receiver_outputs co) (Some kid) = Ok m1"
    "get_blinded_messages C J (sender_outputs co) (Some kid) = Ok m2"
    and out: "sr_outputs request = sort_key bm_amount (m1 @ m2)"
    and rest: "sr_inputs request = inputs"
      "sr_rerandomized request \<longleftrightarrow> commitment_mode (do_params (receiver_outputs co)) = Rerandomized"
    using assms(1)
    by (cases "commitment_mode (do_params (receiver_outputs co))")
      (auto simp: create_swap_request_def rbind_eq_Ok Let_def swap_request_new_def with_rerandomization_def)
  show "sr_inputs request = inputs"
    "sr_rerandomized request \<longleftrightarrow> commitment_mode (do_params (receiver_outputs co)) = Rerandomized"
    using rest by blast+
  have "list_all2 (\<lambda>(det, _) m. blinds C kid det m)
      (map (\<lambda>det. (det, True)) rs @ map (\<lambda>det. (det, False)) ss) (m1 @ m2)"
    using blinded_messages_blind [OF m(1) assms(2)] blinded_messages_blind [OF m(2) assms(3)]
    by (intro list_all2_appendI) (simp_all add: list_all2_map1)
  then show "list_all2 (\<lambda>(det, _) m. blinds C kid det m) (commitment_order rs ss) (sr_outputs request)"
    unfolding out commitment_order_def by (rule sort_key_list_all2) (auto dest: blinds_message)
qed

text \<open>The order in which a commitment is submitted is the order in which it is completed.  The request's
  outputs blind the derived secrets one by one in the order the completion assumes, which is sorted
  by amount, and the mint's signature for position i therefore belongs to the i-th derived secret.\<close>

lemma request_order_is_completion_order:
  assumes "create_swap_request C J co inputs (Some kid) = Ok request"
    "get_secrets_with_blinding C J (receiver_outputs co) = Ok rs"
    "get_secrets_with_blinding C J (sender_outputs co) = Ok ss"
  shows "list_all2 (\<lambda>(det, _) m. blinds C kid det m) (commitment_order rs ss) (sr_outputs request) \<and>
    sorted (map bm_amount (sr_outputs request))"
proof -
  note l = swap_request_blinds(1) [OF assms]
  have "map bm_amount (sr_outputs request) = map (\<lambda>(det, _). ds_amount det) (commitment_order rs ss)"
    using l by (induction rule: list_all2_induct) (auto dest: blinds_message(1))
  then show ?thesis using l by (simp add: commitment_order_def)
qed

section \<open>A completed commitment pays each side its share\<close>

lemma smallest_first_sum:
  assumes "context_wf d"
  shows "sum_list (map unat (smallest_first_amounts (ordered_amounts d))) = unat (do_amount d)"
proof -
  have "sum_list (map unat (smallest_first_amounts (ordered_amounts d))) =
      counts_total (count_by_amount (ordered_amounts d))"
  proof -
    have "sum_list (map unat (concat (map (\<lambda>(a, c). replicate (unat c) a) m))) = counts_total m" for m
      by (induction m) (auto simp: counts_total_def sum_list_replicate)
    then show ?thesis by (simp add: smallest_first_amounts_def iter_smallest_first_def)
  qed
  also have "\<dots> = unat (do_amount d)"
    using assms unfolding context_wf_def by (rule from_target_OkE)
  finally show ?thesis .
qed

lemma secrets_sum:
  assumes "context_wf d" "get_secrets_with_blinding C J d = Ok ss"
  shows "sum_list (map (unat \<circ> ds_amount) ss) = unat (do_amount d)"
  using secrets_amounts [OF assms(2)] smallest_first_sum [OF assms(1)]
  by (cases "do_amount d = 0") (simp_all flip: map_map)

lemma sum_list_sort_key: "sum_list (map g (sort_key k xs)) = (sum_list (map g xs) :: nat)"
  by (metis mset_map mset_sort sum_mset_sum_list)

lemma commitment_order_sum:
  "sum_list (map (unat \<circ> ds_amount \<circ> fst) (filter snd (commitment_order rs ss))) =
     sum_list (map (unat \<circ> ds_amount) rs)"
  "sum_list (map (unat \<circ> ds_amount \<circ> fst) (filter (\<lambda>x. \<not> snd x) (commitment_order rs ss))) =
     sum_list (map (unat \<circ> ds_amount) ss)"
  by (simp_all add: commitment_order_def filter_sort sum_list_sort_key filter_map comp_def)

text \<open>The proofs of a completed commitment, against the derived outputs.\<close>

lemma commitment_complete_Ok:
  assumes "construct_faithful C" "tweak_faithful C"
    "commitment_complete_swap_response C J co response ks = Ok pms"
    "get_secrets_with_blinding C J (receiver_outputs co) = Ok rs"
    "get_secrets_with_blinding C J (sender_outputs co) = Ok ss"
  shows "list_all2 (\<lambda>pm (det, rcv). pm_amount pm = ds_amount det \<and> pm_index pm = ds_index det \<and>
           is_receiver pm = rcv \<and> pr_amount (pm_proof pm) = ds_amount det \<and>
           pr_secret (pm_proof pm) = ds_secret det \<and> pr_p2pk_e (pm_proof pm) \<noteq> None)
         pms (commitment_order rs ss)"
proof -
  let ?all = "commitment_order rs ss"
  obtain request proofs where
    req: "create_swap_request C J co [] (Some (ki_keyset_id ks)) = Ok request"
    and comp: "complete_swap_response C J request
          (map (\<lambda>((det, _), message). \<lparr>ps_blinded_message = message, ps_secret = ds_secret det,
                                        ps_blinding_factor = ds_blinding_factor det\<rparr>)
             (zip ?all (sr_outputs request))) response ks = Ok proofs"
    and len: "length proofs = length ?all"
    and tr: "list_all2 (\<lambda>(pr, (det, is_rcv)) pm.
          rbind (attach_stage2_p2pk_e C (do_params (receiver_outputs co)) pr (if is_rcv then Receiver else Sender)
                   (ds_amount det) (ds_index det)) (\<lambda>pr'.
          Ok \<lparr>pm_proof = pr', pm_amount = ds_amount det, pm_index = ds_index det, is_receiver = is_rcv\<rparr>) = Ok pm)
        (zip proofs ?all) pms"
    using assms(3-5)
    by (auto simp: commitment_complete_swap_response_def Let_def rbind_eq_Ok traverse_eq_Ok
        commitment_order_def case_prod_beta' split: if_splits)
  note bl = swap_request_blinds(1) [OF req assms(4,5)]
  have lr: "length (sr_outputs request) = length ?all" using bl by (simp add: list_all2_lengthD)
  have am: "map pr_amount proofs = map bm_amount (sr_outputs request)"
    and sec: "map pr_secret proofs = map (ds_secret \<circ> fst) ?all"
    using complete_swap_response_facts [OF assms(1,2) comp] lr
    by (auto simp: comp_def case_prod_beta' intro!: nth_equalityI)
  have "map bm_amount (sr_outputs request) = map (ds_amount \<circ> fst) ?all"
    using bl by (induction rule: list_all2_induct) (auto dest: blinds_message(1))
  then have am': "pr_amount (proofs ! i) = ds_amount (fst (?all ! i))" if "i < length ?all" for i
    using am that len by (metis comp_apply nth_map)
  have sec': "pr_secret (proofs ! i) = ds_secret (fst (?all ! i))" if "i < length ?all" for i
    using sec that len by (metis comp_apply nth_map)
  show ?thesis
  proof (rule list_all2_all_nthI)
    show "length pms = length ?all" using list_all2_lengthD [OF tr] len by simp
    fix i assume "i < length pms"
    then have i: "i < length ?all" using list_all2_lengthD [OF tr] len by simp
    then show "case ?all ! i of (det, rcv) \<Rightarrow> pm_amount (pms ! i) = ds_amount det \<and>
        pm_index (pms ! i) = ds_index det \<and> is_receiver (pms ! i) = rcv \<and>
        pr_amount (pm_proof (pms ! i)) = ds_amount det \<and> pr_secret (pm_proof (pms ! i)) = ds_secret det \<and>
        pr_p2pk_e (pm_proof (pms ! i)) \<noteq> None"
      using list_all2_nthD [OF tr, of i] am' [OF i] sec' [OF i] len
      by (auto simp: rbind_eq_Ok attach_stage2_p2pk_e_def eq_commute [of _ "pms ! i"] split: prod.splits)
  qed
qed

lemma list_all2_filter_sum:
  assumes "list_all2 R xs ys" "\<And>x y. R x y \<Longrightarrow> (P x \<longleftrightarrow> Q y) \<and> f x = (g y :: nat)"
  shows "sum_list (map f (filter P xs)) = sum_list (map g (filter Q ys))"
  using assms(1) by (induction rule: list_all2_induct) (auto dest: assms(2))


text \<open>A mint that signs the outputs of a request.\<close>

definition example_mint :: "SwapRequest \<Rightarrow> SwapResponse" where
  "example_mint request =
     \<lparr>sp_signatures = map (\<lambda>m. \<lparr>bs_amount = bm_amount m, bs_keyset_id = bm_keyset_id m,
                                 bs_c = [2] @ bm_blinded_secret m, bs_dleq = None\<rparr>) (sr_outputs request),
      rerandomization_r = None\<rparr>"

definition short_crypto :: crypto where
  "short_crypto = example_crypto\<lparr>sha256 := take 1, hmac_sha256 := (\<lambda>k m. [sum_list m]),
     blind_message := (\<lambda>s r. Ok (r, r)),
     hex_encode := latin1\<rparr>"

definition short_codec :: codec where
  "short_codec = example_codec JNull"

definition short_params :: ChannelParameters where
  "short_params = (example_params 3 Ordinary)\<lparr>mint := ''m'', funding_token_amount := 3,
     keyset_info := example_keyset [1, 2] 0\<rparr>"

definition example_round :: "u64 \<Rightarrow> (string, CommitmentOutputs \<times> SwapRequest \<times> ProofWithMetadata list) run" where
  "example_round b =
     run_bind (for_balance b short_params) (\<lambda>co.
     run_bind (Some (create_swap_request short_crypto short_codec co [] (Some [0]))) (\<lambda>request.
     run_bind (Some (commitment_complete_swap_response short_crypto short_codec co (example_mint request)
       (example_keyset [1, 2] 0))) (\<lambda>pms. Some (Ok (co, request, pms)))))"

lemma example_round_ok: "map_option is_ok (example_round 1) = Some True"
  by code_simp

lemma example_round_OkE:
  obtains co request rs ss pms where "for_balance 1 short_params = Some (Ok co)"
    "create_swap_request short_crypto short_codec co [] (Some [0]) = Ok request"
    "get_secrets_with_blinding short_crypto short_codec (receiver_outputs co) = Ok rs"
    "get_secrets_with_blinding short_crypto short_codec (sender_outputs co) = Ok ss"
    "commitment_complete_swap_response short_crypto short_codec co (example_mint request) (example_keyset [1, 2] 0) = Ok pms"
proof -
  obtain r where "example_round 1 = Some (Ok r)" using run_ok_obtain [OF example_round_ok] by blast
  then show thesis
    by (auto simp: example_round_def run_bind_eq_Ok commitment_complete_swap_response_def Let_def rbind_eq_Ok
        split: if_splits intro!: that)
qed

lemma short_faithful: "construct_faithful short_crypto" "tweak_faithful short_crypto"
  using example_construct_faithful example_tweak_faithful
  by (simp_all add: short_crypto_def construct_faithful_def tweak_faithful_def)


end
