(* ===== verification/Bindings.thy ===== *)
theory Bindings
  imports Deterministic
begin

text \<open>
  The functions of \<open>crates/cdk-spilman/src/bindings.rs\<close> that the rest of the crate calls: parsing of
  keyset metadata and prepared outputs, the channel secret, the arithmetic of opening a channel from
  proofs, funding swaps, and signing with a tweaked key.

  A result that the code returns as JSON text is the printed value of a record.
\<close>

section \<open>Standard parsing\<close>

definition parse_u64 :: "string \<Rightarrow> (string, u64) result" where
  "parse_u64 s =
     (let digits = (if s \<noteq> [] \<and> hd s = CHR ''+'' then tl s else s) in
      if s = [] then Err ''cannot parse integer from empty string''
      else if digits = [] \<or> \<not> list_all is_digit digits then Err ''invalid digit found in string''
      else if read_nat digits < 2 ^ 64 then Ok (word_of_nat (read_nat digits))
      else Err ''number too large to fit in target type'')"

text \<open>The bound compared as a binary numeral, for evaluation.\<close>

lemma parse_u64_code [code]:
  "parse_u64 s =
     (let digits = (if s \<noteq> [] \<and> hd s = CHR ''+'' then tl s else s) in
      if s = [] then Err ''cannot parse integer from empty string''
      else if digits = [] \<or> \<not> list_all is_digit digits then Err ''invalid digit found in string''
      else if int (read_nat digits) < 2 ^ 64 then Ok (word_of_nat (read_nat digits))
      else Err ''number too large to fit in target type'')"
proof -
  have "int n < 2 ^ 64 \<longleftrightarrow> n < 2 ^ 64" for n by simp
  then show ?thesis by (simp only: parse_u64_def)
qed

fun as_object :: "json \<Rightarrow> (string \<times> json) list option" where
  "as_object (JObj kvs) = Some kvs"
| "as_object _ = None"

section \<open>Keyset metadata\<close>

definition parse_key :: "codec \<Rightarrow> string \<times> json \<Rightarrow> (string, u64 \<times> pubkey) result" where
  "parse_key J kv =
     (case kv of (amount_str, pubkey_val) \<Rightarrow>
        rbind (map_err (\<lambda>e. ''Invalid amount '' @ quoted amount_str @ '': '' @ e) (parse_u64 amount_str)) (\<lambda>amount.
        rbind (ok_or (''Invalid pubkey for amount '' @ show_u64 amount) (as_str pubkey_val)) (\<lambda>pubkey_hex.
        rbind (map_err (\<lambda>e. ''Invalid pubkey hex for amount '' @ show_u64 amount @ '': '' @ e) (pk_parse J pubkey_hex)) (\<lambda>pk.
        Ok (amount, pk)))))"

fun parse_keys :: "codec \<Rightarrow> (string \<times> json) list \<Rightarrow> keys \<Rightarrow> (string, keys) result" where
  "parse_keys J [] acc = Ok acc"
| "parse_keys J (kv # kvs) acc =
     rbind (parse_key J kv) (\<lambda>(amount, pk). parse_keys J kvs (btree_insert amount pk acc))"

definition parse_keyset_info_from_json :: "codec \<Rightarrow> string \<Rightarrow> (string, KeysetInfo) result" where
  "parse_keyset_info_from_json J text =
     rbind (map_err (\<lambda>e. ''Invalid keyset JSON: '' @ e) (json_parse J text)) (\<lambda>v.
     rbind (ok_or (missing_field ''keysetId'') (or_else (as_str (json_index v ''keysetId'')) (as_str (json_index v ''keyset_id''))))
       (\<lambda>keyset_id_str.
     rbind (map_err (\<lambda>e. ''Invalid keyset_id: '' @ e) (id_parse J keyset_id_str)) (\<lambda>kid.
     rbind (ok_or (missing_field ''unit'') (as_str (json_index v ''unit''))) (\<lambda>unit_str.
     rbind (map_err (\<lambda>e. ''Invalid unit: '' @ e) (unit_from_str J unit_str)) (\<lambda>u.
     rbind (ok_or (missing_field ''inputFeePpk'')
              (or_else (as_u64 (json_index v ''inputFeePpk'')) (as_u64 (json_index v ''input_fee_ppk'')))) (\<lambda>ppk.
     (let final_expiry = or_else (as_u64 (json_index v ''finalExpiry'')) (as_u64 (json_index v ''final_expiry'')) in
      rbind (ok_or (missing_field ''keys'') (as_object (json_index v ''keys''))) (\<lambda>keys_obj.
      rbind (parse_keys J keys_obj []) (\<lambda>keys_map.
      Ok (keyset_info_new kid u keys_map ppk final_expiry))))))))))"

section \<open>Secrets and amounts\<close>

definition decode_secret :: "codec \<Rightarrow> string \<Rightarrow> string \<Rightarrow> (string, bytes) result" where
  "decode_secret J what text =
     rbind (map_err (\<lambda>e. ''Invalid channel secret hex: '' @ e) (hex_decode J text)) (\<lambda>b.
     if length b \<noteq> 32 then Err (what @ '' must be 32 bytes, got '' @ show_nat (length b)) else Ok b)"

definition channel_parameters_get_channel_id ::
  "crypto \<Rightarrow> codec \<Rightarrow> string \<Rightarrow> string \<Rightarrow> string \<Rightarrow> (string, string) run" where
  "channel_parameters_get_channel_id C J params_text secret_hex keyset_text =
     run_bind (Some (rbind (decode_secret J ''Shared secret'' secret_hex) (\<lambda>secret.
                     rbind (parse_keyset_info_from_json J keyset_text) (\<lambda>ks. Ok (secret, ks))))) (\<lambda>(secret, ks).
     run_bind (run_map_err (\<lambda>e. ''Failed to parse params: '' @ e)
                 (from_json_with_channel_secret J params_text ks secret)) (\<lambda>p.
     Some (Ok (get_channel_id C p))))"

definition compute_channel_secret_from_hex :: "crypto \<Rightarrow> codec \<Rightarrow> string \<Rightarrow> string \<Rightarrow> (string, string) result" where
  "compute_channel_secret_from_hex C J my_secret_hex their_pubkey_hex =
     rbind (map_err (\<lambda>e. ''Invalid secret key: '' @ e) (sk_from_hex J my_secret_hex)) (\<lambda>my_secret.
     rbind (map_err (\<lambda>e. ''Invalid pubkey: '' @ e) (pk_parse J their_pubkey_hex)) (\<lambda>their_pubkey.
     Ok (hex_encode C (compute_channel_secret C my_secret their_pubkey))))"

definition compute_funding_token_amount :: "codec \<Rightarrow> u64 \<Rightarrow> string \<Rightarrow> u64 \<Rightarrow> (string, u64) run" where
  "compute_funding_token_amount J cap keyset_text maximum =
     run_bind (Some (parse_keyset_info_from_json J keyset_text)) (\<lambda>ks.
     run_map_err (\<lambda>e. ''Failed to compute funding token amount: '' @ e)
       (get_minimum_funding_token_amount cap ks maximum))"

record MixedInputFeeResult =
  mf_input_value :: u64
  mf_input_fee :: u64
  mf_post_swap_value :: u64

text \<open>The fee map is the last entry per keyset id.\<close>

fun sum_inputs :: "codec \<Rightarrow> (key_id \<rightharpoonup> u64) \<Rightarrow> Proof list \<Rightarrow> u64 \<Rightarrow> u64 \<Rightarrow> (string, u64 \<times> u64) result" where
  "sum_inputs J fees [] value ppk = Ok (value, ppk)"
| "sum_inputs J fees (pr # prs) value ppk =
     rbind (ok_or ''input proof value overflow'' (checked_add value (pr_amount pr))) (\<lambda>value'.
     rbind (ok_or (''missing input keyset fee metadata for proof keyset '' @ id_to_string J (pr_keyset_id pr))
              (fees (pr_keyset_id pr))) (\<lambda>fee.
     rbind (ok_or ''input fee ppk overflow'' (checked_add ppk fee)) (\<lambda>ppk'.
     sum_inputs J fees prs value' ppk')))"

definition compute_post_swap_value_from_input_keysets ::
  "codec \<Rightarrow> Proof list \<Rightarrow> (key_id \<times> u64) list \<Rightarrow> (string, MixedInputFeeResult) result" where
  "compute_post_swap_value_from_input_keysets J proofs input_keysets =
     rbind (sum_inputs J (map_of (rev input_keysets)) proofs 0 0) (\<lambda>(input_value, ppk_sum).
     (let input_fee = div_ceil ppk_sum 1000 in
      Ok \<lparr>mf_input_value = input_value, mf_input_fee = input_fee,
          mf_post_swap_value = saturating_sub input_value input_fee\<rparr>))"

section \<open>Opening a channel from proofs\<close>

record channel_opening =
  op_capacity :: u64
  op_funding :: u64
  op_input_value :: u64
  op_input_fee :: u64
  op_post_swap_value :: u64
  op_change :: u64
  op_mint :: string
  op_unit :: currency_unit
  op_keyset_id :: key_id
  op_receiver :: pubkey
  op_params :: ChannelParameters
  op_proofs :: "Proof list"

definition opening_json :: "codec \<Rightarrow> channel_opening \<Rightarrow> string" where
  "opening_json J r =
     json_print J (JObj
       [(''capacity'', JU64 (op_capacity r)), (''funding_token_amount'', JU64 (op_funding r)),
        (''input_value'', JU64 (op_input_value r)), (''input_fee'', JU64 (op_input_fee r)),
        (''post_swap_value'', JU64 (op_post_swap_value r)), (''change_amount_raw'', JU64 (op_change r)),
        (''mint_url'', JStr (op_mint r)), (''unit'', JStr (op_unit r)),
        (''output_keyset_id'', JStr (id_to_string J (op_keyset_id r))),
        (''receiver_pubkey_hex'', JStr (pk_to_hex J (op_receiver r))),
        (''params_json'', JStr (get_channel_id_params_json J (op_params r))),
        (''proofs_json'', JStr (proofs_print J (op_proofs r)))])"

text \<open>The current time, which the code reads from the clock, is the argument \<open>now\<close>.\<close>

definition compute_channel_from_proofs_inner ::
  "codec \<Rightarrow> u64 \<Rightarrow> Proof list \<Rightarrow> u64 \<Rightarrow> u64 \<Rightarrow> u64 \<Rightarrow> string \<Rightarrow> currency_unit \<Rightarrow> string \<Rightarrow> string \<Rightarrow> string \<Rightarrow> u64
   \<Rightarrow> KeysetInfo \<Rightarrow> u64 \<Rightarrow> u64 option \<Rightarrow> u64 option \<Rightarrow> CommitmentMode \<Rightarrow> (string, channel_opening) run" where
  "compute_channel_from_proofs_inner J now proofs input_value post_swap_value input_fee mint_url u receiver_hex
       sender_hex secret_hex expiry ks max_amt requested_capacity requested_funding mode =
     (if ki_unit ks \<noteq> u
      then Some (Err (''output keyset unit mismatch: expected '' @ u @ '', got '' @ ki_unit ks))
      else
        (let funding = (case requested_funding of Some amount \<Rightarrow> amount | None \<Rightarrow> post_swap_value) in
         if funding > post_swap_value
         then Some (Err (''requested funding token amount '' @ show_u64 funding @ '' exceeds selected post-swap value ''
                           @ show_u64 post_swap_value))
         else
           run_bind (run_map_err (\<lambda>e. ''Failed to compute v2: '' @ e) (deterministic_value_after_fees ks funding max_amt)) (\<lambda>v2.
           run_bind (run_map_err (\<lambda>e. ''Failed to compute capacity: '' @ e) (deterministic_value_after_fees ks v2 max_amt))
             (\<lambda>max_capacity.
           (let cap = (case requested_capacity of Some x \<Rightarrow> x | None \<Rightarrow> max_capacity) in
            if cap > max_capacity
            then Some (Err (''requested capacity '' @ show_u64 cap @ '' exceeds maximum achievable capacity ''
                              @ show_u64 max_capacity @ '' for funding_token_amount '' @ show_u64 funding))
            else
              (let change = post_swap_value - funding in
               run_bind (Some (rbind (map_err (\<lambda>e. ''Invalid sender pubkey: '' @ e) (pk_parse J sender_hex)) (\<lambda>sender.
                               rbind (map_err (\<lambda>e. ''Invalid receiver pubkey: '' @ e) (pk_parse J receiver_hex)) (\<lambda>receiver.
                               rbind (decode_secret J ''Channel secret'' secret_hex) (\<lambda>secret.
                               Ok (sender, receiver, secret)))))) (\<lambda>(sender, receiver, secret).
               run_bind (run_map_err (\<lambda>e. ''Failed to create channel params: '' @ e)
                           (params_new sender receiver mint_url u cap funding expiry now ks max_amt secret)) (\<lambda>p.
               Some (Ok \<lparr>op_capacity = cap, op_funding = funding, op_input_value = input_value, op_input_fee = input_fee,
                         op_post_swap_value = post_swap_value, op_change = change, op_mint = mint_url, op_unit = u,
                         op_keyset_id = ki_keyset_id ks, op_receiver = receiver,
                         op_params = with_commitment_mode p mode, op_proofs = proofs\<rparr>)))))))))"

definition reconstruct_funding_outputs ::
  "codec \<Rightarrow> string \<Rightarrow> string \<Rightarrow> string \<Rightarrow> (string, DeterministicOutputsForOneContext) run" where
  "reconstruct_funding_outputs J params_text secret_hex keyset_text =
     run_bind (Some (rbind (parse_keyset_info_from_json J keyset_text) (\<lambda>ks.
                     rbind (decode_secret J ''Channel secret'' secret_hex) (\<lambda>secret. Ok (ks, secret))))) (\<lambda>(ks, secret).
     run_bind (run_map_err (\<lambda>e. ''Failed to create ChannelParameters: '' @ e)
                 (from_json_with_channel_secret J params_text ks secret)) (\<lambda>p.
     run_bind (run_map_err (\<lambda>e. ''Failed to compute funding token amount: '' @ e) (get_total_funding_token_amount p))
       (\<lambda>nominal.
     run_map_err (\<lambda>e. ''Failed to create funding outputs: '' @ e) (outputs_new ''funding'' nominal p))))"

text \<open>A funding swap: the request and the secrets to unblind its outputs.\<close>

definition create_funding_swap ::
  "crypto \<Rightarrow> codec \<Rightarrow> string \<Rightarrow> string \<Rightarrow> string \<Rightarrow> string
   \<Rightarrow> (string, SwapRequest \<times> DeterministicSecretWithBlinding list) run" where
  "create_funding_swap C J params_text secret_hex keyset_text input_proofs_text =
     run_bind (reconstruct_funding_outputs J params_text secret_hex keyset_text) (\<lambda>funding_outputs.
     Some (rbind (map_err (\<lambda>e. ''Failed to parse input proofs: '' @ e) (proofs_parse J input_proofs_text)) (\<lambda>input_proofs.
           rbind (map_err (\<lambda>e. ''Failed to get funding blinded messages: '' @ e)
                    (get_blinded_messages C J funding_outputs None)) (\<lambda>blinded_messages.
           rbind (map_err (\<lambda>e. ''Failed to get funding secrets: '' @ e) (get_secrets_with_blinding C J funding_outputs))
             (\<lambda>funding_secrets.
           Ok (swap_request_new input_proofs blinded_messages, funding_secrets))))))"

section \<open>Completing an opening\<close>

definition secret_fault :: "string \<Rightarrow> string \<Rightarrow> nat \<Rightarrow> string" where
  "secret_fault field role index =
     ''Missing '' @ quoted field @ '' in '' @ role @ '' secret '' @ show_nat index"

definition parse_prepared_output ::
  "crypto \<Rightarrow> codec \<Rightarrow> KeysetInfo \<Rightarrow> string \<Rightarrow> nat \<times> json \<Rightarrow> (string, PreparedOutput) result" where
  "parse_prepared_output C J ks role iv =
     (case iv of (index, v) \<Rightarrow>
        rbind (ok_or (secret_fault ''secret'' role index) (as_str (json_index v ''secret''))) (\<lambda>secret_str.
        rbind (ok_or (secret_fault ''blinding_factor'' role index) (as_str (json_index v ''blinding_factor''))) (\<lambda>bf_hex.
        rbind (ok_or (secret_fault ''amount'' role index) (as_u64 (json_index v ''amount''))) (\<lambda>amount.
        if amount_key (active_keys ks) amount = None
        then Err (''No denomination key for '' @ role @ '' output '' @ show_nat index @ '' amount '' @ show_u64 amount)
        else
          rbind (map_err (\<lambda>e. ''Invalid '' @ role @ '' blinding factor '' @ show_nat index @ '': '' @ e) (sk_from_hex J bf_hex))
            (\<lambda>bf.
          rbind (map_err (\<lambda>e. ''Failed to blind '' @ role @ '' secret '' @ show_nat index @ '': '' @ e)
                   (blind_message C secret_str bf)) (\<lambda>(blinded_secret, _).
          Ok \<lparr>po_blinded_message = blinded_message_new amount (ki_keyset_id ks) blinded_secret, po_secret = secret_str,
              po_blinding_factor = bf\<rparr>))))))"

definition parse_prepared_outputs ::
  "crypto \<Rightarrow> codec \<Rightarrow> string \<Rightarrow> KeysetInfo \<Rightarrow> string \<Rightarrow> (string, PreparedOutput list) result" where
  "parse_prepared_outputs C J secrets_text ks role =
     rbind (map_err (\<lambda>e. ''Failed to parse '' @ role @ '' secrets: '' @ e)
              (rbind (json_parse J secrets_text) (\<lambda>v. ok_or ''expected a sequence'' (as_array v)))) (\<lambda>values.
     traverse (parse_prepared_output C J ks role) (enumerate 0 values))"

definition complete_exact_opening_signatures ::
  "crypto \<Rightarrow> codec \<Rightarrow> BlindSignature list \<Rightarrow> string \<Rightarrow> string \<Rightarrow> KeysetInfo \<Rightarrow> BlindedMessage list option
   \<Rightarrow> (string, Proof list \<times> Proof list) result" where
  "complete_exact_opening_signatures C J signatures funding_text change_text ks exact_outputs =
     rbind (parse_prepared_outputs C J funding_text ks ''funding'') (\<lambda>funding.
     rbind (parse_prepared_outputs C J change_text ks ''change'') (\<lambda>change.
     rbind (complete_exact_signatures C J signatures (funding @ change) ks exact_outputs) (\<lambda>proofs.
     Ok (take (length funding) proofs, drop (length funding) proofs))))"

section \<open>Signing with a tweaked key\<close>

definition sign_with_tweaked_key_util :: "crypto \<Rightarrow> codec \<Rightarrow> string \<Rightarrow> string \<Rightarrow> string \<Rightarrow> (string, string) result" where
  "sign_with_tweaked_key_util C J secret_key_hex message_hex tweak_scalar_hex =
     rbind (map_err (\<lambda>e. ''Invalid secret key: '' @ e) (sk_from_hex J secret_key_hex)) (\<lambda>secret.
     rbind (map_err (\<lambda>e. ''Invalid tweak hex: '' @ e) (hex_decode J tweak_scalar_hex)) (\<lambda>tweak_bytes.
     if length tweak_bytes \<noteq> 32 then Err (''Tweak must be 32 bytes, got '' @ show_nat (length tweak_bytes))
     else
       rbind (ok_or ''Invalid tweak scalar: out of range'' (scalar_from_be_bytes C tweak_bytes)) (\<lambda>tweak.
       rbind (map_err (\<lambda>e. ''Invalid message hex: '' @ e) (hex_decode J message_hex)) (\<lambda>msg.
       if length msg \<noteq> 32 then Err (''Message hash must be 32 bytes, got '' @ show_nat (length msg))
       else
         (let effective = (if odd_y C (public_key C secret) then sk_negate C secret else secret) in
          rbind (map_err (\<lambda>e. ''Failed to add tweak: '' @ e) (sk_add_tweak C effective tweak)) (\<lambda>tweaked.
          Ok (sig_to_string J (schnorr_sign C tweaked msg))))))))"

section \<open>Opening conserves value\<close>

lemma sum_inputs_Ok:
  assumes "sum_inputs J fees prs amt ppk = Ok (amt', ppk')"
  shows "unat amt' = unat amt + sum_list (map (unat \<circ> pr_amount) prs) \<and>
    unat ppk' = unat ppk + sum_list (map (\<lambda>pr. unat (the (fees (pr_keyset_id pr)))) prs) \<and>
    list_all (\<lambda>pr. fees (pr_keyset_id pr) \<noteq> None) prs"
  using assms
proof (induction prs arbitrary: amt ppk)
  case (Cons pr prs)
  then obtain v1 fee p1 where "checked_add amt (pr_amount pr) = Some v1" "fees (pr_keyset_id pr) = Some fee"
    "checked_add ppk fee = Some p1" "sum_inputs J fees prs v1 p1 = Ok (amt', ppk')"
    by (auto simp: rbind_eq_Ok ok_or_def split: option.splits)
  then show ?case using Cons.IH [of v1 p1] by (auto simp: checked_add_eq_Some unat_add_exact)
qed simp

text \<open>C33: the value of mixed inputs is accounted for exactly.  When the sums do not overflow and every input keyset
  is known, the input value is the sum of the proofs, the fee is the sum of the fee rates of their
  keysets divided by a thousand and rounded up, and what remains is the difference, or zero when the
  fee exceeds the value.\<close>

theorem post_swap_value_exact:
  assumes "compute_post_swap_value_from_input_keysets J proofs input_keysets = Ok r"
  shows "unat (mf_input_value r) = sum_list (map (unat \<circ> pr_amount) proofs) \<and>
    unat (mf_input_fee r) =
      (sum_list (map (\<lambda>pr. unat (the (map_of (rev input_keysets) (pr_keyset_id pr)))) proofs) + 999) div 1000 \<and>
    unat (mf_post_swap_value r) = unat (mf_input_value r) - unat (mf_input_fee r)"
proof -
  obtain v ppk where s: "sum_inputs J (map_of (rev input_keysets)) proofs 0 0 = Ok (v, ppk)"
    and r: "r = \<lparr>mf_input_value = v, mf_input_fee = div_ceil ppk 1000, mf_post_swap_value = saturating_sub v (div_ceil ppk 1000)\<rparr>"
    using assms by (auto simp: compute_post_swap_value_from_input_keysets_def rbind_eq_Ok Let_def)
  show ?thesis
    using sum_inputs_Ok [OF s] by (simp add: r unat_div_ceil)
qed

theorem post_swap_value_exact_witness:
  "\<exists>r. compute_post_swap_value_from_input_keysets (example_codec JNull)
      [\<lparr>pr_amount = 5, pr_keyset_id = [0], pr_secret = ''s'', pr_c = [1], pr_witness = None, pr_dleq = None, pr_p2pk_e = None\<rparr>]
      [([0], 100)] = Ok r \<and> unat (mf_post_swap_value r) = unat (mf_input_value r) - unat (mf_input_fee r)"
proof -
  let ?run = "compute_post_swap_value_from_input_keysets (example_codec JNull)
      [\<lparr>pr_amount = 5, pr_keyset_id = [0], pr_secret = ''s'', pr_c = [1], pr_witness = None, pr_dleq = None, pr_p2pk_e = None\<rparr>]
      [([0], 100)]"
  have "is_ok ?run" by code_simp
  then obtain r where "?run = Ok r" using is_ok_obtain by blast
  then show ?thesis using post_swap_value_exact by blast
qed

lemma opening_OkD:
  assumes "compute_channel_from_proofs_inner J now proofs input_value post_swap_value input_fee mint_url u receiver_hex
     sender_hex secret_hex expiry ks max_amt requested_capacity requested_funding mode = Some (Ok r)"
  obtains sender receiver secret p where "op_funding r \<le> post_swap_value" "op_change r = post_swap_value - op_funding r"
    "params_new sender receiver mint_url u (op_capacity r) (op_funding r) expiry now ks max_amt secret = Some (Ok p)"
    "op_params r = with_commitment_mode p mode" "op_proofs r = proofs"
    "requested_capacity = None \<or> requested_capacity = Some (op_capacity r)"
    "requested_funding = None \<and> op_funding r = post_swap_value \<or> requested_funding = Some (op_funding r)"
  using assms
  by (auto simp: compute_channel_from_proofs_inner_def run_bind_eq_Ok Let_def not_less rbind_eq_Ok
      split: if_splits option.splits)



end
