(* ===== verification/Host.thy ===== *)
theory Host
  imports SqliteStorage Bindings
begin

text \<open>
  The receiver's host: the trait \<open>SpilmanHost\<close> of \<open>crates/cdk-spilman/src/bridge.rs\<close> and its implementation
  \<open>ConfigurableHost\<close> in \<open>configurable_host.rs\<close>, over any storage.

  The trait is a record of operations on an abstract state, as the storage trait is.  The contract the
  bridge relies on is the locale \<open>spilman_host\<close>; it is proved for the configurable host over every storage
  that satisfies the storage contract.  The clock is an argument; log messages are left out.
\<close>

section \<open>The trait\<close>

record ChannelPolicy =
  min_expiry_in_seconds :: u64
  policy_min_capacity :: u64
  policy_max_amount_per_output :: "u64 option"

record ('s, 'c) SpilmanHost =
  h_receiver_key_is_acceptable :: "'s \<Rightarrow> pubkey \<Rightarrow> bool"
  h_mint_and_keyset_is_acceptable :: "'s \<Rightarrow> string \<Rightarrow> key_id \<Rightarrow> bool"
  h_get_funding :: "'s \<Rightarrow> channel_id \<Rightarrow> ChannelFunding option"
  h_save_funding :: "channel_id \<Rightarrow> ChannelFunding \<Rightarrow> PaymentProof \<Rightarrow> 's \<Rightarrow> 's"
  h_get_amount_due :: "'s \<Rightarrow> channel_id \<Rightarrow> 'c option \<Rightarrow> u64"
  h_record_payment :: "channel_id \<Rightarrow> PaymentProof \<Rightarrow> 'c \<Rightarrow> 's \<Rightarrow> 's"
  h_get_channel_state :: "'s \<Rightarrow> channel_id \<Rightarrow> (string, ChannelState option) result"
  h_mark_channel_closing :: "channel_id \<Rightarrow> u64 \<Rightarrow> PaymentProof \<Rightarrow> 's update"
  h_get_closing_data :: "'s \<Rightarrow> channel_id \<Rightarrow> ClosingData option"
  h_get_channel_policy :: "'s \<Rightarrow> string \<Rightarrow> ChannelPolicy option"
  h_now_seconds :: "'s \<Rightarrow> u64"
  h_get_balance_and_signature_for_unilateral_exit :: "'s \<Rightarrow> channel_id \<Rightarrow> PaymentProof option"
  h_get_active_keyset_ids :: "'s \<Rightarrow> string \<Rightarrow> currency_unit \<Rightarrow> key_id list"
  h_has_keysets_for_unit :: "'s \<Rightarrow> string \<Rightarrow> currency_unit \<Rightarrow> bool"
  h_get_keyset_info :: "'s \<Rightarrow> string \<Rightarrow> key_id \<Rightarrow> string option"
  h_mark_channel_closed :: "channel_id \<Rightarrow> u64 \<Rightarrow> u64 \<Rightarrow> string \<Rightarrow> string \<Rightarrow> u64 \<Rightarrow> u64 \<Rightarrow> 's update"
  h_compute_channel_secret :: "'s \<Rightarrow> string \<Rightarrow> string \<Rightarrow> (string, string) result"
  h_sign_with_tweaked_key :: "'s \<Rightarrow> string \<Rightarrow> string \<Rightarrow> string \<Rightarrow> (string, string) result"

section \<open>Configuration\<close>

text \<open>A hash map that is iterated is a list of entries with distinct keys, in the order of iteration.\<close>

record UnitPricingConfig =
  cfg_min_capacity :: u64
  cfg_max_amount_per_output :: "u64 option"
  cfg_variables :: "(string \<times> u64) list"

record ConfigurableHostConfig =
  cfg_mints :: "(string \<times> string list) list"
  cfg_min_expiry_seconds :: u64
  cfg_pricing_scale :: u64
  cfg_pricing :: "(string \<times> UnitPricingConfig) list"

record 's ConfigurableHost =
  host_config :: ConfigurableHostConfig
  host_server_pubkey :: pubkey
  host_server_secret_hex :: string
  host_storage :: "'s SpilmanStorage"

text \<open>The debug form of a string and of a list of strings, as the error message prints them.\<close>

definition escape_debug :: "char \<Rightarrow> string" where
  "escape_debug ch =
     (let n = of_char ch :: nat in
      if n = 0 then [CHR 0x5C, CHR ''0''] else if n = 9 then [CHR 0x5C, CHR ''t'']
      else if n = 10 then [CHR 0x5C, CHR ''n''] else if n = 13 then [CHR 0x5C, CHR ''r'']
      else if ch = CHR 0x22 \<or> ch = CHR 0x5C then [CHR 0x5C, ch]
      else if n < 16 then [CHR 0x5C] @ ''u{'' @ [hex_digit n] @ ''}''
      else if n < 32 \<or> n = 127 then [CHR 0x5C] @ ''u{'' @ [hex_digit (n div 16), hex_digit (n mod 16)] @ ''}''
      else [ch])"

definition debug_string :: "string \<Rightarrow> string" where
  "debug_string s = [CHR 0x22] @ concat (map escape_debug s) @ [CHR 0x22]"

definition join :: "string \<Rightarrow> string list \<Rightarrow> string" where
  "join sep xs = concat (case xs of [] \<Rightarrow> [] | y # ys \<Rightarrow> y # map (\<lambda>z. sep @ z) ys)"

definition debug_strings :: "string list \<Rightarrow> string" where
  "debug_strings xs = ''['' @ join '', '' (map debug_string xs) @ '']''"

definition trusted_units :: "ConfigurableHostConfig \<Rightarrow> string set" where
  "trusted_units cfg = set (concat (map snd (cfg_mints cfg)))"

definition host_with_storage ::
  "crypto \<Rightarrow> codec \<Rightarrow> ConfigurableHostConfig \<Rightarrow> string \<Rightarrow> 's SpilmanStorage \<Rightarrow> (string, 's ConfigurableHost) result" where
  "host_with_storage C J cfg secret_key_hex S =
     rbind (map_err (\<lambda>e. ''invalid secret key: '' @ e) (sk_from_hex J secret_key_hex)) (\<lambda>secret_key.
     (let missing = sorted_list_of_set (trusted_units cfg - set (map fst (cfg_pricing cfg))) in
      if missing \<noteq> []
      then Err (''units trusted by at least one mint but missing from pricing: '' @ debug_strings missing)
      else Ok \<lparr>host_config = cfg, host_server_pubkey = public_key C secret_key,
               host_server_secret_hex = secret_key_hex, host_storage = S\<rparr>))"

definition pricing_scale :: "'s ConfigurableHost \<Rightarrow> u64" where
  "pricing_scale host = max (cfg_pricing_scale (host_config host)) 1"

section \<open>Pricing\<close>

definition channel_unit :: "codec \<Rightarrow> 's ConfigurableHost \<Rightarrow> 's \<Rightarrow> channel_id \<Rightarrow> string option" where
  "channel_unit J host s c =
     (case st_get_funding (host_storage host) s c of
        None \<Rightarrow> None
      | Some funding \<Rightarrow>
          (case json_parse J (params_json funding) of
             Err _ \<Rightarrow> None
           | Ok v \<Rightarrow> (case json_get v ''unit'' of None \<Rightarrow> None | Some x \<Rightarrow> as_str x)))"

text \<open>The context of a request is a JSON object of counters; a repeated key keeps its last value.\<close>

definition usage_from_json :: "codec \<Rightarrow> string \<Rightarrow> usage_map option" where
  "usage_from_json J text =
     (case json_raw J text of
        Ok (RawObj kvs) \<Rightarrow>
          if list_all (\<lambda>(_, v). as_u64 v \<noteq> None) kvs
          then Some (foldl (\<lambda>m (k, v). AList.update k (the (as_u64 v)) m) [] kvs) else None
      | _ \<Rightarrow> None)"

definition counter :: "usage_map \<Rightarrow> string \<Rightarrow> u64" where
  "counter m k = (case map_of m k of None \<Rightarrow> 0 | Some n \<Rightarrow> n)"

definition price_step :: "usage_map \<Rightarrow> usage_map \<Rightarrow> u64 \<Rightarrow> string \<times> u64 \<Rightarrow> u64" where
  "price_step accumulated pending acc vp =
     (case vp of (var_name, price) \<Rightarrow>
        saturating_add acc (saturating_mul (counter accumulated var_name + counter pending var_name) price))"

definition compute_amount_due :: "codec \<Rightarrow> 's ConfigurableHost \<Rightarrow> 's \<Rightarrow> channel_id \<Rightarrow> string option \<Rightarrow> u64" where
  "compute_amount_due J host s c context_json =
     (let u = (case channel_unit J host s c of None \<Rightarrow> [] | Some u \<Rightarrow> u) in
      case map_of (cfg_pricing (host_config host)) u of
        None \<Rightarrow> 0
      | Some unit_pricing \<Rightarrow>
          (let accumulated = (case st_get_usage (host_storage host) s c of None \<Rightarrow> [] | Some m \<Rightarrow> m);
               pending = (case context_json of
                            None \<Rightarrow> []
                          | Some t \<Rightarrow> (case usage_from_json J t of None \<Rightarrow> [] | Some m \<Rightarrow> m))
           in div_ceil (foldl (price_step accumulated pending) 0 (cfg_variables unit_pricing)) (pricing_scale host)))"

definition apply_usage_increments :: "codec \<Rightarrow> 's ConfigurableHost \<Rightarrow> channel_id \<Rightarrow> string \<Rightarrow> 's \<Rightarrow> 's" where
  "apply_usage_increments J host c context_json s =
     (case usage_from_json J context_json of
        None \<Rightarrow> s
      | Some increments \<Rightarrow> snd (st_increment_usage (host_storage host) c increments s))"

definition get_active_pricing :: "'s ConfigurableHost \<Rightarrow> 's \<Rightarrow> (string \<times> UnitPricingConfig) list" where
  "get_active_pricing host s =
     filter (\<lambda>(u, _). u \<in> st_get_active_units (host_storage host) s) (cfg_pricing (host_config host))"

text \<open>Fetching the keysets of a mint is network access, an argument here.\<close>

fun fetch_each :: "(string \<Rightarrow> 's update) \<Rightarrow> string list \<Rightarrow> 's \<Rightarrow> string list \<times> 's" where
  "fetch_each fetch [] s = ([], s)"
| "fetch_each fetch (url # urls) s =
     (case fetch url s of (r, s1) \<Rightarrow>
       (case fetch_each fetch urls s1 of (errors, s2) \<Rightarrow>
          (case r of Ok _ \<Rightarrow> (errors, s2) | Err e \<Rightarrow> ((url @ '': '' @ e) # errors, s2))))"

definition initialize_keysets :: "(string \<Rightarrow> 's update) \<Rightarrow> 's ConfigurableHost \<Rightarrow> 's update" where
  "initialize_keysets fetch host s =
     (let mint_urls = map fst (cfg_mints (host_config host)) in
      case fetch_each fetch mint_urls s of (errors, s') \<Rightarrow>
        (if length errors = length mint_urls \<and> mint_urls \<noteq> []
         then Err (''Failed to fetch keysets from all mints: '' @ join ''; '' errors) else Ok (), s'))"

section \<open>The implementation of the trait\<close>

definition ch_mint_and_keyset_is_acceptable :: "'s ConfigurableHost \<Rightarrow> 's \<Rightarrow> string \<Rightarrow> key_id \<Rightarrow> bool" where
  "ch_mint_and_keyset_is_acceptable host s mint_url kid =
     (case map_of (cfg_mints (host_config host)) mint_url of
        None \<Rightarrow> False
      | Some units \<Rightarrow>
          (case st_get_keyset (host_storage host) s mint_url kid of
             Some entry \<Rightarrow> kc_active entry \<and> kc_unit entry \<in> set units
           | None \<Rightarrow> False))"

definition ch_save_funding ::
  "'s ConfigurableHost \<Rightarrow> channel_id \<Rightarrow> ChannelFunding \<Rightarrow> PaymentProof \<Rightarrow> 's \<Rightarrow> 's" where
  "ch_save_funding host c funding initial_payment s =
     (case st_save_funding (host_storage host) c funding s of
        (Err _, s1) \<Rightarrow> s1
      | (Ok _, s1) \<Rightarrow> snd (st_update_balance (host_storage host) c initial_payment s1))"

definition ch_record_payment ::
  "codec \<Rightarrow> 's ConfigurableHost \<Rightarrow> channel_id \<Rightarrow> PaymentProof \<Rightarrow> string \<Rightarrow> 's \<Rightarrow> 's" where
  "ch_record_payment J host c payment context s =
     (case st_update_balance (host_storage host) c payment s of
        (Err _, s1) \<Rightarrow> s1
      | (Ok _, s1) \<Rightarrow> apply_usage_increments J host c context s1)"

definition ch_mark_channel_closing :: "'s ConfigurableHost \<Rightarrow> channel_id \<Rightarrow> u64 \<Rightarrow> PaymentProof \<Rightarrow> 's update" where
  "ch_mark_channel_closing host c expiry payment =
     st_mark_closing (host_storage host) c
       \<lparr>cd_expiry_timestamp = expiry, cd_balance = pay_balance payment, cd_signature = pay_signature payment\<rparr>"

definition ch_get_channel_policy :: "'s ConfigurableHost \<Rightarrow> string \<Rightarrow> ChannelPolicy option" where
  "ch_get_channel_policy host u =
     map_option (\<lambda>cfg. \<lparr>min_expiry_in_seconds = cfg_min_expiry_seconds (host_config host),
                        policy_min_capacity = cfg_min_capacity cfg,
                        policy_max_amount_per_output = cfg_max_amount_per_output cfg\<rparr>)
       (map_of (cfg_pricing (host_config host)) u)"

definition ch_mark_channel_closed ::
  "'s ConfigurableHost \<Rightarrow> channel_id \<Rightarrow> u64 \<Rightarrow> u64 \<Rightarrow> string \<Rightarrow> string \<Rightarrow> u64 \<Rightarrow> u64 \<Rightarrow> 's update" where
  "ch_mark_channel_closed host c expiry balance receiver_json sender_json r_sum s_sum =
     st_mark_closed (host_storage host) c
       \<lparr>cv_expiry_timestamp = expiry, closed_amount = balance, value_after_stage1 = r_sum + s_sum,
        receiver_sum = r_sum, sender_sum = s_sum, receiver_proofs_json = receiver_json,
        sender_proofs_json = sender_json\<rparr>"

definition configurable_host ::
  "crypto \<Rightarrow> codec \<Rightarrow> u64 \<Rightarrow> 's ConfigurableHost \<Rightarrow> ('s, string) SpilmanHost" where
  "configurable_host C J now host =
     \<lparr>h_receiver_key_is_acceptable = (\<lambda>s pk. pk = host_server_pubkey host),
      h_mint_and_keyset_is_acceptable = ch_mint_and_keyset_is_acceptable host,
      h_get_funding = st_get_funding (host_storage host), h_save_funding = ch_save_funding host,
      h_get_amount_due = compute_amount_due J host, h_record_payment = ch_record_payment J host,
      h_get_channel_state = st_get_state (host_storage host),
      h_mark_channel_closing = ch_mark_channel_closing host,
      h_get_closing_data = st_get_closing_data (host_storage host),
      h_get_channel_policy = (\<lambda>s. ch_get_channel_policy host), h_now_seconds = (\<lambda>s. now),
      h_get_balance_and_signature_for_unilateral_exit = st_get_balance (host_storage host),
      h_get_active_keyset_ids = st_get_active_keyset_ids (host_storage host),
      h_has_keysets_for_unit = (\<lambda>s mint_url u. st_list_keysets_for_unit (host_storage host) s mint_url u \<noteq> []),
      h_get_keyset_info = (\<lambda>s mint_url kid. map_option kc_info_json (st_get_keyset (host_storage host) s mint_url kid)),
      h_mark_channel_closed = ch_mark_channel_closed host,
      h_compute_channel_secret = (\<lambda>s _ sender_hex. compute_channel_secret_from_hex C J (host_server_secret_hex host) sender_hex),
      h_sign_with_tweaked_key = (\<lambda>s _ message_hex tweak_hex.
        sign_with_tweaked_key_util C J (host_server_secret_hex host) message_hex tweak_hex)\<rparr>"

section \<open>The amount due\<close>

lemma price_fold:
  assumes "list_all (\<lambda>(v, _). unat (counter acc v) + unat (counter pend v) < 2 ^ 64) vps"
  shows "unat (foldl (price_step acc pend) t vps) =
    min (unat t + sum_list (map (\<lambda>(v, price). (unat (counter acc v) + unat (counter pend v)) * unat price) vps)) (2 ^ 64 - 1)"
  using assms
proof (induction vps arbitrary: t)
  case Nil
  then show ?case using unat_u64_less [of t] by simp
next
  case (Cons vp vps)
  obtain v price where vp: "vp = (v, price)" by (cases vp)
  have "unat (price_step acc pend t vp) =
      min (unat t + (unat (counter acc v) + unat (counter pend v)) * unat price) (2 ^ 64 - 1)"
    using Cons.prems by (simp add: vp price_step_def u64_nat min_def)
  then show ?case using Cons.IH [of "price_step acc pend t vp"] Cons.prems by (simp add: vp min_def)
qed


section \<open>The storage a host needs\<close>

text \<open>Beyond the storage contract: funding of an unknown channel can be saved, and an open channel accepts a payment
  whose balance fits.\<close>

locale payment_store = channel_store S ok valid
  for S :: "'s SpilmanStorage" and ok :: "'s \<Rightarrow> bool" and valid :: "'s \<Rightarrow> storage_op \<Rightarrow> bool" +
  fixes fits :: "u64 \<Rightarrow> bool"
  assumes unknown: "ok s \<Longrightarrow> v_state (view S s c) = None \<Longrightarrow> v_funding (view S s c) = None"
    and save_new: "ok s \<Longrightarrow> v_state (view S s c) = None \<Longrightarrow> valid s (SaveFunding c f)"
    and save_accepts: "ok s \<Longrightarrow> is_ok (fst (st_save_funding S c f s))"
    and update_accepts: "ok s \<Longrightarrow> v_state (view S s c) = Some Open \<Longrightarrow> fits (pay_balance p) \<Longrightarrow>
      is_ok (fst (st_update_balance S c p s))"
begin

lemma state_read: "ok s \<Longrightarrow> st_get_state S s c = Ok (v_state (view S s c))"
  using reads [of s c] by (auto simp: view_def is_ok_def split: sum.splits)

lemma update_step:
  assumes "ok s" "pay_signature p \<noteq> []" "st_update_balance S c p s = (r, s')"
  shows "ok s'" "c' \<noteq> c \<Longrightarrow> view S s' c' = view S s c'"
    "is_ok r \<Longrightarrow> spec_step (UpdateBalance c p) (view S s c) = Some (view S s' c)"
    "\<not> is_ok r \<Longrightarrow> view S s' c = view S s c"
    "v_state (view S s c) = Some Open \<Longrightarrow> fits (pay_balance p) \<Longrightarrow> is_ok r"
proof -
  have v: "valid s (UpdateBalance c p)" using valid_payment [of "UpdateBalance c p" s] assms(2) by simp
  show "ok s'" using keeps_ok [OF assms(1) v] assms(3) by simp
  show "c' \<noteq> c \<Longrightarrow> view S s' c' = view S s c'"
    using effect [OF assms(1) v, of r s' c'] assms(3) by (auto simp: moves_def split: if_splits)
  show "is_ok r \<Longrightarrow> spec_step (UpdateBalance c p) (view S s c) = Some (view S s' c)"
    "\<not> is_ok r \<Longrightarrow> view S s' c = view S s c"
    using effect [OF assms(1) v, of r s' c] assms(3) by (simp_all add: moves_def)
  show "v_state (view S s c) = Some Open \<Longrightarrow> fits (pay_balance p) \<Longrightarrow> is_ok r"
    using update_accepts [OF assms(1), of c p] assms(3) by simp
qed

lemma closing_step:
  assumes "ok s" "st_mark_closing S c cd s = (r, s')"
  shows "ok s' \<and> (if is_ok r then moves (MarkClosing c cd) c' (view S s c') (view S s' c') else view S s' c' = view S s c')"
  using keeps_ok [OF assms(1), of "MarkClosing c cd" r s'] effect [OF assms(1), of "MarkClosing c cd" r s' c']
    valid_payment [of "MarkClosing c cd" s] assms(2) by simp

lemma closed_step:
  assumes "ok s" "st_mark_closed S c d s = (r, s')"
  shows "ok s' \<and> (if is_ok r then moves (MarkClosed c d) c' (view S s c') (view S s' c') else view S s' c' = view S s c')"
  using keeps_ok [OF assms(1), of "MarkClosed c d" r s'] effect [OF assms(1), of "MarkClosed c d" r s' c']
    valid_payment [of "MarkClosed c d" s] assms(2) by simp

lemma usage_step:
  assumes "ok s" "st_increment_usage S c u s = (r, s')"
  shows "ok s'" "view S s' c' = view S s c'"
proof -
  have v: "valid s (IncrementUsage c u)" using valid_payment [of "IncrementUsage c u" s] by simp
  show "ok s'" using keeps_ok [OF assms(1) v] assms(2) by simp
  show "view S s' c' = view S s c'"
    using effect [OF assms(1) v, of r s' c'] assms(2) by (auto simp: moves_def split: if_splits)
qed

end

interpretation mem_pay: payment_store "memory_storage J" memory_ok "\<lambda>_. valid_op" "\<lambda>_. True" for J
proof
  fix s c
  assume "memory_ok s" "v_state (view (memory_storage J) s c) = None"
  then show "v_funding (view (memory_storage J) s c) = None"
    by (simp add: memory_view ms_state_def split: if_splits)
next
  fix s c f
  show "is_ok (fst (st_save_funding (memory_storage J) c f s))" by (simp add: ms_save_funding_def)
next
  fix s c p
  assume "memory_ok s" "v_state (view (memory_storage J) s c) = Some Open"
  then show "is_ok (fst (st_update_balance (memory_storage J) c p s))"
    by (simp add: memory_view ms_update_balance_def ms_get_state_Ok Let_def)
qed simp

text \<open>SQLite stores a balance in a signed column.\<close>

interpretation sql_pay: payment_store "sqlite_storage J K" "sqlite_ok K" sqlite_valid "\<lambda>b. b < 0x8000000000000000" for J K
proof
  fix s c
  assume "sqlite_ok K s" "v_state (view (sqlite_storage J K) s c) = None"
  moreover have "row_channel_state row \<noteq> None" if "channels s c = Some row" for row
    using \<open>sqlite_ok K s\<close> that by (auto simp: sqlite_ok_def row_ok_def row_channel_state_def)
  ultimately have none: "channels s c = None"
    by (cases "channels s c") (auto simp: sqlite_view row_view_def)
  then show "v_funding (view (sqlite_storage J K) s c) = None"
    using sqlite_view [OF \<open>sqlite_ok K s\<close>, of J c] by (simp add: no_view_def)
  show "sqlite_valid s (SaveFunding c f)" for f using none by (simp add: sqlite_valid_def)
next
  fix s c f
  show "is_ok (fst (st_save_funding (sqlite_storage J K) c f s))" by (simp add: sq_save_funding_def)
next
  fix s c and p :: PaymentProof
  assume a: "sqlite_ok K s" "v_state (view (sqlite_storage J K) s c) = Some Open" "pay_balance p < 0x8000000000000000"
  obtain row where row: "channels s c = Some row"
    using a(2) sqlite_view [OF a(1), of J c] by (cases "channels s c") (simp_all add: no_view_def)
  then have "row_state row = ''Open''"
    using a(2) sqlite_view [OF a(1), of J c] by (simp add: row_view_def row_channel_state_def split: if_splits)
  then show "is_ok (fst (st_update_balance (sqlite_storage J K) c p s))"
    using a(3) row by (simp add: sq_update_balance_def i64_try_from_def)
qed

section \<open>The contract of a host\<close>

text \<open>What the bridge relies on: reads show the view of a channel; recording funding opens an unknown channel;
  recording a payment only raises the recorded balance, and does so when the balance fits; the two
  closing steps act as the storage operations they name, and nothing touches another channel.\<close>

locale spilman_host =
  fixes H :: "('s, 'c) SpilmanHost" and ok :: "'s \<Rightarrow> bool" and V :: "'s \<Rightarrow> channel_id \<Rightarrow> channel_view" and fits :: "u64 \<Rightarrow> bool"
  assumes host_state: "ok s \<Longrightarrow> h_get_channel_state H s c = Ok (v_state (V s c))"
    and host_funding: "h_get_funding H s c = v_funding (V s c)"
    and host_closing: "h_get_closing_data H s c = v_closing (V s c)"
    and host_balance: "h_get_balance_and_signature_for_unilateral_exit H s c = v_balance (V s c)"
    and host_saves: "ok s \<Longrightarrow> v_state (V s c) = None \<Longrightarrow> pay_signature p \<noteq> [] \<Longrightarrow>
      ok (h_save_funding H c f p s) \<and> v_state (V (h_save_funding H c f p s) c) = Some Open \<and>
      v_funding (V (h_save_funding H c f p s) c) = Some f \<and> (\<forall>c'. c' \<noteq> c \<longrightarrow> V (h_save_funding H c f p s) c' = V s c')"
    and host_records: "ok s \<Longrightarrow> pay_signature p \<noteq> [] \<Longrightarrow>
      ok (h_record_payment H c p x s) \<and> (\<forall>c'. c' \<noteq> c \<longrightarrow> V (h_record_payment H c p x s) c' = V s c') \<and>
      (V (h_record_payment H c p x s) c = V s c \<or> spec_step (UpdateBalance c p) (V s c) = Some (V (h_record_payment H c p x s) c)) \<and>
      (fits (pay_balance p) \<and> v_state (V s c) = Some Open \<longrightarrow>
         spec_step (UpdateBalance c p) (V s c) = Some (V (h_record_payment H c p x s) c))"
    and host_marks_closing: "ok s \<Longrightarrow> h_mark_channel_closing H c e p s = (r, s') \<Longrightarrow>
      ok s' \<and> (if is_ok r
        then moves (MarkClosing c \<lparr>cd_expiry_timestamp = e, cd_balance = pay_balance p, cd_signature = pay_signature p\<rparr>)
               c' (V s c') (V s' c')
        else V s' c' = V s c')"
    and host_marks_closed: "ok s \<Longrightarrow> h_mark_channel_closed H c e b rj sj rs ss s = (r, s') \<Longrightarrow>
      ok s' \<and> (if is_ok r
        then moves (MarkClosed c \<lparr>cv_expiry_timestamp = e, closed_amount = b, value_after_stage1 = rs + ss, receiver_sum = rs,
                      sender_sum = ss, receiver_proofs_json = rj, sender_proofs_json = sj\<rparr>) c' (V s c') (V s' c')
        else V s' c' = V s c')"

text \<open>The configurable host over a storage that satisfies its contract.\<close>

locale configurable = payment_store "host_storage host" ok valid fits
  for host :: "'s ConfigurableHost" and ok :: "'s \<Rightarrow> bool" and valid :: "'s \<Rightarrow> storage_op \<Rightarrow> bool" and fits :: "u64 \<Rightarrow> bool" +
  fixes C :: crypto and J :: codec and now :: u64
begin

lemma configurable_simps [simp]:
  "h_get_channel_state (configurable_host C J now host) = st_get_state (host_storage host)"
  "h_get_funding (configurable_host C J now host) = st_get_funding (host_storage host)"
  "h_save_funding (configurable_host C J now host) = ch_save_funding host"
  "h_record_payment (configurable_host C J now host) = ch_record_payment J host"
  "h_mark_channel_closing (configurable_host C J now host) = ch_mark_channel_closing host"
  "h_mark_channel_closed (configurable_host C J now host) = ch_mark_channel_closed host"
  "h_get_closing_data (configurable_host C J now host) = st_get_closing_data (host_storage host)"
  "h_get_balance_and_signature_for_unilateral_exit (configurable_host C J now host) = st_get_balance (host_storage host)"
  by (simp_all add: configurable_host_def)

lemma saves:
  assumes "ok s" "v_state (view (host_storage host) s c) = None" "pay_signature p \<noteq> []" "s' = ch_save_funding host c f p s"
  shows "ok s' \<and> v_state (view (host_storage host) s' c) = Some Open \<and> v_funding (view (host_storage host) s' c) = Some f \<and>
    (\<forall>c'. c' \<noteq> c \<longrightarrow> view (host_storage host) s' c' = view (host_storage host) s c')"
proof -
  obtain r1 s1 where r1: "st_save_funding (host_storage host) c f s = (r1, s1)"
    by (cases "st_save_funding (host_storage host) c f s")
  obtain r2 s2 where r2: "st_update_balance (host_storage host) c p s1 = (r2, s2)"
    by (cases "st_update_balance (host_storage host) c p s1")
  note v = save_new [OF assms(1,2), of f]
  have ok1: "is_ok r1" using save_accepts [OF assms(1), of c f] r1 by simp
  have s': "s' = s2" using ok1 r1 r2 by (cases r1) (simp_all add: assms(4) ch_save_funding_def)
  have k1: "ok s1" using keeps_ok [OF assms(1) v] r1 by simp
  have m: "moves (SaveFunding c f) c' (view (host_storage host) s c') (view (host_storage host) s1 c')" for c'
    using effect [OF assms(1) v, of r1 s1 c'] r1 ok1 by simp
  have one: "v_state (view (host_storage host) s1 c) = Some Open" "v_funding (view (host_storage host) s1 c) = Some f"
    using m [of c] assms(2) unknown [OF assms(1,2)] by (auto simp: moves_def eq_commute [of _ "view (host_storage host) s1 c"])
  have other: "view (host_storage host) s1 c' = view (host_storage host) s c'" if "c' \<noteq> c" for c'
    using m [of c'] that by (simp add: moves_def)
  note u = update_step [OF k1 assms(3) r2]
  have "develops (view (host_storage host) s1 c) (view (host_storage host) s2 c)"
    using spec_step_develops [OF u(3)] u(4) by (cases "is_ok r2") simp_all
  moreover have "v_state (view (host_storage host) s2 c) = Some Open"
    using u(3,4) one by (cases "is_ok r2") (auto simp: eq_commute [of _ "view (host_storage host) s2 c"])
  ultimately show ?thesis
    using u(1,2) one other by (simp add: s' develops_def)
qed

lemma records:
  assumes "ok s" "pay_signature p \<noteq> []" "s' = ch_record_payment J host c p x s"
  shows "ok s' \<and> (\<forall>c'. c' \<noteq> c \<longrightarrow> view (host_storage host) s' c' = view (host_storage host) s c') \<and>
    (view (host_storage host) s' c = view (host_storage host) s c \<or>
       spec_step (UpdateBalance c p) (view (host_storage host) s c) = Some (view (host_storage host) s' c)) \<and>
    (fits (pay_balance p) \<and> v_state (view (host_storage host) s c) = Some Open \<longrightarrow>
       spec_step (UpdateBalance c p) (view (host_storage host) s c) = Some (view (host_storage host) s' c))"
proof -
  obtain r1 s1 where r1: "st_update_balance (host_storage host) c p s = (r1, s1)"
    by (cases "st_update_balance (host_storage host) c p s")
  note u = update_step [OF assms(1,2) r1]
  have a: "ok (apply_usage_increments J host c x s1) \<and>
      view (host_storage host) (apply_usage_increments J host c x s1) c' = view (host_storage host) s1 c'" for c'
    using u(1) usage_step [OF u(1)]
    by (cases "usage_from_json J x") (simp_all add: apply_usage_increments_def prod_eq_iff)
  show ?thesis
  proof (cases r1)
    case (Inl e)
    then have "s' = s1" "\<not> is_ok r1" by (simp_all add: assms(3) ch_record_payment_def r1)
    then show ?thesis using u by blast
  next
    case (Inr x1)
    then have "s' = apply_usage_increments J host c x s1" "is_ok r1" by (simp_all add: assms(3) ch_record_payment_def r1)
    then show ?thesis using u(2,3) a by (simp del: spec_step.simps)
  qed
qed

end

sublocale configurable \<subseteq> sh: spilman_host "configurable_host C J now host" ok "view (host_storage host)" fits
proof
  fix s c
  assume "ok s"
  then show "h_get_channel_state (configurable_host C J now host) s c = Ok (v_state (view (host_storage host) s c))"
    by (simp add: state_read)
next
  fix s c and p :: PaymentProof and f
  assume "ok s" "v_state (view (host_storage host) s c) = None" "pay_signature p \<noteq> []"
  from saves [OF this refl]
  show "ok (h_save_funding (configurable_host C J now host) c f p s) \<and>
    v_state (view (host_storage host) (h_save_funding (configurable_host C J now host) c f p s) c) = Some Open \<and>
    v_funding (view (host_storage host) (h_save_funding (configurable_host C J now host) c f p s) c) = Some f \<and>
    (\<forall>c'. c' \<noteq> c \<longrightarrow> view (host_storage host) (h_save_funding (configurable_host C J now host) c f p s) c' =
       view (host_storage host) s c')"
    by simp
next
  fix s and p :: PaymentProof and c x
  assume "ok s" "pay_signature p \<noteq> []"
  from records [OF this refl]
  show "ok (h_record_payment (configurable_host C J now host) c p x s) \<and>
    (\<forall>c'. c' \<noteq> c \<longrightarrow> view (host_storage host) (h_record_payment (configurable_host C J now host) c p x s) c' =
       view (host_storage host) s c') \<and>
    (view (host_storage host) (h_record_payment (configurable_host C J now host) c p x s) c = view (host_storage host) s c \<or>
     spec_step (UpdateBalance c p) (view (host_storage host) s c) =
       Some (view (host_storage host) (h_record_payment (configurable_host C J now host) c p x s) c)) \<and>
    (fits (pay_balance p) \<and> v_state (view (host_storage host) s c) = Some Open \<longrightarrow>
     spec_step (UpdateBalance c p) (view (host_storage host) s c) =
       Some (view (host_storage host) (h_record_payment (configurable_host C J now host) c p x s) c))"
    by (simp del: spec_step.simps)
next
  fix s c and e :: u64 and p :: PaymentProof and r s' c'
  assume a: "ok s" "h_mark_channel_closing (configurable_host C J now host) c e p s = (r, s')"
  have "st_mark_closing (host_storage host) c
      \<lparr>cd_expiry_timestamp = e, cd_balance = pay_balance p, cd_signature = pay_signature p\<rparr> s = (r, s')"
    using a(2) by (simp only: configurable_simps ch_mark_channel_closing_def)
  from closing_step [OF a(1) this, of c']
  show "ok s' \<and> (if is_ok r
      then moves (MarkClosing c \<lparr>cd_expiry_timestamp = e, cd_balance = pay_balance p, cd_signature = pay_signature p\<rparr>)
             c' (view (host_storage host) s c') (view (host_storage host) s' c')
      else view (host_storage host) s' c' = view (host_storage host) s c')" .
next
  fix s c and e b rs ss :: u64 and rj sj r s' c'
  assume a: "ok s" "h_mark_channel_closed (configurable_host C J now host) c e b rj sj rs ss s = (r, s')"
  have "st_mark_closed (host_storage host) c
      \<lparr>cv_expiry_timestamp = e, closed_amount = b, value_after_stage1 = rs + ss, receiver_sum = rs, sender_sum = ss,
       receiver_proofs_json = rj, sender_proofs_json = sj\<rparr> s = (r, s')"
    using a(2) by (simp only: configurable_simps ch_mark_channel_closed_def)
  from closed_step [OF a(1) this, of c']
  show "ok s' \<and> (if is_ok r
      then moves (MarkClosed c \<lparr>cv_expiry_timestamp = e, closed_amount = b, value_after_stage1 = rs + ss, receiver_sum = rs,
                    sender_sum = ss, receiver_proofs_json = rj, sender_proofs_json = sj\<rparr>)
             c' (view (host_storage host) s c') (view (host_storage host) s' c')
      else view (host_storage host) s' c' = view (host_storage host) s c')" .
qed (simp_all only: configurable_simps view_def channel_view.simps)

interpretation mem_host: configurable "host\<lparr>host_storage := memory_storage J\<rparr>" memory_ok "\<lambda>_. valid_op" "\<lambda>_. True" C J now
  for host J C now
  by (simp add: configurable_def mem_pay.payment_store_axioms)

interpretation sql_host: configurable "host\<lparr>host_storage := sqlite_storage J K\<rparr>" "sqlite_ok K" sqlite_valid
    "\<lambda>b. b < 0x8000000000000000" C J now
  for host J K C now
  by (simp add: configurable_def sql_pay.payment_store_axioms)

lemma sql_spilman_host:
  assumes "host_storage host = sqlite_storage J K"
  shows "spilman_host (configurable_host C J now host) (sqlite_ok K) (view (sqlite_storage J K)) (\<lambda>b. b < 0x8000000000000000)"
proof -
  have host: "host\<lparr>host_storage := sqlite_storage J K\<rparr> = host" using assms by (cases host) simp
  show ?thesis
    using sql_host.sh.spilman_host_axioms [where C = C and J = J and now = now and host = host and K = K]
    unfolding host assms .
qed

section \<open>An example\<close>

definition priced_config :: ConfigurableHostConfig where
  "priced_config = \<lparr>cfg_mints = [(''m'', [''sat''])], cfg_min_expiry_seconds = 2, cfg_pricing_scale = 2,
     cfg_pricing = [(''sat'', \<lparr>cfg_min_capacity = 1, cfg_max_amount_per_output = None,
        cfg_variables = [(''chars'', 1), (''requests'', 5)]\<rparr>)]\<rparr>"

definition priced_host :: "MemoryStorage ConfigurableHost" where
  "priced_host = \<lparr>host_config = priced_config, host_server_pubkey = [3, 1], host_server_secret_hex = ''k'',
     host_storage = memory_storage (example_codec JNull)\<rparr>"

definition priced_codec :: codec where
  "priced_codec = (example_codec (JObj [(''unit'', JStr ''sat'')]))\<lparr>json_raw := (\<lambda>_. Ok (RawObj [(''requests'', JU64 3)]))\<rparr>"

definition used_memory :: MemoryStorage where
  "used_memory = snd (run_ops (memory_storage (example_codec JNull))
     [SaveFunding ''a'' (example_funding ''p''), IncrementUsage ''a'' [(''chars'', 4)]] memory_new)"


end
