(* ===== verification/Channel.thy ===== *)
theory Channel
  imports Bindings
begin

text \<open>
  Established channels and balance updates: the construction of \<open>EstablishedChannel\<close> in
  \<open>crates/cdk-spilman/src/established_channel.rs\<close>, \<open>balance_update.rs\<close>, the verification and the
  sender's signing in \<open>sender_and_receiver.rs\<close>, and the external signing path of \<open>bindings.rs\<close>.
\<close>

section \<open>Established channels\<close>

record EstablishedChannel =
  ch_params :: ChannelParameters
  ch_funding_proofs :: "Proof list"

fun check_keysets :: "codec \<Rightarrow> key_id \<Rightarrow> Proof list \<Rightarrow> (string, unit) result" where
  "check_keysets J kid [] = Ok ()"
| "check_keysets J kid (pr # prs) =
     (if pr_keyset_id pr \<noteq> kid
      then Err (''Funding proof has keyset_id '' @ id_to_string J (pr_keyset_id pr) @ '' but expected ''
                  @ id_to_string J kid @ '' from params'')
      else check_keysets J kid prs)"

definition funding_total_raw :: "Proof list \<Rightarrow> (string, u64) result" where
  "funding_total_raw proofs = try_sum ''funding proof total overflow'' 0 (map pr_amount proofs)"

definition established_new :: "codec \<Rightarrow> ChannelParameters \<Rightarrow> Proof list \<Rightarrow> (string, EstablishedChannel) run" where
  "established_new J p proofs =
     run_bind (Some (rbind (check_keysets J (ki_keyset_id (keyset_info p)) proofs) (\<lambda>_. funding_total_raw proofs))) (\<lambda>actual.
     run_bind (get_total_funding_token_amount p) (\<lambda>expected.
     Some (if actual \<noteq> expected
           then Err (''Funding proofs total value '' @ show_u64 actual @ '' does not match expected funding token amount ''
                       @ show_u64 expected)
           else Ok \<lparr>ch_params = p, ch_funding_proofs = proofs\<rparr>)))"

text \<open>The funding data a client stores.\<close>

record ClientChannelFunding =
  cf_params_json :: string
  cf_funding_proofs_json :: string
  cf_channel_secret_hex :: string
  cf_keyset_info_json :: string
  cf_sender_pubkey_hex :: string
  cf_capacity :: u64
  cf_funding_token_amount :: u64
  cf_mint_url :: string
  cf_created_at :: u64

definition from_client_channel_funding ::
  "codec \<Rightarrow> ClientChannelFunding \<Rightarrow> (string, EstablishedChannel) run" where
  "from_client_channel_funding J funding =
     run_bind (Some (rbind (parse_keyset_info_from_json J (cf_keyset_info_json funding)) (\<lambda>ks.
                     rbind (map_err (\<lambda>e. ''invalid channel secret hex: '' @ e) (hex_decode J (cf_channel_secret_hex funding))) (\<lambda>b.
                     if length b \<noteq> 32 then Err ''channel secret is not 32 bytes'' else Ok (ks, b))))) (\<lambda>(ks, secret).
     run_bind (from_json_with_channel_secret J (cf_params_json funding) ks secret) (\<lambda>p.
     run_bind (Some (map_err (\<lambda>e. ''invalid funding proofs JSON: '' @ e) (proofs_parse J (cf_funding_proofs_json funding)))) (\<lambda>proofs.
     established_new J p proofs)))"

section \<open>Signatures on swap requests\<close>

fun witness_signatures :: "witness option \<Rightarrow> string list" where
  "witness_signatures (Some (P2PKWitness sigs)) = sigs"
| "witness_signatures _ = []"

definition get_signatures_from_swap_request :: "codec \<Rightarrow> SwapRequest \<Rightarrow> (string, signature list) result" where
  "get_signatures_from_swap_request J request =
     (case sr_inputs request of
        [] \<Rightarrow> Err ''No inputs in swap request''
      | first # _ \<Rightarrow>
          Ok (List.map_filter (\<lambda>t. case sig_parse J t of Ok s \<Rightarrow> Some s | Err _ \<Rightarrow> None) (witness_signatures (pr_witness first))))"

definition sig_all_message_hash_hex :: "crypto \<Rightarrow> SwapRequest \<Rightarrow> string" where
  "sig_all_message_hash_hex C request = hex_encode C (sig_all_message_hash C request)"

definition verify_swap_signature :: "crypto \<Rightarrow> SwapRequest \<Rightarrow> pubkey \<Rightarrow> signature \<Rightarrow> (string, unit) result" where
  "verify_swap_signature C request pk s = schnorr_verify C (x_only C pk) (sig_all_message_hash C request) s"

text \<open>Adding signatures to a witness is a method of \<open>cashu\<close>.\<close>

fun add_signatures :: "string list \<Rightarrow> witness \<Rightarrow> witness" where
  "add_signatures sigs (P2PKWitness old) = P2PKWitness (old @ sigs)"
| "add_signatures sigs (HTLCWitness pre old) =
     HTLCWitness pre (Some (case old of None \<Rightarrow> sigs | Some o' \<Rightarrow> o' @ sigs))"

definition attach_signature_to_first_input :: "SwapRequest \<Rightarrow> string \<Rightarrow> (string, SwapRequest) result" where
  "attach_signature_to_first_input request sig_hex =
     (case sr_inputs request of
        [] \<Rightarrow> Err ''Swap request has no inputs''
      | first # rest \<Rightarrow>
          (let w = (case pr_witness first of
                      Some w \<Rightarrow> add_signatures [sig_hex] w
                    | None \<Rightarrow> add_signatures [sig_hex] (P2PKWitness []))
           in Ok (request\<lparr>sr_inputs := first\<lparr>pr_witness := Some w\<rparr> # rest\<rparr>)))"

record BalanceUpdateMessage =
  bu_channel_id :: string
  bu_amount :: u64
  bu_signature :: signature

definition from_signed_swap_request ::
  "codec \<Rightarrow> string \<Rightarrow> u64 \<Rightarrow> SwapRequest \<Rightarrow> (string, BalanceUpdateMessage) result" where
  "from_signed_swap_request J channel_id amount request =
     rbind (get_signatures_from_swap_request J request) (\<lambda>signatures.
     if length signatures \<noteq> 1
     then Err (''Expected exactly 1 signature (Alice''  @ [CHR 0x27] @ ''s), but found '' @ show_nat (length signatures))
     else Ok \<lparr>bu_channel_id = channel_id, bu_amount = amount, bu_signature = signatures ! 0\<rparr>)"

definition verify_sender_signature ::
  "crypto \<Rightarrow> codec \<Rightarrow> BalanceUpdateMessage \<Rightarrow> EstablishedChannel \<Rightarrow> (string, unit) run" where
  "verify_sender_signature C J update channel =
     run_bind (for_balance (bu_amount update) (ch_params channel)) (\<lambda>co.
     Some (rbind (create_swap_request C J co (ch_funding_proofs channel) None) (\<lambda>request.
           rbind (get_sender_blinded_pubkey_for_stage1 C (ch_params channel)) (\<lambda>pk.
           map_err (\<lambda>_. ''Invalid signature: Alice did not authorize this balance update'')
             (verify_swap_signature C request pk (bu_signature update))))))"

section \<open>The sender's signature\<close>

definition create_signed_balance_update ::
  "crypto \<Rightarrow> codec \<Rightarrow> seckey \<Rightarrow> EstablishedChannel \<Rightarrow> u64 \<Rightarrow> (string, BalanceUpdateMessage \<times> SwapRequest) run" where
  "create_signed_balance_update C J alice_secret channel charlie_balance =
     run_bind (for_balance charlie_balance (ch_params channel)) (\<lambda>co.
     Some (rbind (create_swap_request C J co (ch_funding_proofs channel) None) (\<lambda>request.
           rbind (get_sender_blinded_secret_key_for_stage1 C (ch_params channel) alice_secret) (\<lambda>blinded_secret.
           rbind (sign_sig_all C request blinded_secret) (\<lambda>signed.
           rbind (from_signed_swap_request J (get_channel_id C (ch_params channel)) charlie_balance signed) (\<lambda>update.
           Ok (update, signed)))))))"

text \<open>The path with an external signer: what is to be signed, and the message made of the signature.  The record
  \<open>unsigned_update\<close> holds the fields of the JSON object the binding returns.\<close>

record unsigned_update =
  uu_channel_id :: string
  uu_amount :: u64
  uu_request :: SwapRequest
  uu_message_hex :: string
  uu_tweak_scalar_hex :: string

definition create_unsigned_balance_update ::
  "crypto \<Rightarrow> codec \<Rightarrow> string \<Rightarrow> string \<Rightarrow> string \<Rightarrow> string \<Rightarrow> u64 \<Rightarrow> (string, unsigned_update) run" where
  "create_unsigned_balance_update C J params_text keyset_text secret_hex proofs_text balance =
     run_bind (Some (rbind (parse_keyset_info_from_json J keyset_text) (\<lambda>ks.
                     rbind (decode_secret J ''Channel secret'' secret_hex) (\<lambda>secret. Ok (ks, secret))))) (\<lambda>(ks, secret).
     run_bind (run_map_err (\<lambda>e. ''Failed to create ChannelParameters: '' @ e)
                 (from_json_with_channel_secret J params_text ks secret)) (\<lambda>p.
     run_bind (Some (map_err (\<lambda>e. ''Failed to parse proofs: '' @ e) (proofs_parse J proofs_text))) (\<lambda>proofs.
     run_bind (run_map_err (\<lambda>e. ''CommitmentOutputs::for_balance failed: '' @ e) (for_balance balance p)) (\<lambda>co.
     run_bind (run_map_err (\<lambda>e. ''EstablishedChannel::new failed: '' @ e) (established_new J p proofs)) (\<lambda>channel.
     Some (rbind (map_err (\<lambda>e. ''create_swap_request failed: '' @ e)
                    (create_swap_request C J co (ch_funding_proofs channel) None)) (\<lambda>request.
           rbind (map_err (\<lambda>e. ''Failed to derive blinding scalar: '' @ e)
                    (derive_sender_blinding_scalar_for_stage1 C p)) (\<lambda>tweak.
           Ok \<lparr>uu_channel_id = get_channel_id C p, uu_amount = balance, uu_request = request,
               uu_message_hex = sig_all_message_hash_hex C request, uu_tweak_scalar_hex = hex_encode C tweak\<rparr>))))))))"

text \<open>The struct of \<open>balance_update.rs\<close>; its constructor reads the two texts back from the JSON it just got.\<close>

record UnsignedBalanceUpdate =
  ub_channel_id :: string
  ub_balance :: u64
  ub_message_hex :: string
  ub_tweak_scalar_hex :: string

definition unsigned_update_new ::
  "crypto \<Rightarrow> codec \<Rightarrow> string \<Rightarrow> u64 \<Rightarrow> ClientChannelFunding \<Rightarrow> (string, UnsignedBalanceUpdate) run" where
  "unsigned_update_new C J channel_id balance funding =
     run_bind (create_unsigned_balance_update C J (cf_params_json funding) (cf_keyset_info_json funding)
                 (cf_channel_secret_hex funding) (cf_funding_proofs_json funding) balance) (\<lambda>u.
     Some (Ok \<lparr>ub_channel_id = channel_id, ub_balance = balance, ub_message_hex = uu_message_hex u,
               ub_tweak_scalar_hex = uu_tweak_scalar_hex u\<rparr>))"

definition unsigned_update_sign :: "codec \<Rightarrow> UnsignedBalanceUpdate \<Rightarrow> string \<Rightarrow> (string, BalanceUpdateMessage) result" where
  "unsigned_update_sign J u signature_hex =
     rbind (map_err (\<lambda>e. ''Invalid signature: '' @ e) (sig_parse J signature_hex)) (\<lambda>s.
     Ok \<lparr>bu_channel_id = ub_channel_id u, bu_amount = ub_balance u, bu_signature = s\<rparr>)"

definition attach_signature_to_balance_update ::
  "codec \<Rightarrow> string \<Rightarrow> string \<Rightarrow> string \<Rightarrow> u64 \<Rightarrow> (string, BalanceUpdateMessage) result" where
  "attach_signature_to_balance_update J request_text signature_hex channel_id amount =
     rbind (map_err (\<lambda>e. ''Failed to parse swap request: '' @ e) (request_parse J request_text)) (\<lambda>request.
     rbind (map_err (\<lambda>e. ''Invalid signature hex: '' @ e) (sig_parse J signature_hex)) (\<lambda>_.
     rbind (map_err (\<lambda>e. ''attach_signature_to_first_input failed: '' @ e)
              (attach_signature_to_first_input request signature_hex)) (\<lambda>signed.
     map_err (\<lambda>e. ''from_signed_swap_request failed: '' @ e)
       (from_signed_swap_request J channel_id amount signed))))"

section \<open>Channel verification\<close>

datatype ChannelVerificationError =
    UnexpectedWitness nat u64
  | UnexpectedP2pkE nat u64
  | MissingDleq nat u64
  | DleqBlindingFactorMismatch nat u64
  | InvalidDleq nat u64 string
  | MissingMintKey nat u64
  | InvalidKeysetId string string
  | ValueMismatch u64 u64
  | ValueOverflow nat u64 u64
  | CountMismatch nat nat
  | SecretMismatch nat string string
  | AmountMismatch nat u64 u64
  | InternalError string

record ChannelVerificationResult =
  cvr_valid :: bool
  cvr_errors :: "ChannelVerificationError list"

definition computed_keyset_id :: "crypto \<Rightarrow> codec \<Rightarrow> KeysetInfo \<Rightarrow> key_id" where
  "computed_keyset_id C J ks =
     (if id_version_byte J (ki_keyset_id ks) = 0 then id_v1_from_keys C (active_keys ks)
      else id_v2_from_data C (active_keys ks) (ki_unit ks) (ki_input_fee_ppk ks) (final_expiry ks))"

definition dleq_errors ::
  "crypto \<Rightarrow> ChannelParameters \<Rightarrow> DeterministicSecretWithBlinding list \<Rightarrow> nat \<Rightarrow> Proof \<Rightarrow> ChannelVerificationError list" where
  "dleq_errors C p expected i pr =
     (case pr_dleq pr of
        None \<Rightarrow> [MissingDleq i (pr_amount pr)]
      | Some (_, _, r) \<Rightarrow>
          (if i < length expected \<and> r \<noteq> ds_blinding_factor (expected ! i)
           then [DleqBlindingFactorMismatch i (pr_amount pr)] else []) @
          (case amount_key (active_keys (keyset_info p)) (pr_amount pr) of
             None \<Rightarrow> [MissingMintKey i (pr_amount pr)]
           | Some key \<Rightarrow>
               (case proof_verify_dleq C pr key of
                  Err e \<Rightarrow> [InvalidDleq i (pr_amount pr) e]
                | Ok _ \<Rightarrow> [])))"

definition proof_errors ::
  "crypto \<Rightarrow> ChannelParameters \<Rightarrow> DeterministicSecretWithBlinding list \<Rightarrow> nat \<times> Proof \<Rightarrow> ChannelVerificationError list" where
  "proof_errors C p expected ip =
     (case ip of (i, pr) \<Rightarrow>
        (if pr_witness pr \<noteq> None then [UnexpectedWitness i (pr_amount pr)] else []) @
        (if pr_p2pk_e pr \<noteq> None then [UnexpectedP2pkE i (pr_amount pr)] else []) @
        dleq_errors C p expected i pr)"

fun value_errors :: "u64 \<Rightarrow> nat \<Rightarrow> u64 \<Rightarrow> Proof list \<Rightarrow> ChannelVerificationError list" where
  "value_errors expected i acc [] = (if acc \<noteq> expected then [ValueMismatch expected acc] else [])"
| "value_errors expected i acc (pr # prs) =
     (case checked_add acc (pr_amount pr) of
        Some t \<Rightarrow> value_errors expected (Suc i) t prs
      | None \<Rightarrow> [ValueOverflow i acc (pr_amount pr)])"

definition structure_errors :: "DeterministicSecretWithBlinding list \<Rightarrow> Proof list \<Rightarrow> ChannelVerificationError list" where
  "structure_errors expected proofs =
     (if length proofs \<noteq> length expected then [CountMismatch (length expected) (length proofs)]
      else
        concat (map (\<lambda>(i, (pr, det)).
          (if pr_secret pr \<noteq> ds_secret det then [SecretMismatch i (ds_secret det) (pr_secret pr)] else []) @
          (if pr_amount pr \<noteq> ds_amount det then [AmountMismatch i (ds_amount det) (pr_amount pr)] else []))
          (enumerate 0 (zip proofs expected))))"

definition verification_failed :: "ChannelVerificationError list \<Rightarrow> ChannelVerificationResult" where
  "verification_failed errors = \<lparr>cvr_valid = False, cvr_errors = errors\<rparr>"

definition verify_valid_channel ::
  "crypto \<Rightarrow> codec \<Rightarrow> Proof list \<Rightarrow> ChannelParameters \<Rightarrow> ChannelVerificationResult option" where
  "verify_valid_channel C J proofs p =
     (let kid = ki_keyset_id (keyset_info p); computed = computed_keyset_id C J (keyset_info p);
          id_errors = (if kid \<noteq> computed then [InvalidKeysetId (id_to_string J kid) (id_to_string J computed)] else [])
      in
        (case outputs_new ''funding'' (funding_token_amount p) p of
           None \<Rightarrow> None
         | Some (Err e) \<Rightarrow> Some (verification_failed (id_errors @ [InternalError e]))
         | Some (Ok outputs) \<Rightarrow>
             (case get_secrets_with_blinding C J outputs of
                Err e \<Rightarrow> Some (verification_failed (id_errors @ [InternalError e]))
              | Ok expected \<Rightarrow>
                  (let errors = id_errors @ concat (map (proof_errors C p expected) (enumerate 0 proofs))
                                @ value_errors (funding_token_amount p) 0 0 proofs @ structure_errors expected proofs
                   in Some (if errors = [] then \<lparr>cvr_valid = True, cvr_errors = []\<rparr> else verification_failed errors)))))"

section \<open>A verified channel is funded as derived\<close>

lemma value_errors_Nil:
  "value_errors expected i acc prs = [] \<longleftrightarrow> unat acc + sum_list (map (unat \<circ> pr_amount) prs) = unat expected"
proof (induction prs arbitrary: i acc)
  case (Cons pr prs)
  show ?case
  proof (cases "checked_add acc (pr_amount pr)")
    case None
    then have "2 ^ 64 \<le> unat acc + unat (pr_amount pr)" by (simp add: checked_add_def split: if_splits)
    then show ?thesis using None unat_u64_less [of expected] by simp
  next
    case (Some t)
    then have "unat t = unat acc + unat (pr_amount pr)" by (auto simp: checked_add_eq_Some unat_add_exact)
    then show ?thesis using Some Cons.IH [of "Suc i" t] by (simp add: add.assoc)
  qed
qed (simp add: word_unat_eq_iff)

lemma dleq_errors_Nil:
  "dleq_errors C p expected i pr = [] \<longleftrightarrow>
     (\<exists>e s r key. pr_dleq pr = Some (e, s, r) \<and> (i < length expected \<longrightarrow> r = ds_blinding_factor (expected ! i)) \<and>
        amount_key (active_keys (keyset_info p)) (pr_amount pr) = Some key \<and> is_ok (proof_verify_dleq C pr key))"
  by (auto simp: dleq_errors_def is_ok_def split: option.splits sum.splits prod.splits if_splits)

text \<open>What one funding proof must satisfy against the derived output.\<close>

definition funds_output :: "crypto \<Rightarrow> ChannelParameters \<Rightarrow> Proof \<Rightarrow> DeterministicSecretWithBlinding \<Rightarrow> bool" where
  "funds_output C p pr det \<longleftrightarrow>
     pr_secret pr = ds_secret det \<and> pr_amount pr = ds_amount det \<and> pr_witness pr = None \<and> pr_p2pk_e pr = None \<and>
     (\<exists>e s key. pr_dleq pr = Some (e, s, ds_blinding_factor det) \<and>
        amount_key (active_keys (keyset_info p)) (pr_amount pr) = Some key \<and> is_ok (proof_verify_dleq C pr key))"

lemma concat_enumerate_Nil:
  "concat (map f (enumerate 0 xs)) = [] \<longleftrightarrow> (\<forall>i < length xs. f (i, xs ! i) = [])"
proof -
  have "set (enumerate 0 xs) = (\<lambda>i. (i, xs ! i)) ` {..<length xs}"
    by (auto simp: in_set_enumerate_eq image_iff)
  then show ?thesis by auto
qed

lemma structure_errors_Nil:
  "structure_errors expected proofs = [] \<longleftrightarrow>
     list_all2 (\<lambda>pr det. pr_secret pr = ds_secret det \<and> pr_amount pr = ds_amount det) proofs expected"
  by (auto simp del: concat_eq_Nil_conv simp: structure_errors_def concat_enumerate_Nil list_all2_conv_all_nth split: if_splits)

lemma verified_errors:
  assumes "length proofs = length expected"
  shows "concat (map (proof_errors C p expected) (enumerate 0 proofs)) = [] \<and> structure_errors expected proofs = [] \<longleftrightarrow>
    list_all2 (funds_output C p) proofs expected"
  using assms
  by (auto simp del: concat_eq_Nil_conv simp: structure_errors_Nil concat_enumerate_Nil list_all2_conv_all_nth
      proof_errors_def funds_output_def dleq_errors_Nil split: if_splits)

text \<open>C6: the receiver's verification accepts exactly the channels whose funding is what the parameters derive: the
  keyset id is computed from the keys, and the funding proofs match the derived outputs one by one in
  secret, amount and blinding factor, carry a discrete-log proof that verifies under the mint's key for
  their amount and no spending data, and add up to the funding amount without overflow.\<close>

theorem verification_exact:
  assumes "outputs_new ''funding'' (funding_token_amount p) p = Some (Ok outputs)"
    "get_secrets_with_blinding C J outputs = Ok expected"
  shows "(\<exists>r. verify_valid_channel C J proofs p = Some r \<and> cvr_valid r) \<longleftrightarrow>
    ki_keyset_id (keyset_info p) = computed_keyset_id C J (keyset_info p) \<and>
    list_all2 (funds_output C p) proofs expected \<and>
    sum_list (map (unat \<circ> pr_amount) proofs) = unat (funding_token_amount p)"
proof (cases "length proofs = length expected")
  case True
  show ?thesis
    using verified_errors [OF True, of C p]
    by (auto simp: verify_valid_channel_def assms Let_def verification_failed_def value_errors_Nil)
next
  case False
  then have "structure_errors expected proofs \<noteq> []" by (simp add: structure_errors_def)
  then show ?thesis
    using False by (auto simp: verify_valid_channel_def assms Let_def verification_failed_def dest: list_all2_lengthD)
qed

section \<open>Signed updates verify\<close>

text \<open>Documented behaviour of the signature scheme and its encodings: a signature verifies under the public key of
  the signing key, signing a request adds exactly that signature to its first input, and texts read
  back what was printed.\<close>

definition schnorr_correct :: "crypto \<Rightarrow> bool" where
  "schnorr_correct C \<longleftrightarrow> (\<forall>k m. schnorr_verify C (x_only C (public_key C k)) m (schnorr_sign C k m) = Ok ())"

definition sign_sig_all_faithful :: "crypto \<Rightarrow> codec \<Rightarrow> bool" where
  "sign_sig_all_faithful C J \<longleftrightarrow>
     (\<forall>r k r'. sign_sig_all C r k = Ok r' \<longrightarrow>
        (\<exists>t. sig_parse J t = Ok (schnorr_sign C k (sig_all_message_hash C r)) \<and> attach_signature_to_first_input r t = Ok r'))"

definition texts_faithful :: "crypto \<Rightarrow> codec \<Rightarrow> bool" where
  "texts_faithful C J \<longleftrightarrow>
     (\<forall>b. hex_decode J (hex_encode C b) = Ok b) \<and> (\<forall>s. sig_parse J (sig_to_string J s) = Ok s) \<and>
     (\<forall>b r. scalar_from_be_bytes C b = Some r \<longrightarrow> r = b)"

lemma attached_signature:
  assumes "attach_signature_to_first_input r t = Ok r'" "sig_parse J t = Ok s"
    "sr_inputs r = i # is" "pr_witness i = None"
  shows "from_signed_swap_request J c b r' = Ok \<lparr>bu_channel_id = c, bu_amount = b, bu_signature = s\<rparr>"
  using assms
  by (auto simp: attach_signature_to_first_input_def from_signed_swap_request_def get_signatures_from_swap_request_def
      Let_def List.map_filter_def)

lemma swap_request_inputs:
  "create_swap_request C J co proofs kid = Ok request \<Longrightarrow> sr_inputs request = proofs"
  by (cases "commitment_mode (do_params (receiver_outputs co))")
    (auto simp: create_swap_request_def rbind_eq_Ok Let_def swap_request_new_def with_rerandomization_def)

lemma sender_stage1_keys:
  assumes "secp_laws C" "public_key C alice = sender_pubkey p"
    "get_sender_blinded_secret_key_for_stage1 C p alice = Ok k"
  shows "get_sender_blinded_pubkey_for_stage1 C p = Ok (public_key C k)"
proof -
  have "derive_blinded_secret_key C alice r = Ok k \<Longrightarrow> derive_blinded_pubkey C (sender_pubkey p) r = Ok (public_key C k)" for r
    using blinded_keys_match [OF assms(1)] assms(2) by metis
  then show ?thesis using assms(3)
    by (auto simp: get_sender_blinded_secret_key_for_stage1_def get_sender_blinded_pubkey_for_stage1_def rbind_eq_Ok)
qed

text \<open>C13: a balance update the sender signs is accepted by the receiver.  From its own copy of the channel the
  receiver rebuilds the same request, derives the sender's blinded key, and the signature verifies.\<close>

theorem signed_update_verifies:
  assumes "secp_laws C" "schnorr_correct C" "sign_sig_all_faithful C J"
    "public_key C alice = sender_pubkey (ch_params channel)"
    "list_all (\<lambda>pr. pr_witness pr = None) (ch_funding_proofs channel)"
    "create_signed_balance_update C J alice channel b = Some (Ok (update, sreq))"
  shows "verify_sender_signature C J update channel = Some (Ok ()) \<and>
    bu_amount update = b \<and> bu_channel_id update = get_channel_id C (ch_params channel)"
proof -
  obtain co request k where co: "for_balance b (ch_params channel) = Some (Ok co)"
    and req: "create_swap_request C J co (ch_funding_proofs channel) None = Ok request"
    and k: "get_sender_blinded_secret_key_for_stage1 C (ch_params channel) alice = Ok k"
    and sgn: "sign_sig_all C request k = Ok sreq"
    and up: "from_signed_swap_request J (get_channel_id C (ch_params channel)) b sreq = Ok update"
    using assms(6) by (auto simp: create_signed_balance_update_def run_bind_eq_Ok rbind_eq_Ok)
  obtain t where t: "sig_parse J t = Ok (schnorr_sign C k (sig_all_message_hash C request))"
    "attach_signature_to_first_input request t = Ok sreq"
    using assms(3) sgn unfolding sign_sig_all_faithful_def by blast
  obtain i "is" where i: "sr_inputs request = i # is"
    using t(2) by (auto simp: attach_signature_to_first_input_def split: list.splits)
  have "ch_funding_proofs channel = i # is" using swap_request_inputs [OF req] i by simp
  then have "pr_witness i = None" using assms(5) by simp
  from attached_signature [OF t(2,1) i this] up
  have update: "update = \<lparr>bu_channel_id = get_channel_id C (ch_params channel), bu_amount = b,
      bu_signature = schnorr_sign C k (sig_all_message_hash C request)\<rparr>" by simp
  show ?thesis
    using assms(2) co req sender_stage1_keys [OF assms(1,4) k]
    by (simp add: update verify_sender_signature_def verify_swap_signature_def schnorr_correct_def)
qed

text \<open>The external signing path is equivalent.  When the host signs the message and tweak of an unsigned update
  with the sender's secret key, the receiver accepts the resulting message for the same channel.\<close>

lemma external_update_verifies:
  assumes "secp_laws C" "schnorr_correct C" "texts_faithful C J"
    "parse_keyset_info_from_json J (cf_keyset_info_json funding) = Ok ks"
    "decode_secret J ''Channel secret'' (cf_channel_secret_hex funding) = Ok secret"
    "from_json_with_channel_secret J (cf_params_json funding) ks secret = Some (Ok p)"
    "unsigned_update_new C J channel_id b funding = Some (Ok u)"
    "sk_from_hex J alice_hex = Ok alice" "public_key C alice = sender_pubkey p"
    "sign_with_tweaked_key_util C J alice_hex (ub_message_hex u) (ub_tweak_scalar_hex u) = Ok signature_hex"
    "unsigned_update_sign J u signature_hex = Ok update"
  shows "\<exists>proofs channel. proofs_parse J (cf_funding_proofs_json funding) = Ok proofs \<and>
    established_new J p proofs = Some (Ok channel) \<and> bu_channel_id update = channel_id \<and> bu_amount update = b \<and>
    verify_sender_signature C J update channel = Some (Ok ())"
proof -
  obtain proofs co channel request tweak where
    co: "for_balance b p = Some (Ok co)"
    and pr: "proofs_parse J (cf_funding_proofs_json funding) = Ok proofs"
    and ch: "established_new J p proofs = Some (Ok channel)"
    and req: "create_swap_request C J co (ch_funding_proofs channel) None = Ok request"
    and tw: "derive_sender_blinding_scalar_for_stage1 C p = Ok tweak"
    and u: "u = \<lparr>ub_channel_id = channel_id, ub_balance = b,
              ub_message_hex = sig_all_message_hash_hex C request, ub_tweak_scalar_hex = hex_encode C tweak\<rparr>"
    using assms(4-7)
    by (auto simp: unsigned_update_new_def create_unsigned_balance_update_def run_bind_eq_Ok rbind_eq_Ok)
  have chp: "ch_params channel = p" "ch_funding_proofs channel = proofs"
    using ch by (auto simp: established_new_def run_bind_eq_Ok split: if_splits)
  have tf: "hex_decode J (hex_encode C x) = Ok x" "sig_parse J (sig_to_string J s) = Ok s"
    "scalar_from_be_bytes C x = Some r \<Longrightarrow> r = x" for x s r
    using assms(3) by (simp_all add: texts_faithful_def)
  let ?m = "sig_all_message_hash C request"
  let ?e = "if odd_y C (public_key C alice) then sk_negate C alice else alice"
  obtain k where k: "sk_add_tweak C ?e tweak = Ok k" "signature_hex = sig_to_string J (schnorr_sign C k ?m)"
    using assms(8,10)
    by (auto simp: sign_with_tweaked_key_util_def u sig_all_message_hash_hex_def tf rbind_eq_Ok Let_def ok_or_def
        dest: tf(3) split: if_splits option.splits)
  have update: "update = \<lparr>bu_channel_id = channel_id, bu_amount = b, bu_signature = schnorr_sign C k ?m\<rparr>"
    using assms(11) by (auto simp: unsigned_update_sign_def u k(2) tf rbind_eq_Ok)
  have key: "get_sender_blinded_pubkey_for_stage1 C p = Ok (public_key C k)"
  proof -
    have "derive_blinded_secret_key C alice tweak = Ok k" using k(1) by (simp add: derive_blinded_secret_key_def)
    then have "derive_blinded_pubkey C (sender_pubkey p) tweak = Ok (public_key C k)"
      using blinded_keys_match [OF assms(1)] assms(9) by metis
    then show ?thesis
      using tw by (simp add: get_sender_blinded_pubkey_for_stage1_def derive_sender_blinding_scalar_for_stage1_def)
  qed
  have "verify_sender_signature C J update channel = Some (Ok ())"
    using assms(2) co req key
    by (simp add: update chp verify_sender_signature_def verify_swap_signature_def schnorr_correct_def)
  then show ?thesis using ch pr by (simp add: update)
qed

section \<open>Example runs\<close>

text \<open>A crypto instance whose signing attaches the signature it makes, and a channel funded as derived.\<close>

definition signing_crypto :: crypto where
  "signing_crypto = short_crypto\<lparr>sign_sig_all := (\<lambda>r k. attach_signature_to_first_input r
     (map (\<lambda>b. char_of (unat b)) (schnorr_sign short_crypto k (sig_all_message_hash short_crypto r))))\<rparr>"

definition funded_by :: "DeterministicSecretWithBlinding \<Rightarrow> Proof" where
  "funded_by det = \<lparr>pr_amount = ds_amount det, pr_keyset_id = [0], pr_secret = ds_secret det, pr_c = [5],
     pr_witness = None, pr_dleq = Some ([1], [1], ds_blinding_factor det), pr_p2pk_e = None\<rparr>"

definition example_verification :: "(string, DeterministicOutputsForOneContext \<times>
    DeterministicSecretWithBlinding list \<times> bool) run" where
  "example_verification =
     run_bind (outputs_new ''funding'' (funding_token_amount short_params) short_params) (\<lambda>outputs.
     run_bind (Some (get_secrets_with_blinding short_crypto short_codec outputs)) (\<lambda>expected.
     case verify_valid_channel short_crypto short_codec (map funded_by expected) short_params of
       None \<Rightarrow> None
     | Some r \<Rightarrow> Some (if cvr_valid r then Ok (outputs, expected, True) else Err ''rejected'')))"

lemma example_verification_ok: "map_option is_ok example_verification = Some True"
  by code_simp

theorem verification_exact_witness:
  "\<exists>outputs expected. outputs_new ''funding'' (funding_token_amount short_params) short_params = Some (Ok outputs) \<and>
     get_secrets_with_blinding short_crypto short_codec outputs = Ok expected \<and>
     list_all2 (funds_output short_crypto short_params) (map funded_by expected) expected"
proof -
  obtain r where "example_verification = Some (Ok r)" using run_ok_obtain [OF example_verification_ok] by blast
  then obtain outputs expected v where
    o: "outputs_new ''funding'' (funding_token_amount short_params) short_params = Some (Ok outputs)"
      "get_secrets_with_blinding short_crypto short_codec outputs = Ok expected"
    and v: "verify_valid_channel short_crypto short_codec (map funded_by expected) short_params = Some v" "cvr_valid v"
    by (auto simp: example_verification_def run_bind_eq_Ok split: option.splits if_splits)
  show ?thesis
    using o verification_exact [OF o, of "map funded_by expected"] v by auto
qed

definition example_funding_proof :: Proof where
  "example_funding_proof = \<lparr>pr_amount = 3, pr_keyset_id = [0], pr_secret = ''s'', pr_c = [5],
     pr_witness = None, pr_dleq = None, pr_p2pk_e = None\<rparr>"

definition example_channel :: EstablishedChannel where
  "example_channel = \<lparr>ch_params = short_params, ch_funding_proofs = [example_funding_proof]\<rparr>"

lemma char_bytes [simp]: "string_bytes (map (\<lambda>b. char_of (unat b)) (bs :: bytes)) = bs"
  by (induction bs) (simp_all add: string_bytes_def unat_byte_less)

lemma signing_laws:
  "secp_laws signing_crypto" "schnorr_correct signing_crypto" "sign_sig_all_faithful signing_crypto short_codec"
proof -
  show "secp_laws signing_crypto" "schnorr_correct signing_crypto"
    by (simp_all add: secp_laws_def schnorr_correct_def signing_crypto_def short_crypto_def example_crypto_def)
  have "sig_parse short_codec (map (\<lambda>b. char_of (unat b)) s) = Ok s" for s
    by (simp add: short_codec_def example_codec_def)
  then show "sign_sig_all_faithful signing_crypto short_codec"
    unfolding sign_sig_all_faithful_def signing_crypto_def by auto
qed

theorem signed_update_verifies_witness:
  "\<exists>update request. create_signed_balance_update signing_crypto short_codec [2, 1] example_channel 1 = Some (Ok (update, request)) \<and>
     verify_sender_signature signing_crypto short_codec update example_channel = Some (Ok ())"
proof -
  have "map_option is_ok (create_signed_balance_update signing_crypto short_codec [2, 1] example_channel 1) = Some True"
    by code_simp
  then obtain update request where
    r: "create_signed_balance_update signing_crypto short_codec [2, 1] example_channel 1 = Some (Ok (update, request))"
    using run_ok_obtain by fastforce
  have "public_key signing_crypto [2, 1] = sender_pubkey (ch_params example_channel)"
    by (simp add: signing_crypto_def short_crypto_def example_crypto_def example_channel_def short_params_def example_params_def)
  moreover have "list_all (\<lambda>pr. pr_witness pr = None) (ch_funding_proofs example_channel)"
    by (simp add: example_channel_def example_funding_proof_def)
  ultimately show ?thesis using r signed_update_verifies [OF signing_laws _ _ r] by blast
qed

text \<open>For the external path the texts are those of the example channel's parameters and keyset, and digests have
  the length of a digest.\<close>

definition constant_crypto :: crypto where
  "constant_crypto = short_crypto\<lparr>sha256 := (\<lambda>_. [1]), hmac_sha256 := (\<lambda>_ _. replicate 32 1), sig_all_message_hash := (\<lambda>_. replicate 32 2)\<rparr>"

definition text_codec :: codec where
  "text_codec = short_codec\<lparr>
     json_parse := (\<lambda>t. Ok (if t = ''k''
       then JObj [(''keysetId'', JStr [char_of (0 :: nat)]), (''unit'', JStr ''sat''), (''inputFeePpk'', JU64 0),
                  (''keys'', JObj [(''1'', JStr ''a''), (''2'', JStr ''b'')])]
       else channel_id_params_value short_codec short_params)),
     proofs_parse := (\<lambda>_. Ok [example_funding_proof])\<rparr>"

definition example_secret :: string where
  "example_secret = replicate 32 (CHR ''x'')"

definition example_client_funding :: ClientChannelFunding where
  "example_client_funding = \<lparr>cf_params_json = ''p'', cf_funding_proofs_json = [], cf_channel_secret_hex = example_secret,
     cf_keyset_info_json = ''k'', cf_sender_pubkey_hex = [], cf_capacity = 3, cf_funding_token_amount = 3, cf_mint_url = ''m'',
     cf_created_at = 0\<rparr>"

definition example_unsigned :: "(string, UnsignedBalanceUpdate \<times> string \<times> BalanceUpdateMessage) run" where
  "example_unsigned =
     run_bind (unsigned_update_new constant_crypto text_codec ''c'' 1 example_client_funding) (\<lambda>u.
     Some (rbind (sign_with_tweaked_key_util constant_crypto text_codec [char_of (2 :: nat), char_of (1 :: nat)] (ub_message_hex u) (ub_tweak_scalar_hex u)) (\<lambda>sig_hex.
           rbind (unsigned_update_sign text_codec u sig_hex) (\<lambda>update. Ok (u, sig_hex, update)))))"

definition example_parsed :: "(string, KeysetInfo \<times> bytes \<times> ChannelParameters) run" where
  "example_parsed =
     run_bind (Some (rbind (parse_keyset_info_from_json text_codec ''k'') (\<lambda>ks.
                     rbind (decode_secret text_codec ''Channel secret'' example_secret) (\<lambda>secret. Ok (ks, secret))))) (\<lambda>(ks, secret).
     run_bind (from_json_with_channel_secret text_codec ''p'' ks secret) (\<lambda>p.
     Some (if sender_pubkey p = [2, 1] then Ok (ks, secret, p) else Err ''other sender'')))"

lemma example_parsed_ok: "map_option is_ok example_parsed = Some True"
  by code_simp

lemma example_unsigned_ok: "map_option is_ok example_unsigned = Some True"
  by code_simp

lemma constant_laws: "secp_laws constant_crypto" "schnorr_correct constant_crypto" "texts_faithful constant_crypto text_codec"
  by (simp_all add: secp_laws_def schnorr_correct_def texts_faithful_def constant_crypto_def short_crypto_def
      example_crypto_def text_codec_def short_codec_def example_codec_def)

end
