(* ===== verification/Bridge.thy ===== *)
theory Bridge
  imports Host Channel
begin

text \<open>
  The receiver's bridge: funding and payments in \<open>crates/cdk-spilman/src/bridge.rs\<close>.

  An operation that changes the host's state returns its result and the new state; the state is kept when
  the result is an error after a change, as in the code.  An operation does not return exactly when the
  split of an amount does not.  The variants that take a base64 header decode it and call the
  operations below.
\<close>

section \<open>Messages and results\<close>

record Payment =
  pm_channel_id :: string
  pm_balance :: u64
  pm_signature :: string
  pm_params :: "json option"
  pm_funding_proofs :: "Proof list option"

definition payment_new :: "string \<Rightarrow> u64 \<Rightarrow> string \<Rightarrow> Payment" where
  "payment_new c balance sig =
     \<lparr>pm_channel_id = c, pm_balance = balance, pm_signature = sig, pm_params = None, pm_funding_proofs = None\<rparr>"

definition payment_with_funding :: "string \<Rightarrow> u64 \<Rightarrow> string \<Rightarrow> json \<Rightarrow> Proof list \<Rightarrow> Payment" where
  "payment_with_funding c balance sig params proofs =
     \<lparr>pm_channel_id = c, pm_balance = balance, pm_signature = sig, pm_params = Some params, pm_funding_proofs = Some proofs\<rparr>"

definition has_funding :: "Payment \<Rightarrow> bool" where
  "has_funding p \<longleftrightarrow> pm_params p \<noteq> None \<and> pm_funding_proofs p \<noteq> None"

record PaymentSuccess =
  ps_channel_id :: string
  ps_balance :: u64
  ps_amount_due :: u64
  ps_capacity :: u64

record PaymentValidationResult =
  pv_channel_id :: string
  pv_balance :: u64
  pv_amount_due :: u64
  pv_capacity :: u64
  pv_sender_signature :: string

record FundChannelResult =
  fc_channel_id :: string
  fc_capacity :: u64
  fc_already_known :: bool

record ValidatedNewChannel =
  vn_channel_id :: string
  vn_balance :: u64
  vn_capacity :: u64
  vn_sender_signature :: string
  vn_funding :: ChannelFunding

section \<open>Errors\<close>

datatype BridgeError =
    InvalidRequest string
  | ChannelClosed
  | ChannelClosing
  | ServerMisconfigured string
  | CapacityTooSmall u64 u64
  | ExpiryTooSoon u64 u64 u64
  | MaxAmountExceeded u64 u64
  | BalanceExceedsCapacity u64 u64
  | UnsupportedUnit string
  | ChannelIdMismatch
  | ValidationFailed string
  | UnknownChannel
  | InvalidSignature string
  | InsufficientBalance u64 u64
  | BalanceMismatch u64 u64
  | Internal string
  | ReceiverKeyNotAcceptable
  | MintOrKeysetNotAcceptable

fun bridge_error_display :: "BridgeError \<Rightarrow> string" where
  "bridge_error_display (InvalidRequest s) = s"
| "bridge_error_display ChannelClosed = ''channel closed''"
| "bridge_error_display ChannelClosing = ''channel closing, swap pending''"
| "bridge_error_display (ServerMisconfigured s) = ''server misconfigured: '' @ s"
| "bridge_error_display (CapacityTooSmall cap m) = ''capacity too small: '' @ show_u64 cap @ '' < '' @ show_u64 m"
| "bridge_error_display (ExpiryTooSoon expiry m now) =
     ''expiry too soon: '' @ show_u64 expiry @ '' < '' @ show_u64 m @ '' ('' @ show_u64 (saturating_sub expiry now) @ ''s remaining)''"
| "bridge_error_display (MaxAmountExceeded a m) = ''max_amount_per_output exceeded: '' @ show_u64 a @ '' > '' @ show_u64 m"
| "bridge_error_display (BalanceExceedsCapacity b cap) = ''balance exceeds capacity: '' @ show_u64 b @ '' > '' @ show_u64 cap"
| "bridge_error_display (UnsupportedUnit u) = ''unsupported unit: '' @ u"
| "bridge_error_display ChannelIdMismatch = ''channel_id mismatch''"
| "bridge_error_display (ValidationFailed s) = ''channel validation failed: '' @ s"
| "bridge_error_display UnknownChannel = ''unknown channel''"
| "bridge_error_display (InvalidSignature s) = ''invalid signature: '' @ s"
| "bridge_error_display (InsufficientBalance b due) = ''insufficient balance: '' @ show_u64 b @ '' < '' @ show_u64 due"
| "bridge_error_display (BalanceMismatch e a) = ''balance mismatch: expected '' @ show_u64 e @ '', got '' @ show_u64 a"
| "bridge_error_display (Internal s) = ''internal error: '' @ s"
| "bridge_error_display ReceiverKeyNotAcceptable = ''receiver key not acceptable''"
| "bridge_error_display MintOrKeysetNotAcceptable = ''mint or keyset not acceptable''"

record BridgeErrorResponse =
  be_error :: string
  be_reason :: string
  be_status :: nat
  be_code :: string
  be_extra :: "(string \<times> json) list option"

fun response_fields :: "BridgeError \<Rightarrow> nat \<times> string \<times> string \<times> (string \<times> json) list option" where
  "response_fields (InvalidRequest _) = (400, ''Bad request'', ''invalid_request'', None)"
| "response_fields UnknownChannel = (404, ''Not found'', ''unknown_channel'', None)"
| "response_fields ChannelClosing = (409, ''Channel closing'', ''channel_closing'', None)"
| "response_fields ChannelClosed = (410, ''Channel closed'', ''channel_closed'', None)"
| "response_fields (ServerMisconfigured _) = (500, ''Internal error'', ''server_misconfigured'', None)"
| "response_fields (Internal _) = (500, ''Internal error'', ''internal'', None)"
| "response_fields (BalanceMismatch e a) =
     (402, ''Payment required'', ''balance_mismatch'', Some [(''expected'', JU64 e), (''actual'', JU64 a)])"
| "response_fields (BalanceExceedsCapacity b cap) =
     (402, ''Payment required'', ''balance_exceeds_capacity'', Some [(''balance'', JU64 b), (''capacity'', JU64 cap)])"
| "response_fields (InsufficientBalance b due) =
     (402, ''Payment required'', ''insufficient_balance'', Some [(''balance'', JU64 b), (''amount_due'', JU64 due)])"
| "response_fields (CapacityTooSmall cap m) =
     (402, ''Payment required'', ''capacity_too_small'', Some [(''capacity'', JU64 cap), (''min_capacity'', JU64 m)])"
| "response_fields (ExpiryTooSoon expiry m now) =
     (402, ''Payment required'', ''expiry_too_soon'',
        Some [(''expiry_timestamp'', JU64 expiry), (''min_expiry'', JU64 m), (''now'', JU64 now)])"
| "response_fields (MaxAmountExceeded a m) =
     (402, ''Payment required'', ''max_amount_exceeded'', Some [(''amount'', JU64 a), (''max_allowed'', JU64 m)])"
| "response_fields (UnsupportedUnit _) = (402, ''Payment required'', ''unsupported_unit'', None)"
| "response_fields ChannelIdMismatch = (402, ''Payment required'', ''channel_id_mismatch'', None)"
| "response_fields (ValidationFailed _) = (402, ''Payment required'', ''validation_failed'', None)"
| "response_fields (InvalidSignature _) = (402, ''Payment required'', ''invalid_signature'', None)"
| "response_fields ReceiverKeyNotAcceptable = (402, ''Payment required'', ''receiver_key_not_acceptable'', None)"
| "response_fields MintOrKeysetNotAcceptable = (402, ''Payment required'', ''mint_or_keyset_not_acceptable'', None)"

definition from_bridge_error :: "BridgeError \<Rightarrow> BridgeErrorResponse" where
  "from_bridge_error err =
     (case response_fields err of (st, e, code, extra) \<Rightarrow>
        \<lparr>be_error = e, be_reason = bridge_error_display err, be_status = st, be_code = code, be_extra = extra\<rparr>)"

text \<open>The derived encoders and decoders of the bridge's messages.\<close>

record bridge_codec =
  payment_parse :: "string \<Rightarrow> (string, Payment) result"
  errors_print :: "ChannelVerificationError list \<Rightarrow> string"

section \<open>Validation\<close>

text \<open>Rebuilding the parameters of a channel from stored texts, with the errors of the caller.\<close>

definition load_params ::
  "codec \<Rightarrow> (string \<Rightarrow> 'e) \<Rightarrow> (string \<Rightarrow> 'e) \<Rightarrow> 'e \<Rightarrow> string \<Rightarrow> string \<Rightarrow> string \<Rightarrow> ('e, ChannelParameters) run" where
  "load_params J err keyset_err bad_length secret_hex keyset_text params_text =
     run_bind (Some (rbind (map_err err (hex_decode J secret_hex)) (\<lambda>secret.
                     if length secret \<noteq> 32 then Err bad_length
                     else rbind (map_err keyset_err (parse_keyset_info_from_json J keyset_text)) (\<lambda>ks. Ok (ks, secret)))))
       (\<lambda>(ks, secret). run_map_err err (from_json_with_channel_secret J params_text ks secret))"

definition verify_signature ::
  "crypto \<Rightarrow> codec \<Rightarrow> ChannelFunding \<Rightarrow> channel_id \<Rightarrow> u64 \<Rightarrow> string \<Rightarrow> (string, unit) run" where
  "verify_signature C J funding c balance sig =
     run_bind (load_params J id id ''Invalid secret length'' (channel_secret_hex funding) (keyset_info_json funding)
                 (params_json funding)) (\<lambda>p.
     run_bind (Some (proofs_parse J (funding_proofs_json funding))) (\<lambda>proofs.
     run_bind (established_new J p proofs) (\<lambda>channel.
     run_bind (Some (sig_parse J sig)) (\<lambda>s.
     verify_sender_signature C J \<lparr>bu_channel_id = c, bu_amount = balance, bu_signature = s\<rparr> channel))))"

definition validate_payment_request ::
  "('s, 'c) SpilmanHost \<Rightarrow> 's \<Rightarrow> channel_id \<Rightarrow> string \<Rightarrow> (BridgeError, ChannelState option) result" where
  "validate_payment_request H s c sig =
     (if c = [] then Err (InvalidRequest ''missing channel_id'')
      else if sig = [] then Err (InvalidRequest ''missing signature'')
      else rbind (map_err Internal (h_get_channel_state H s c)) (\<lambda>st.
        case st of
          Some Closed \<Rightarrow> Err ChannelClosed
        | Some Closing \<Rightarrow> Err ChannelClosing
        | Some Open \<Rightarrow> Ok (Some Open)
        | None \<Rightarrow> Ok None))"

definition stored_capacity :: "codec \<Rightarrow> ChannelFunding \<Rightarrow> (BridgeError, u64) result" where
  "stored_capacity J funding =
     rbind (map_err Internal (json_parse J (params_json funding))) (\<lambda>v.
     Ok (case as_u64 (json_index v ''capacity'') of None \<Rightarrow> 0 | Some n \<Rightarrow> n))"

definition validate_payment ::
  "crypto \<Rightarrow> codec \<Rightarrow> ('s, 'c) SpilmanHost \<Rightarrow> 's \<Rightarrow> channel_id \<Rightarrow> u64 \<Rightarrow> string \<Rightarrow> 'c
   \<Rightarrow> (BridgeError, PaymentValidationResult) run" where
  "validate_payment C J H s c balance sig context =
     run_bind (Some (rbind (validate_payment_request H s c sig) (\<lambda>known.
                     if known = None then Err UnknownChannel
                     else rbind (ok_or UnknownChannel (h_get_funding H s c)) (\<lambda>funding.
                          rbind (stored_capacity J funding) (\<lambda>cap.
                          if balance > cap then Err (BalanceExceedsCapacity balance cap) else Ok (funding, cap))))))
       (\<lambda>(funding, cap).
     run_bind (run_map_err InvalidSignature (verify_signature C J funding c balance sig)) (\<lambda>_.
     (let amount_due = h_get_amount_due H s c (Some context) in
      Some (if balance < amount_due then Err (InsufficientBalance balance amount_due)
            else Ok \<lparr>pv_channel_id = c, pv_balance = balance, pv_amount_due = amount_due, pv_capacity = cap,
                     pv_sender_signature = sig\<rparr>))))"

definition verify_payment_covers_amount_due ::
  "crypto \<Rightarrow> codec \<Rightarrow> ('s, 'c) SpilmanHost \<Rightarrow> 's \<Rightarrow> channel_id \<Rightarrow> u64 \<Rightarrow> string \<Rightarrow> 'c \<Rightarrow> (BridgeError, u64) run" where
  "verify_payment_covers_amount_due C J H s c balance sig context =
     run_bind (validate_payment C J H s c balance sig context) (\<lambda>val. Some (Ok (pv_amount_due val)))"

definition payment_covers_amount_due ::
  "crypto \<Rightarrow> codec \<Rightarrow> ('s, 'c) SpilmanHost \<Rightarrow> 's \<Rightarrow> channel_id \<Rightarrow> u64 \<Rightarrow> string \<Rightarrow> 'c \<Rightarrow> (BridgeError, bool) run" where
  "payment_covers_amount_due C J H s c balance sig context =
     (case verify_payment_covers_amount_due C J H s c balance sig context of
        None \<Rightarrow> None
      | Some (Ok _) \<Rightarrow> Some (Ok True)
      | Some (Err (InsufficientBalance _ _)) \<Rightarrow> Some (Ok False)
      | Some (Err e) \<Rightarrow> Some (Err e))"

definition validate_existing_channel_funding ::
  "crypto \<Rightarrow> codec \<Rightarrow> ('s, 'c) SpilmanHost \<Rightarrow> 's \<Rightarrow> channel_id \<Rightarrow> u64 \<Rightarrow> string \<Rightarrow> (BridgeError, FundChannelResult) run" where
  "validate_existing_channel_funding C J H s c balance sig =
     run_bind (Some (rbind (validate_payment_request H s c sig) (\<lambda>known.
                     if known = None then Err UnknownChannel
                     else rbind (ok_or UnknownChannel (h_get_funding H s c)) (\<lambda>funding.
                          rbind (stored_capacity J funding) (\<lambda>cap. Ok (funding, cap))))))
       (\<lambda>(funding, cap).
     run_bind (run_map_err InvalidSignature (verify_signature C J funding c balance sig)) (\<lambda>_.
     Some (Ok \<lparr>fc_channel_id = c, fc_capacity = cap, fc_already_known = True\<rparr>)))"

section \<open>New channels\<close>

text \<open>The fields a funding request must have, in the order they are read, and the checks between them.\<close>

record funding_fields =
  ff_unit :: string
  ff_capacity :: u64
  ff_expiry :: u64
  ff_maximum :: u64
  ff_receiver_hex :: string
  ff_sender_hex :: string
  ff_keyset_info_json :: string

definition need :: "string \<Rightarrow> 'a option \<Rightarrow> (BridgeError, 'a) result" where
  "need message v = ok_or (InvalidRequest message) v"

definition read_funding_fields ::
  "codec \<Rightarrow> ('s, 'c) SpilmanHost \<Rightarrow> 's \<Rightarrow> json \<Rightarrow> (BridgeError, funding_fields) result" where
  "read_funding_fields J H s v =
     rbind (need ''Missing unit'' (as_str (json_index v ''unit''))) (\<lambda>u.
     rbind (need ''Missing capacity'' (as_u64 (json_index v ''capacity''))) (\<lambda>cap.
     rbind (need ''Missing expiry_timestamp'' (as_u64 (json_index v ''expiry_timestamp''))) (\<lambda>expiry.
     rbind (need ''Missing maximum_amount_for_one_output'' (as_u64 (json_index v ''maximum_amount_for_one_output''))) (\<lambda>maximum.
     rbind (need ''Missing receiver_pubkey'' (as_str (json_index v ''receiver_pubkey''))) (\<lambda>receiver_hex.
     rbind (map_err InvalidRequest (pk_parse J receiver_hex)) (\<lambda>receiver.
     if \<not> h_receiver_key_is_acceptable H s receiver then Err ReceiverKeyNotAcceptable
     else
       rbind (need ''Missing sender_pubkey'' (as_str (json_index v ''sender_pubkey''))) (\<lambda>sender_hex.
       rbind (need ''Missing keyset_id'' (as_str (json_index v ''keyset_id''))) (\<lambda>kid_text.
       rbind (map_err InvalidRequest (id_parse J kid_text)) (\<lambda>kid.
       rbind (need ''Missing mint'' (as_str (json_index v ''mint''))) (\<lambda>mint_url.
       if \<not> h_mint_and_keyset_is_acceptable H s mint_url kid then Err MintOrKeysetNotAcceptable
       else rbind (ok_or MintOrKeysetNotAcceptable (h_get_keyset_info H s mint_url kid)) (\<lambda>info.
         Ok \<lparr>ff_unit = u, ff_capacity = cap, ff_expiry = expiry, ff_maximum = maximum, ff_receiver_hex = receiver_hex,
             ff_sender_hex = sender_hex, ff_keyset_info_json = info\<rparr>)))))))))))"

definition check_policy :: "ChannelPolicy \<Rightarrow> u64 \<Rightarrow> funding_fields \<Rightarrow> u64 \<Rightarrow> (BridgeError, unit) result" where
  "check_policy policy now ff balance =
     (if ff_capacity ff < policy_min_capacity policy
      then Err (CapacityTooSmall (ff_capacity ff) (policy_min_capacity policy))
      else
        rbind (case policy_max_amount_per_output policy of
                 Some m \<Rightarrow> if m > 0 \<and> ff_maximum ff > m then Err (MaxAmountExceeded (ff_maximum ff) m) else Ok ()
               | None \<Rightarrow> Ok ()) (\<lambda>_.
        (let min_expiry = now + min_expiry_in_seconds policy in
         if ff_expiry ff < min_expiry then Err (ExpiryTooSoon (ff_expiry ff) min_expiry now)
         else if balance > ff_capacity ff then Err (BalanceExceedsCapacity balance (ff_capacity ff))
         else Ok ())))"

definition validate_new_channel_funding ::
  "crypto \<Rightarrow> codec \<Rightarrow> bridge_codec \<Rightarrow> ('s, 'c) SpilmanHost \<Rightarrow> 's \<Rightarrow> channel_id \<Rightarrow> json \<Rightarrow> Proof list \<Rightarrow> u64 \<Rightarrow> string
   \<Rightarrow> (BridgeError, ValidatedNewChannel) run" where
  "validate_new_channel_funding C J B H s c params_val proofs balance sig =
     run_bind (Some (rbind (read_funding_fields J H s params_val) (\<lambda>ff.
                     rbind (ok_or (UnsupportedUnit (ff_unit ff)) (h_get_channel_policy H s (ff_unit ff))) (\<lambda>policy.
                     rbind (check_policy policy (h_now_seconds H s) ff balance) (\<lambda>_.
                     rbind (map_err ServerMisconfigured (h_compute_channel_secret H s (ff_receiver_hex ff) (ff_sender_hex ff)))
                       (\<lambda>secret_hex. Ok (ff, secret_hex)))))))
       (\<lambda>(ff, secret_hex).
     run_bind (load_params J Internal InvalidRequest (Internal ''Invalid secret length'') secret_hex (ff_keyset_info_json ff)
                 (json_print J params_val)) (\<lambda>p.
     if get_channel_id C p \<noteq> c then Some (Err ChannelIdMismatch)
     else
       (case verify_valid_channel C J proofs p of
          None \<Rightarrow> None
        | Some verif \<Rightarrow>
            if \<not> cvr_valid verif then Some (Err (ValidationFailed (errors_print B (cvr_errors verif))))
            else
              (let funding = \<lparr>params_json = json_print J params_val, funding_proofs_json = proofs_print J proofs,
                              channel_secret_hex = secret_hex, keyset_info_json = ff_keyset_info_json ff\<rparr>
               in run_bind (run_map_err InvalidSignature (verify_signature C J funding c balance sig)) (\<lambda>_.
                  Some (Ok \<lparr>vn_channel_id = c, vn_balance = balance, vn_capacity = ff_capacity ff,
                            vn_sender_signature = sig, vn_funding = funding\<rparr>))))))"

definition record_validated_new_channel :: "('s, 'c) SpilmanHost \<Rightarrow> ValidatedNewChannel \<Rightarrow> 's \<Rightarrow> 's" where
  "record_validated_new_channel H vn =
     h_save_funding H (vn_channel_id vn) (vn_funding vn)
       \<lparr>pay_balance = vn_balance vn, pay_signature = vn_sender_signature vn\<rparr>"

text \<open>Running a step that may fail or not return before one that changes the state.\<close>

type_synonym ('s, 'a) bridge_step = "((BridgeError, 'a) result \<times> 's) option"

definition then_step :: "(BridgeError, 'a) run \<Rightarrow> 's \<Rightarrow> ('a \<Rightarrow> ('s, 'b) bridge_step) \<Rightarrow> ('s, 'b) bridge_step" where
  "then_step m s k =
     (case m of None \<Rightarrow> None | Some (Err e) \<Rightarrow> Some (Err e, s) | Some (Ok x) \<Rightarrow> k x)"

definition process_payment ::
  "crypto \<Rightarrow> codec \<Rightarrow> bridge_codec \<Rightarrow> ('s, 'c) SpilmanHost \<Rightarrow> channel_id \<Rightarrow> u64 \<Rightarrow> string \<Rightarrow> json option \<Rightarrow> Proof list option
   \<Rightarrow> 'c \<Rightarrow> 's \<Rightarrow> ('s, PaymentSuccess) bridge_step" where
  "process_payment C J B H c balance sig params proofs context s =
     then_step (Some (validate_payment_request H s c sig)) s (\<lambda>known.
     then_step (if known = None
                then run_bind (Some (rbind (ok_or UnknownChannel params) (\<lambda>v.
                                     rbind (ok_or UnknownChannel proofs) (\<lambda>prs. Ok (v, prs))))) (\<lambda>(v, prs).
                     run_bind (validate_new_channel_funding C J B H s c v prs balance sig) (\<lambda>vn.
                     Some (Ok (record_validated_new_channel H vn s))))
                else Some (Ok s)) s (\<lambda>s1.
     then_step (validate_payment C J H s1 c balance sig context) s1 (\<lambda>val.
     Some (Ok \<lparr>ps_channel_id = pv_channel_id val, ps_balance = pv_balance val, ps_amount_due = pv_amount_due val,
               ps_capacity = pv_capacity val\<rparr>,
           h_record_payment H (pv_channel_id val)
             \<lparr>pay_balance = pv_balance val, pay_signature = pv_sender_signature val\<rparr> context s1))))"

definition process_payment_via_json ::
  "crypto \<Rightarrow> codec \<Rightarrow> bridge_codec \<Rightarrow> ('s, 'c) SpilmanHost \<Rightarrow> string \<Rightarrow> 'c \<Rightarrow> 's \<Rightarrow> ('s, PaymentSuccess) bridge_step" where
  "process_payment_via_json C J B H text context s =
     then_step (Some (map_err InvalidRequest (payment_parse B text))) s (\<lambda>p.
     process_payment C J B H (pm_channel_id p) (pm_balance p) (pm_signature p) (pm_params p) (pm_funding_proofs p) context s)"

definition validate_payment_via_json ::
  "crypto \<Rightarrow> codec \<Rightarrow> bridge_codec \<Rightarrow> ('s, 'c) SpilmanHost \<Rightarrow> 's \<Rightarrow> string \<Rightarrow> 'c \<Rightarrow> (BridgeError, PaymentValidationResult) run" where
  "validate_payment_via_json C J B H s text context =
     run_bind (Some (map_err InvalidRequest (payment_parse B text))) (\<lambda>p.
     validate_payment C J H s (pm_channel_id p) (pm_balance p) (pm_signature p) context)"

definition fund_channel ::
  "crypto \<Rightarrow> codec \<Rightarrow> bridge_codec \<Rightarrow> ('s, 'c) SpilmanHost \<Rightarrow> channel_id \<Rightarrow> u64 \<Rightarrow> string \<Rightarrow> json option \<Rightarrow> Proof list option
   \<Rightarrow> 's \<Rightarrow> ('s, FundChannelResult) bridge_step" where
  "fund_channel C J B H c balance sig params proofs s =
     then_step (Some (validate_payment_request H s c sig)) s (\<lambda>known.
     if known \<noteq> None
     then then_step (validate_existing_channel_funding C J H s c balance sig) s (\<lambda>r. Some (Ok r, s))
     else
       then_step (run_bind (Some (rbind (need ''Missing params'' params) (\<lambda>v.
                                  rbind (need ''Missing proofs'' proofs) (\<lambda>prs. Ok (v, prs))))) (\<lambda>(v, prs).
                  validate_new_channel_funding C J B H s c v prs balance sig)) s (\<lambda>vn.
       (let s1 = record_validated_new_channel H vn s in
        then_step (Some (stored_capacity J (vn_funding vn))) s1 (\<lambda>cap.
        Some (Ok \<lparr>fc_channel_id = c, fc_capacity = cap, fc_already_known = False\<rparr>, s1)))))"

definition fund_channel_via_json ::
  "crypto \<Rightarrow> codec \<Rightarrow> bridge_codec \<Rightarrow> ('s, 'c) SpilmanHost \<Rightarrow> string \<Rightarrow> 's \<Rightarrow> ('s, FundChannelResult) bridge_step" where
  "fund_channel_via_json C J B H text s =
     then_step (Some (map_err InvalidRequest (payment_parse B text))) s (\<lambda>p.
     fund_channel C J B H (pm_channel_id p) (pm_balance p) (pm_signature p) (pm_params p) (pm_funding_proofs p) s)"

section \<open>What an accepted payment establishes\<close>

lemma then_step_Ok:
  "then_step m s k = Some (Ok y, s') \<longleftrightarrow> (\<exists>x. m = Some (Ok x) \<and> k x = Some (Ok y, s'))"
  by (auto simp: then_step_def split: option.splits sum.splits)

lemma from_json_fields:
  assumes "from_json_with_channel_secret J text ks secret = Some (Ok p)" "json_parse J text = Ok v"
  shows "as_u64 (json_index v ''capacity'') = Some (capacity p)"
    "as_u64 (json_index v ''expiry_timestamp'') = Some (expiry_timestamp p)"
    "as_u64 (json_index v ''maximum_amount_for_one_output'') = Some (maximum_amount_for_one_output p)"
    "\<exists>h. as_str (json_index v ''receiver_pubkey'') = Some h \<and> pk_parse J h = Ok (receiver_pubkey p)"
    "\<exists>h. as_str (json_index v ''sender_pubkey'') = Some h \<and> pk_parse J h = Ok (sender_pubkey p)"
    "keyset_info p = ks" "channel_secret p = secret"
proof -
  obtain pp p0 where pp: "parse_params_value J v ks = Ok pp"
    and p0: "params_new (pp_sender pp) (pp_receiver pp) (pp_mint pp) (pp_unit pp) (pp_capacity pp) (pp_funding pp)
      (pp_expiry pp) (pp_setup pp) ks (pp_max pp) secret = Some (Ok p0)"
    and p: "p = with_commitment_mode p0 (pp_mode pp)"
    using assms by (auto simp: from_json_with_channel_secret_def run_bind_eq_Ok rbind_eq_Ok)
  note f = params_new_OkD(3) [OF p0]
  show "as_u64 (json_index v ''capacity'') = Some (capacity p)"
    "as_u64 (json_index v ''expiry_timestamp'') = Some (expiry_timestamp p)"
    "as_u64 (json_index v ''maximum_amount_for_one_output'') = Some (maximum_amount_for_one_output p)"
    "\<exists>h. as_str (json_index v ''receiver_pubkey'') = Some h \<and> pk_parse J h = Ok (receiver_pubkey p)"
    "\<exists>h. as_str (json_index v ''sender_pubkey'') = Some h \<and> pk_parse J h = Ok (sender_pubkey p)"
    using pp by (auto simp: p f with_commitment_mode_def parse_params_value_def rbind_eq_Ok u64_field_def pubkey_field_def str_field_def)
  show "keyset_info p = ks" "channel_secret p = secret" by (simp_all add: p f with_commitment_mode_def)
qed

lemma load_params_capacity:
  assumes "load_params J e1 e2 e3 secret_hex keyset_text (params_json funding) = Some (Ok p)"
    "stored_capacity J funding = Ok cap"
  shows "cap = capacity p"
  using assms from_json_fields(1)
  by (auto simp: load_params_def stored_capacity_def run_bind_eq_Ok rbind_eq_Ok split: if_splits)

text \<open>The sender's authorisation of a balance on stored funding.\<close>

definition authorised :: "crypto \<Rightarrow> codec \<Rightarrow> ChannelFunding \<Rightarrow> channel_id \<Rightarrow> u64 \<Rightarrow> string \<Rightarrow> ChannelParameters \<Rightarrow> bool" where
  "authorised C J funding c balance sig p \<longleftrightarrow>
     load_params J id id ''Invalid secret length'' (channel_secret_hex funding) (keyset_info_json funding)
       (params_json funding) = Some (Ok p) \<and>
     (\<exists>proofs channel s. proofs_parse J (funding_proofs_json funding) = Ok proofs \<and>
        established_new J p proofs = Some (Ok channel) \<and> sig_parse J sig = Ok s \<and>
        verify_sender_signature C J \<lparr>bu_channel_id = c, bu_amount = balance, bu_signature = s\<rparr> channel = Some (Ok ()))"

lemma verify_signature_OkD: "verify_signature C J funding c balance sig = Some (Ok ()) \<Longrightarrow> \<exists>p. authorised C J funding c balance sig p"
  by (auto simp: verify_signature_def authorised_def run_bind_eq_Ok)

lemma validate_payment_request_Ok:
  "validate_payment_request H s c sig = Ok known \<longleftrightarrow>
     c \<noteq> [] \<and> sig \<noteq> [] \<and> h_get_channel_state H s c = Ok known \<and> (known = None \<or> known = Some Open)"
proof (cases "h_get_channel_state H s c")
  case (Inr st)
  show ?thesis
  proof (cases st)
    case (Some x)
    then show ?thesis using Inr by (cases x) (auto simp: validate_payment_request_def)
  qed (use Inr in \<open>auto simp: validate_payment_request_def\<close>)
qed (auto simp: validate_payment_request_def)

lemma validate_payment_OkD:
  assumes "validate_payment C J H s c b sig ctx = Some (Ok val)"
  shows "\<exists>funding p. validate_payment_request H s c sig = Ok (Some Open) \<and> h_get_funding H s c = Some funding \<and>
    authorised C J funding c b sig p \<and> b \<le> capacity p \<and> pv_capacity val = capacity p \<and>
    pv_amount_due val = h_get_amount_due H s c (Some ctx) \<and> pv_amount_due val \<le> b \<and>
    pv_channel_id val = c \<and> pv_balance val = b \<and> pv_sender_signature val = sig"
proof -
  obtain known funding cap u where k: "validate_payment_request H s c sig = Ok known" "known \<noteq> None"
    and f: "h_get_funding H s c = Some funding" "stored_capacity J funding = Ok cap" "b \<le> cap"
    and v: "verify_signature C J funding c b sig = Some (Ok u)" "h_get_amount_due H s c (Some ctx) \<le> b"
    and val: "val = \<lparr>pv_channel_id = c, pv_balance = b, pv_amount_due = h_get_amount_due H s c (Some ctx), pv_capacity = cap,
                     pv_sender_signature = sig\<rparr>"
    using assms
    by (auto simp: validate_payment_def run_bind_eq_Ok rbind_eq_Ok Let_def not_less split: if_splits)
  obtain p where p: "authorised C J funding c b sig p" using verify_signature_OkD [of C J funding c b sig] v(1) by auto
  have "cap = capacity p" using load_params_capacity [OF _ f(2)] p by (auto simp: authorised_def)
  moreover have "known = Some Open" using k by (auto simp: validate_payment_request_Ok)
  ultimately show ?thesis using k f v p val by auto
qed

context spilman_host
begin

lemma request_known:
  assumes "ok s" "validate_payment_request H s c sig = Ok known"
  shows "v_state (V s c) = known \<and> (known = None \<or> known = Some Open) \<and> sig \<noteq> [] \<and> c \<noteq> []"
  using assms by (auto simp: validate_payment_request_Ok host_state)

lemma recorded_balance:
  assumes "ok s" "v_state (V s c) = Some Open" "pay_signature p \<noteq> []" "s' = h_record_payment H c p x s"
  shows "v_state (V s' c) = Some Open" "v_funding (V s' c) = v_funding (V s c)"
    "fits (pay_balance p) \<Longrightarrow> \<exists>q. v_balance (V s' c) = Some q \<and> pay_balance p \<le> pay_balance q"
proof -
  note r = host_records [OF assms(1,3), of c x, folded assms(4)]
  have d: "V s' c = V s c \<or> spec_step (UpdateBalance c p) (V s c) = Some (V s' c)" using r by blast
  show "v_state (V s' c) = Some Open" "v_funding (V s' c) = v_funding (V s c)"
    using d assms(2) by (auto simp: eq_commute [of _ "V s' c"])
  assume "fits (pay_balance p)"
  then have "spec_step (UpdateBalance c p) (V s c) = Some (V s' c)" using r assms(2) by blast
  then show "\<exists>q. v_balance (V s' c) = Some q \<and> pay_balance p \<le> pay_balance q"
    using assms(2) by (auto simp: eq_commute [of _ "V s' c"] split: option.splits if_splits)
qed

text \<open>The state in which the payment itself is validated: the channel is open and its funding is what was stored before.\<close>

lemma payment_base:
  assumes "ok s" "process_payment C J B H c b sig params proofs ctx s = Some (Ok r, s')"
  obtains s1 val where "ok s1" "v_state (V s1 c) = Some Open" "v_state (V s c) = None \<or> s1 = s"
    "\<And>c'. c' \<noteq> c \<Longrightarrow> V s1 c' = V s c'"
    "validate_payment C J H s1 c b sig ctx = Some (Ok val)"
    "s' = h_record_payment H c \<lparr>pay_balance = b, pay_signature = sig\<rparr> ctx s1"
    "ps_amount_due r = pv_amount_due val" "ps_balance r = b" "sig \<noteq> []"
proof -
  obtain known s1 val where k: "validate_payment_request H s c sig = Ok known"
    and s1: "(if known = None
                then run_bind (Some (rbind (ok_or UnknownChannel params) (\<lambda>v.
                                     rbind (ok_or UnknownChannel proofs) (\<lambda>prs. Ok (v, prs))))) (\<lambda>(v, prs).
                     run_bind (validate_new_channel_funding C J B H s c v prs b sig) (\<lambda>vn.
                     Some (Ok (record_validated_new_channel H vn s))))
                else Some (Ok s)) = Some (Ok s1)"
    and val: "validate_payment C J H s1 c b sig ctx = Some (Ok val)"
    and r: "r = \<lparr>ps_channel_id = pv_channel_id val, ps_balance = pv_balance val, ps_amount_due = pv_amount_due val,
               ps_capacity = pv_capacity val\<rparr>"
      "s' = h_record_payment H (pv_channel_id val)
             \<lparr>pay_balance = pv_balance val, pay_signature = pv_sender_signature val\<rparr> ctx s1"
    using assms(2) by (auto simp: process_payment_def then_step_Ok)
  note kn = request_known [OF assms(1) k]
  have base: "ok s1 \<and> v_state (V s1 c) = Some Open \<and> (v_state (V s c) = None \<or> s1 = s) \<and> (\<forall>c'. c' \<noteq> c \<longrightarrow> V s1 c' = V s c')"
  proof (cases known)
    case None
    then obtain vn where vn: "s1 = record_validated_new_channel H vn s" "vn_channel_id vn = c" "vn_sender_signature vn = sig"
      using s1
      by (auto simp: run_bind_eq_Ok rbind_eq_Ok validate_new_channel_funding_def Let_def split: option.splits if_splits)
    show ?thesis
      using host_saves [OF assms(1), of c "\<lparr>pay_balance = vn_balance vn, pay_signature = vn_sender_signature vn\<rparr>" "vn_funding vn"]
        kn None vn by (simp add: record_validated_new_channel_def)
  next
    case (Some st)
    then show ?thesis using s1 assms(1) kn by auto
  qed
  show ?thesis
    using base validate_payment_OkD [OF val] kn val r that [of s1 val] by auto
qed

lemma payment_accepted:
  assumes "ok s" "process_payment C J B H c b sig params proofs ctx s = Some (Ok r, s')"
  shows "\<exists>funding p. v_funding (V s' c) = Some funding \<and> authorised C J funding c b sig p \<and> b \<le> capacity p \<and>
    (v_state (V s c) = Some Open \<longrightarrow> v_funding (V s c) = Some funding \<and> ps_amount_due r = h_get_amount_due H s c (Some ctx)) \<and>
    ps_amount_due r \<le> b \<and> v_state (V s' c) = Some Open \<and> (v_state (V s c) = None \<or> v_state (V s c) = Some Open) \<and>
    (fits b \<longrightarrow> (\<exists>q. v_balance (V s' c) = Some q \<and> b \<le> pay_balance q)) \<and> (\<forall>c'. c' \<noteq> c \<longrightarrow> V s' c' = V s c') \<and> ok s'"
proof (rule payment_base [OF assms])
  fix s1 val
  assume a: "ok s1" "v_state (V s1 c) = Some Open" "v_state (V s c) = None \<or> s1 = s"
    "\<And>c'. c' \<noteq> c \<Longrightarrow> V s1 c' = V s c'"
    "validate_payment C J H s1 c b sig ctx = Some (Ok val)"
    "s' = h_record_payment H c \<lparr>pay_balance = b, pay_signature = sig\<rparr> ctx s1"
    "ps_amount_due r = pv_amount_due val" "ps_balance r = b" "sig \<noteq> []"
  obtain funding p where v: "h_get_funding H s1 c = Some funding" "authorised C J funding c b sig p" "b \<le> capacity p"
    "pv_amount_due val = h_get_amount_due H s1 c (Some ctx)" "pv_amount_due val \<le> b"
    using validate_payment_OkD [OF a(5)] by blast
  have sg: "pay_signature \<lparr>pay_balance = b, pay_signature = sig\<rparr> \<noteq> []" using a(9) by simp
  note rec = recorded_balance [OF a(1,2) sg a(6)]
  have f: "v_funding (V s' c) = Some funding" using rec(2) v(1) by (simp add: host_funding)
  have others: "V s' c' = V s c'" if "c' \<noteq> c" for c'
    using host_records [OF a(1) sg, of c ctx] a(4,6) that by simp
  have ok': "ok s'" using host_records [OF a(1) sg, of c ctx] a(6) by blast
  show ?thesis
    by (intro exI [of _ funding] exI [of _ p])
      (use f others ok' rec(1,3) v a(2,3,7) in \<open>auto simp: host_funding\<close>)
qed

end

section \<open>What an accepted new channel establishes\<close>

lemma validate_new_OkD:
  assumes "validate_new_channel_funding C J B H s c v proofs b sig = Some (Ok vn)"
  obtains ff policy secret_hex p where "read_funding_fields J H s v = Ok ff" "h_get_channel_policy H s (ff_unit ff) = Some policy"
    "check_policy policy (h_now_seconds H s) ff b = Ok ()"
    "h_compute_channel_secret H s (ff_receiver_hex ff) (ff_sender_hex ff) = Ok secret_hex"
    "load_params J Internal InvalidRequest (Internal ''Invalid secret length'') secret_hex (ff_keyset_info_json ff)
       (json_print J v) = Some (Ok p)"
    "get_channel_id C p = c" "map_option cvr_valid (verify_valid_channel C J proofs p) = Some True"
    "vn_funding vn = \<lparr>params_json = json_print J v, funding_proofs_json = proofs_print J proofs,
       channel_secret_hex = secret_hex, keyset_info_json = ff_keyset_info_json ff\<rparr>"
    "verify_signature C J (vn_funding vn) c b sig = Some (Ok ())" "vn_channel_id vn = c" "vn_balance vn = b"
    "vn_sender_signature vn = sig"
  using assms
  by (auto simp: validate_new_channel_funding_def run_bind_eq_Ok rbind_eq_Ok Let_def split: option.splits if_splits)

lemma load_params_errors:
  "load_params J e1 e2 e3 a b t = Some (Ok p) \<longleftrightarrow> load_params J f1 f2 f3 a b t = Some (Ok p)"
  by (auto simp: load_params_def run_bind_eq_Ok rbind_eq_Ok split: if_splits)

lemma load_params_OkD:
  assumes "load_params J e1 e2 e3 secret_hex keyset_text text = Some (Ok p)"
  shows "\<exists>ks secret. hex_decode J secret_hex = Ok secret \<and> length secret = 32 \<and>
    parse_keyset_info_from_json J keyset_text = Ok ks \<and> from_json_with_channel_secret J text ks secret = Some (Ok p)"
  using assms by (auto simp: load_params_def run_bind_eq_Ok rbind_eq_Ok split: if_splits)




section \<open>An example run\<close>

text \<open>A host that trusts one mint and has its keyset, and a first payment that opens the channel.\<close>

definition one_digest :: "bytes \<Rightarrow> bytes" where
  "one_digest _ = [1]"

definition key_of_ones :: "bytes \<Rightarrow> bytes \<Rightarrow> bytes" where
  "key_of_ones _ _ = replicate 32 1"

definition open_crypto :: crypto where
  "open_crypto = short_crypto\<lparr>sha256 := one_digest, hmac_sha256 := (\<lambda>_. one_digest), hkdf_expand := key_of_ones,
     sig_all_message_hash := (\<lambda>_. [2])\<rparr>"

definition open_value :: json where
  "open_value = channel_id_params_value short_codec (short_params\<lparr>capacity := 1, funding_token_amount := 1\<rparr>)"

definition open_json_parse :: "string \<Rightarrow> (string, json) result" where
  "open_json_parse t =
     Ok (if t = ''k''
         then JObj [(''keysetId'', JStr [char_of (0 :: nat)]), (''unit'', JStr ''sat''), (''inputFeePpk'', JU64 0),
                    (''keys'', JObj [(''1'', JStr ''a'')])]
         else open_value)"

definition open_text :: codec where
  "open_text = short_codec\<lparr>json_parse := open_json_parse, json_print := (\<lambda>_. ''p''),
     json_raw := (\<lambda>_. Ok (RawObj [(''requests'', JU64 0)]))\<rparr>"

definition open_proofs :: "Proof list" where
  "open_proofs =
     (case run_bind (from_json_with_channel_secret open_text ''p'' (example_keyset [1] 0) (replicate 32 1)) (\<lambda>p.
           run_bind (outputs_new ''funding'' (funding_token_amount p) p) (\<lambda>outputs.
           Some (get_secrets_with_blinding open_crypto open_text outputs))) of
        Some (Ok expected) \<Rightarrow> map funded_by expected
      | _ \<Rightarrow> [])"

definition open_proofs_parse :: "string \<Rightarrow> (string, Proof list) result" where
  "open_proofs_parse _ = Ok open_proofs"

definition open_codec :: codec where
  "open_codec = open_text\<lparr>proofs_parse := open_proofs_parse\<rparr>"

definition open_host :: "stored SqliteStorage ConfigurableHost" where
  "open_host = \<lparr>host_config = priced_config, host_server_pubkey = [3, 1], host_server_secret_hex = ''k'',
     host_storage = sqlite_storage open_codec example_rows\<rparr>"

definition open_state :: "stored SqliteStorage" where
  "open_state = snd (sq_set_keyset open_codec example_rows ''m'' [0] \<lparr>kc_info_json = ''k'', kc_active = True, kc_unit = ''sat''\<rparr>
     sqlite_init_schema)"

definition open_channel_id :: string where
  "open_channel_id = hex_encode open_crypto [1]"

definition open_signature :: string where
  "open_signature = [CHR 0x02, CHR 0x01, CHR 0x01, CHR 0x02]"

definition open_bridge :: bridge_codec where
  "open_bridge = \<lparr>payment_parse = (\<lambda>_. Err []), errors_print = (\<lambda>_. [])\<rparr>"

lemma open_accepted: "map_option (is_ok \<circ> fst) (process_payment open_crypto open_codec open_bridge
    (configurable_host open_crypto open_codec 10 open_host) open_channel_id 1 open_signature (Some open_value)
    (Some open_proofs) ''x'' open_state) = Some True"
  by code_simp

lemma open_run:
  obtains r s' vn where "process_payment open_crypto open_codec open_bridge (configurable_host open_crypto open_codec 10 open_host)
     open_channel_id 1 open_signature (Some open_value) (Some open_proofs) ''x'' open_state = Some (Ok r, s')"
    "validate_new_channel_funding open_crypto open_codec open_bridge (configurable_host open_crypto open_codec 10 open_host)
     open_state open_channel_id open_value open_proofs 1 open_signature = Some (Ok vn)"
proof -
  obtain out where out: "process_payment open_crypto open_codec open_bridge (configurable_host open_crypto open_codec 10 open_host)
     open_channel_id 1 open_signature (Some open_value) (Some open_proofs) ''x'' open_state = Some out" "is_ok (fst out)"
    using open_accepted by auto
  obtain r where r: "fst out = Ok r" using is_ok_obtain [OF out(2)] by blast
  then have run: "process_payment open_crypto open_codec open_bridge (configurable_host open_crypto open_codec 10 open_host)
     open_channel_id 1 open_signature (Some open_value) (Some open_proofs) ''x'' open_state = Some (Ok r, snd out)"
    using out(1) by (cases out) simp
  have "validate_payment_request (configurable_host open_crypto open_codec 10 open_host) open_state open_channel_id open_signature = Ok None"
    by code_simp
  then show thesis
    using run that by (auto simp: process_payment_def then_step_Ok run_bind_eq_Ok)
qed



end
