(* ===== verification/MintOutcome.thy ===== *)
theory MintOutcome
  imports External
begin

text \<open>
  Evidence from the mint and the one-shot keyset retry:
  \<open>crates/cdk-spilman/src/mint_outcome.rs\<close> and \<open>crates/cdk-spilman/src/keyset_retry.rs\<close>.

  A response is classified by its HTTP status and, for status 400, by its body.  The retry helper runs
  an attempt, and on a retryable rejection refreshes the keysets and runs one more with another keyset.
  The closures it calls may change state, so they are functions from a state to a result and a state.
\<close>

section \<open>Responses\<close>

type_synonym u16 = "16 word"
type_synonym u32 = "32 word"

record MintResponse =
  status :: u16
  body :: string

record MintRejection =
  rej_status :: u16
  rej_code :: u32
  rej_detail :: string

datatype MintRequestError =
    Rejected MintRejection
  | Http MintResponse
  | Transport string

fun as_u32 :: "json \<Rightarrow> u32 option" where
  "as_u32 (JU64 n) = (if n < 4294967296 then Some (ucast n) else None)"
| "as_u32 _ = None"

fun as_u16 :: "json \<Rightarrow> u16 option" where
  "as_u16 (JU64 n) = (if n < 65536 then Some (ucast n) else None)"
| "as_u16 _ = None"

text \<open>Decoding of the three structs.\<close>

definition decode_response :: "raw_json \<Rightarrow> MintResponse option" where
  "decode_response raw =
     (case struct_fields True [''status'', ''body''] raw of
        Some [a, b] \<Rightarrow>
          (case (as_u16 a, as_str b) of
             (Some st, Some bd) \<Rightarrow> Some \<lparr>status = st, body = bd\<rparr>
           | _ \<Rightarrow> None)
      | _ \<Rightarrow> None)"

definition decode_nut00 :: "raw_json \<Rightarrow> (u32 \<times> string) option" where
  "decode_nut00 raw =
     (case struct_fields False [''code'', ''detail''] raw of
        Some [a, b] \<Rightarrow>
          (case (as_u32 a, as_str b) of
             (Some code, Some detail) \<Rightarrow> Some (code, detail)
           | _ \<Rightarrow> None)
      | _ \<Rightarrow> None)"

definition rejection_try_from :: "u16 \<Rightarrow> u32 \<Rightarrow> string \<Rightarrow> (string, MintRejection) result" where
  "rejection_try_from st code detail =
     (if st \<noteq> 400 then Err ''NUT-00 rejection must have HTTP status 400''
      else Ok \<lparr>rej_status = st, rej_code = code, rej_detail = detail\<rparr>)"

definition rejection_permits_keyset_retry :: "MintRejection \<Rightarrow> bool" where
  "rejection_permits_keyset_retry r \<longleftrightarrow> rej_status r = 400 \<and> (rej_code r = 12001 \<or> rej_code r = 12002)"

fun rejection :: "MintRequestError \<Rightarrow> MintRejection option" where
  "rejection (Rejected r) = Some r"
| "rejection _ = None"

definition permits_keyset_retry :: "MintRequestError \<Rightarrow> bool" where
  "permits_keyset_retry e =
     (case rejection e of None \<Rightarrow> False | Some r \<Rightarrow> rej_status r = 400 \<and> rejection_permits_keyset_retry r)"

definition into_result :: "codec \<Rightarrow> MintResponse \<Rightarrow> (MintRequestError, string) result" where
  "into_result J r =
     (if 200 \<le> status r \<and> status r < 300 then Ok (body r)
      else
        (case (if status r = 400 then (case json_raw J (body r) of Ok raw \<Rightarrow> decode_nut00 raw | Err _ \<Rightarrow> None) else None) of
           Some (code, detail) \<Rightarrow> Err (Rejected \<lparr>rej_status = status r, rej_code = code, rej_detail = detail\<rparr>)
         | None \<Rightarrow> Err (Http r)))"

definition from_callback :: "codec \<Rightarrow> (string, string) result \<Rightarrow> (MintRequestError, string) result" where
  "from_callback J result =
     rbind (map_err Transport result) (\<lambda>wire.
     rbind (ok_or (Transport ''invalid mint response envelope'')
              (case json_raw J wire of Ok raw \<Rightarrow> decode_response raw | Err _ \<Rightarrow> None)) (\<lambda>response.
     if \<not> (100 \<le> status response \<and> status response < 600)
     then Err (Transport ''invalid mint HTTP status'')
     else into_result J response))"

fun mint_error_display :: "MintRequestError \<Rightarrow> string" where
  "mint_error_display (Rejected r) =
     ''mint rejected request (HTTP '' @ show_nat (unat (rej_status r)) @ '', NUT-00 '' @ show_nat (unat (rej_code r)) @ '')''"
| "mint_error_display (Http r) = ''unclassified mint HTTP response '' @ show_nat (unat (status r))"
| "mint_error_display (Transport m) = ''mint transport failure: '' @ m"

section \<open>The retry helper\<close>

record SelectedOutputKeyset =
  sel_id :: string
  sel_info_json :: string

record ('a, 't) KeysetRetrySuccess =
  ok_attempt :: 'a
  ok_value :: 't
  ok_retried :: bool

datatype ('a, 'p, 'e) KeysetRetryError =
    RSelect 'p
  | RPrepare 'p
  | RRefresh 'p
  | RCleanup 'p
  | RSubmit 'a 'e bool
  | RetryKeysetUnchanged 'a 'e string

text \<open>The closures of one use of the helper.  The predicate \<open>should_retry\<close> has no effect; a caller that remembers the
  rejection in it does so in the clean-up step, which follows at once.\<close>

record ('s, 'k, 'a, 't, 'p, 'e) retry_ops =
  r_select :: "'s \<Rightarrow> ('p, 'k) result \<times> 's"
  r_keyset :: "'k \<Rightarrow> SelectedOutputKeyset"
  r_prepare :: "'k \<Rightarrow> 's \<Rightarrow> ('p, 'a) result \<times> 's"
  r_submit :: "'a \<Rightarrow> 's \<Rightarrow> ('e, 't) result \<times> 's"
  r_should_retry :: "'e \<Rightarrow> bool"
  r_refresh :: "'s \<Rightarrow> ('p, unit) result \<times> 's"
  r_cleanup :: "'a \<Rightarrow> 'e \<Rightarrow> 's \<Rightarrow> ('p, unit) result \<times> 's"

text \<open>Sequencing of a fallible step on a state, with its error renamed.\<close>

definition step_bind ::
  "('p \<Rightarrow> 'f) \<Rightarrow> ('p, 'b) result \<times> 's \<Rightarrow> ('b \<Rightarrow> 's \<Rightarrow> ('f, 'c) result \<times> 's) \<Rightarrow> ('f, 'c) result \<times> 's" where
  "step_bind f r k = (case r of (Ok x, s) \<Rightarrow> k x s | (Err e, s) \<Rightarrow> (Err (f e), s))"

definition with_active_keyset_retry ::
  "('s, 'k, 'a, 't, 'p, 'e) retry_ops \<Rightarrow> 's
   \<Rightarrow> (('a, 'p, 'e) KeysetRetryError, ('a, 't) KeysetRetrySuccess) result \<times> 's" where
  "with_active_keyset_retry ops s0 =
     step_bind RSelect (r_select ops s0) (\<lambda>keyset s1.
     (let keyset_id = sel_id (r_keyset ops keyset) in
      step_bind RPrepare (r_prepare ops keyset s1) (\<lambda>attempt s2.
      (case r_submit ops attempt s2 of
         (Ok value, s3) \<Rightarrow> (Ok \<lparr>ok_attempt = attempt, ok_value = value, ok_retried = False\<rparr>, s3)
       | (Err error, s3) \<Rightarrow>
           if r_should_retry ops error
           then
             step_bind RCleanup (r_cleanup ops attempt error s3) (\<lambda>_ s4.
             step_bind RRefresh (r_refresh ops s4) (\<lambda>_ s5.
             step_bind RSelect (r_select ops s5) (\<lambda>retry_keyset s6.
             (let retry_keyset_id = sel_id (r_keyset ops retry_keyset) in
              if retry_keyset_id = keyset_id
              then (Err (RetryKeysetUnchanged attempt error keyset_id), s6)
              else
                step_bind RPrepare (r_prepare ops retry_keyset s6) (\<lambda>attempt2 s7.
                (case r_submit ops attempt2 s7 of
                   (Ok value, s8) \<Rightarrow> (Ok \<lparr>ok_attempt = attempt2, ok_value = value, ok_retried = True\<rparr>, s8)
                 | (Err error2, s8) \<Rightarrow> (Err (RSubmit attempt2 error2 True), s8)))))))
           else (Err (RSubmit attempt error False), s3)))))"

text \<open>An invariant of every step is one of the whole run, and a successful attempt was prepared in a state that has it.\<close>

lemma step_bind_rule:
  assumes "P (snd m)" "\<And>x s. m = (Ok x, s) \<Longrightarrow> P s \<Longrightarrow> Q (k x s)" "\<And>e s. P s \<Longrightarrow> Q (Err e, s)"
  shows "Q (step_bind f m k)"
  using assms by (cases m; cases "fst m") (auto simp: step_bind_def)

lemma retry_keeps:
  assumes sel: "\<And>s. P s \<Longrightarrow> P (snd (r_select ops s))" and prep: "\<And>k s. P s \<Longrightarrow> P (snd (r_prepare ops k s))"
    and sub: "\<And>a s. P s \<Longrightarrow> P (snd (r_submit ops a s))" and refr: "\<And>s. P s \<Longrightarrow> P (snd (r_refresh ops s))"
    and cln: "\<And>a e s. P s \<Longrightarrow> P (snd (r_cleanup ops a e s))" and "P s"
  defines "Q \<equiv> \<lambda>out. P (snd out) \<and> (\<forall>x. fst out = Ok x \<longrightarrow> (\<exists>k s1 s2. P s1 \<and> r_prepare ops k s1 = (Ok (ok_attempt x), s2)))"
  shows "Q (with_active_keyset_retry ops s)"
proof -
  let ?submit = "\<lambda>b h a s. case r_submit ops a s of
      (Ok v, s') \<Rightarrow> (Ok \<lparr>ok_attempt = a, ok_value = v, ok_retried = b\<rparr>, s') | (Err e, s') \<Rightarrow> h a e s'"
  let ?again = "\<lambda>k s. step_bind RPrepare (r_prepare ops k s) (?submit True (\<lambda>a e s'. (Err (RSubmit a e True), s')))"
  let ?reselect = "\<lambda>kid a e s. step_bind RSelect (r_select ops s) (\<lambda>k s'.
      if sel_id (r_keyset ops k) = kid then (Err (RetryKeysetUnchanged a e kid), s') else ?again k s')"
  let ?refresh = "\<lambda>kid a e s. step_bind RRefresh (r_refresh ops s) (\<lambda>_ s'. ?reselect kid a e s')"
  let ?rejected = "\<lambda>kid a e s. if r_should_retry ops e
      then step_bind RCleanup (r_cleanup ops a e s) (\<lambda>_ s'. ?refresh kid a e s') else (Err (RSubmit a e False), s)"
  have err: "Q (Err e, s1)" if "P s1" for e s1 using that by (simp add: Q_def)
  have submitted: "Q (?submit b h a s2)"
    if "r_prepare ops k s1 = (Ok a, s2)" "P s1" "P s2" "\<And>e s3. P s3 \<Longrightarrow> Q (h a e s3)" for k s1 a s2 b h
  proof (cases "r_submit ops a s2")
    case (Pair r s3)
    moreover have "P s3" using sub [OF that(3), of a] Pair by simp
    ultimately show ?thesis using that by (cases r) (auto simp: Q_def)
  qed
  note bind = step_bind_rule [where P = P and Q = Q]
  have again: "Q (?again k s1)" if "P s1" for k s1
    by (rule bind [OF prep [OF that] _ err], erule submitted [OF _ that]) (use err in auto)
  have reselect: "Q (?reselect kid a e s1)" if "P s1" for kid a e s1
    by (rule bind [OF sel [OF that] _ err]) (auto intro!: again err)
  have refresh: "Q (?refresh kid a e s1)" if "P s1" for kid a e s1
    by (rule bind [OF refr [OF that] reselect err])
  have rejected: "Q (?rejected kid a e s1)" if "P s1" for kid a e s1
  proof (cases "r_should_retry ops e")
    case True
    have "Q (step_bind RCleanup (r_cleanup ops a e s1) (\<lambda>_ s'. ?refresh kid a e s'))"
      by (rule bind [OF cln [OF that] refresh err])
    then show ?thesis using True by simp
  qed (simp add: err that)
  have first: "Q (step_bind RPrepare (r_prepare ops k s1) (?submit False (?rejected kid)))" if "P s1" for k s1 kid
    by (rule bind [OF prep [OF that] _ err], erule submitted [OF _ that]) (use rejected in auto)
  show ?thesis
    unfolding with_active_keyset_retry_def Let_def
    by (rule bind [OF sel [OF \<open>P s\<close>] first err])
qed

section \<open>Only a rejection of the keyset permits a retry\<close>

text \<open>C10: a failed mint request permits another keyset exactly when the callback returned a complete response with
  HTTP status 400 whose body is a well-formed rejection with code 12001 or 12002.  A transport failure
  never does, whatever its text says.\<close>

theorem retry_permission_exact:
  "(\<exists>e. from_callback J result = Err e \<and> permits_keyset_retry e) \<longleftrightarrow>
   (\<exists>wire raw response raw_body code detail.
      result = Ok wire \<and> json_raw J wire = Ok raw \<and> decode_response raw = Some response \<and>
      status response = 400 \<and> json_raw J (body response) = Ok raw_body \<and>
      decode_nut00 raw_body = Some (code, detail) \<and> (code = 12001 \<or> code = 12002))"
proof (cases result)
  case (Inl m)
  then show ?thesis by (simp add: from_callback_def permits_keyset_retry_def)
next
  case (Inr wire)
  show ?thesis
  proof (cases "case json_raw J wire of Ok raw \<Rightarrow> decode_response raw | Err _ \<Rightarrow> None")
    case None
    then show ?thesis
      using Inr by (auto simp: from_callback_def permits_keyset_retry_def ok_or_def split: sum.splits)
  next
    case (Some response)
    have "(\<exists>e. into_result J response = Err e \<and> permits_keyset_retry e) \<longleftrightarrow>
        status response = 400 \<and> (\<exists>raw_body code detail. json_raw J (body response) = Ok raw_body \<and>
          decode_nut00 raw_body = Some (code, detail) \<and> (code = 12001 \<or> code = 12002))"
      by (auto simp: into_result_def permits_keyset_retry_def rejection_permits_keyset_retry_def
          split: if_splits sum.splits option.splits prod.splits)
    then show ?thesis
      using Inr Some
      by (auto simp: from_callback_def ok_or_def permits_keyset_retry_def split: sum.splits)
  qed
qed

section \<open>At most one more submission, and only with another keyset\<close>

text \<open>A counter that the submissions advance and nothing else does.\<close>

definition counts_submissions :: "('s, 'k, 'a, 't, 'p, 'e) retry_ops \<Rightarrow> ('s \<Rightarrow> nat) \<Rightarrow> bool" where
  "counts_submissions ops n \<longleftrightarrow>
     (\<forall>a s. n (snd (r_submit ops a s)) = Suc (n s)) \<and> (\<forall>s. n (snd (r_select ops s)) = n s) \<and>
     (\<forall>k s. n (snd (r_prepare ops k s)) = n s) \<and> (\<forall>s. n (snd (r_refresh ops s)) = n s) \<and>
     (\<forall>a e s. n (snd (r_cleanup ops a e s)) = n s)"

text \<open>The helper gets as far as submitting a second attempt.\<close>

definition resubmits :: "('s, 'k, 'a, 't, 'p, 'e) retry_ops \<Rightarrow> 's \<Rightarrow> bool" where
  "resubmits ops s0 \<longleftrightarrow>
     (\<exists>k s1 a s2 e s3 s4 s5 k2 s6 a2 s7.
        r_select ops s0 = (Ok k, s1) \<and> r_prepare ops k s1 = (Ok a, s2) \<and> r_submit ops a s2 = (Err e, s3) \<and>
        r_should_retry ops e \<and> r_cleanup ops a e s3 = (Ok (), s4) \<and> r_refresh ops s4 = (Ok (), s5) \<and>
        r_select ops s5 = (Ok k2, s6) \<and> sel_id (r_keyset ops k2) \<noteq> sel_id (r_keyset ops k) \<and>
        r_prepare ops k2 s6 = (Ok a2, s7))"

lemma counts_submissions_steps:
  assumes "counts_submissions ops n"
  shows "r_submit ops a s = (r1, s') \<Longrightarrow> n s' = Suc (n s)" "r_select ops s = (r2, s') \<Longrightarrow> n s' = n s"
    "r_prepare ops k s = (r3, s') \<Longrightarrow> n s' = n s" "r_refresh ops s = (r4, s') \<Longrightarrow> n s' = n s"
    "r_cleanup ops a e s = (r5, s') \<Longrightarrow> n s' = n s"
  using assms unfolding counts_submissions_def by (metis snd_conv)+

lemma step_bind_cases:
  assumes "step_bind f r k = (x, s')"
  obtains e s where "r = (Err e, s)" "x = Err (f e)" "s' = s" | y s where "r = (Ok y, s)" "k y s = (x, s')"
  using assms by (auto simp: step_bind_def split: prod.splits sum.splits)

lemma retry_submissions:
  assumes "counts_submissions ops n" "with_active_keyset_retry ops s = (r, s')"
  shows "n s' = n s + 2 \<and> resubmits ops s \<and> (\<forall>x. r = Ok x \<longrightarrow> ok_retried x) \<or>
         n s' \<le> n s + 1 \<and> \<not> resubmits ops s \<and> (\<forall>x. r = Ok x \<longrightarrow> \<not> ok_retried x)"
proof -
  note steps = counts_submissions_steps [OF assms(1)]
  show ?thesis
    using assms(2) unfolding with_active_keyset_retry_def Let_def
  proof (cases rule: step_bind_cases)
    case 1
    then show ?thesis using steps(2) by (auto simp: resubmits_def)
  next
    case (2 k s1)
    note sel = 2(1) and n1 = steps(2) [OF 2(1)]
    from 2(2) show ?thesis
    proof (cases rule: step_bind_cases)
      case 1
      then show ?thesis using sel n1 steps(3) by (auto simp: resubmits_def)
    next
      case (2 a s2)
      note prep = 2(1) and n2 = steps(3) [OF 2(1)]
      obtain res s3 where sub: "r_submit ops a s2 = (res, s3)" by (cases "r_submit ops a s2")
      note n3 = steps(1) [OF sub]
      show ?thesis
      proof (cases "\<exists>e. res = Err e \<and> r_should_retry ops e")
        case False
        then show ?thesis
          using 2(2) sub sel prep n1 n2 n3 by (auto simp: resubmits_def split: sum.splits)
      next
        case True
        then obtain e where e: "res = Err e" "r_should_retry ops e" by blast
        have "step_bind RCleanup (r_cleanup ops a e s3) (\<lambda>_ s4.
             step_bind RRefresh (r_refresh ops s4) (\<lambda>_ s5.
             step_bind RSelect (r_select ops s5) (\<lambda>k2 s6.
              if sel_id (r_keyset ops k2) = sel_id (r_keyset ops k)
              then (Err (RetryKeysetUnchanged a e (sel_id (r_keyset ops k))), s6)
              else
                step_bind RPrepare (r_prepare ops k2 s6) (\<lambda>a2 s7.
                (case r_submit ops a2 s7 of
                   (Ok value, s8) \<Rightarrow> (Ok \<lparr>ok_attempt = a2, ok_value = value, ok_retried = True\<rparr>, s8)
                 | (Err error2, s8) \<Rightarrow> (Err (RSubmit a2 error2 True), s8)))))) = (r, s')"
          using 2(2) sub e by simp
        then show ?thesis
          using sel prep sub e n1 n2 n3 steps
          by (auto elim!: step_bind_cases simp: resubmits_def split: if_splits prod.splits sum.splits)
      qed
    qed
  qed
qed

text \<open>C29: the helper submits at most twice.  It submits twice exactly when the first submission failed with a
  retryable error, cleanup, refresh, selection and preparation succeeded, and the refreshed selection
  chose another keyset; a success is marked as retried exactly in that case.\<close>

theorem retry_at_most_once:
  assumes "counts_submissions ops n" "with_active_keyset_retry ops s = (r, s')"
  shows "n s' \<le> n s + 2 \<and> (n s' = n s + 2 \<longleftrightarrow> resubmits ops s) \<and>
    (\<forall>x. r = Ok x \<longrightarrow> (ok_retried x \<longleftrightarrow> resubmits ops s))"
  using retry_submissions [OF assms] by auto

text \<open>A mint that rejects the first keyset as inactive and takes the next one.\<close>

definition example_ops ::
  "(nat, SelectedOutputKeyset, string, string, string, MintRequestError) retry_ops" where
  "example_ops =
     \<lparr>r_select = (\<lambda>n. (Ok \<lparr>sel_id = (if n = 0 then ''00a'' else ''00b''), sel_info_json = []\<rparr>, n)),
      r_keyset = id, r_prepare = (\<lambda>k n. (Ok (sel_id k), n)),
      r_submit = (\<lambda>a n. (if a = ''00a''
        then Err (Rejected \<lparr>rej_status = 400, rej_code = 12002, rej_detail = ''inactive''\<rparr>)
        else Ok ''signed'', Suc n)),
      r_should_retry = permits_keyset_retry, r_refresh = (\<lambda>n. (Ok (), n)), r_cleanup = (\<lambda>_ _ n. (Ok (), n))\<rparr>"

theorem retry_at_most_once_witness:
  "with_active_keyset_retry example_ops 0 =
     (Ok \<lparr>ok_attempt = ''00b'', ok_value = ''signed'', ok_retried = True\<rparr>, 2) \<and> resubmits example_ops 0"
proof -
  have run: "with_active_keyset_retry example_ops 0 =
     (Ok \<lparr>ok_attempt = ''00b'', ok_value = ''signed'', ok_retried = True\<rparr>, 2)"
    by code_simp
  have "counts_submissions example_ops (\<lambda>n. n)"
    by (simp add: counts_submissions_def example_ops_def)
  from retry_at_most_once [OF this run] run show ?thesis by simp
qed

end
