(* ===== verification/Close.thy ===== *)
theory Close
  imports Bridge MintOutcome
begin

text \<open>
  The receiver's bridge: closing a channel, in \<open>crates/cdk-spilman/src/bridge.rs\<close>.

  A close is prepared (the commitment for the agreed balance, signed by both sides), the channel is marked
  as closing, the swap is submitted to the mint, the response is completed and verified, and the channel
  is marked as closed.  The mint and the refresh of the keyset cache are arguments that act on the same
  state as the host.  The asynchronous variants have the same bodies over futures.
\<close>

section \<open>Data\<close>

record CloseData =
  cl_swap_request :: SwapRequest
  cl_sig_all_message_hash :: string
  cl_blinded_receiver_pubkey :: string
  cl_expected_total :: u64
  cl_secrets_with_blinding :: "(DeterministicSecretWithBlinding \<times> bool) list"
  cl_output_keyset_info :: KeysetInfo

record UnblindResult =
  ur_receiver_proofs :: "ProofWithMetadata list"
  ur_sender_proofs :: "ProofWithMetadata list"
  ur_receiver_sum :: u64
  ur_sender_sum :: u64

record PreparedClose =
  pc_channel_id :: string
  pc_balance :: u64
  pc_mint_url :: string
  pc_swap_request :: json
  pc_sig_all_message_hash :: string
  pc_blinded_receiver_pubkey :: string
  pc_secrets_with_blinding :: json
  pc_output_keyset_info :: json
  pc_params_json :: string
  pc_keyset_info_json :: string
  pc_channel_secret :: string

record PreparedCloseTransition =
  pt_prepared_close :: PreparedClose
  pt_expiry_timestamp :: u64
  pt_payment :: PaymentProof

record CompletedClose =
  cc_channel_id :: string
  cc_expiry_timestamp :: u64
  cc_balance :: u64
  cc_receiver_proofs_json :: string
  cc_sender_proofs_json :: string
  cc_receiver_sum :: u64
  cc_sender_sum :: u64

record CloseSuccess =
  cs_channel_id :: string
  cs_total_value :: u64
  cs_receiver_sum :: u64
  cs_sender_sum :: u64
  cs_sender_proofs :: string
  cs_already_closed :: bool

text \<open>The derived encoders and decoders of the data of a close.\<close>

record close_codec =
  request_to_value :: "SwapRequest \<Rightarrow> json"
  request_from_value :: "json \<Rightarrow> (string, SwapRequest) result"
  keyset_to_value :: "KeysetInfo \<Rightarrow> json"
  response_parse :: "string \<Rightarrow> (string, SwapResponse) result"
  response_print :: "SwapResponse \<Rightarrow> string"
  restore_parse :: "string \<Rightarrow> (string, RestoreResponse) result"
  values_parse :: "string \<Rightarrow> (string, json list) result"
  rejection_to_value :: "MintRejection \<Rightarrow> json"
  mint_error_to_value :: "MintRequestError \<Rightarrow> json"

text \<open>A secret of the commitment as a JSON object, whose members are kept in the order of their names.\<close>

definition secret_value :: "crypto \<Rightarrow> DeterministicSecretWithBlinding \<times> bool \<Rightarrow> json" where
  "secret_value C x =
     (case x of (s, rcv) \<Rightarrow>
        JObj [(''amount'', JU64 (ds_amount s)), (''blinding_factor'', JStr (hex_encode C (ds_blinding_factor s))),
              (''index'', JU64 (ds_index s)), (''is_receiver'', JBool rcv), (''secret'', JStr (ds_secret s))])"

definition to_json_value :: "crypto \<Rightarrow> close_codec \<Rightarrow> CloseData \<Rightarrow> json" where
  "to_json_value C D cd =
     JObj [(''blinded_receiver_pubkey'', JStr (cl_blinded_receiver_pubkey cd)),
           (''expected_total'', JU64 (cl_expected_total cd)),
           (''output_keyset_info'', keyset_to_value D (cl_output_keyset_info cd)),
           (''secrets_with_blinding'', JArr (map (secret_value C) (cl_secrets_with_blinding cd))),
           (''sig_all_message_hash'', JStr (cl_sig_all_message_hash cd)),
           (''success'', JBool True),
           (''swap_request'', request_to_value D (cl_swap_request cd))]"

section \<open>Errors\<close>

record ClosePreparationError =
  cp_error :: string
  cp_reason :: string
  cp_status :: nat
  cp_extra :: "(string \<times> json) list option"

definition cp_bad_request :: "string \<Rightarrow> ClosePreparationError" where
  "cp_bad_request reason = \<lparr>cp_error = ''Bad request'', cp_reason = reason, cp_status = 400, cp_extra = None\<rparr>"

definition cp_payment_required :: "string \<Rightarrow> ClosePreparationError" where
  "cp_payment_required reason = \<lparr>cp_error = ''Payment required'', cp_reason = reason, cp_status = 402, cp_extra = None\<rparr>"

definition cp_not_found :: "string \<Rightarrow> ClosePreparationError" where
  "cp_not_found reason = \<lparr>cp_error = reason, cp_reason = reason, cp_status = 404, cp_extra = None\<rparr>"

definition cp_internal :: "string \<Rightarrow> ClosePreparationError" where
  "cp_internal reason = \<lparr>cp_error = ''Internal error'', cp_reason = reason, cp_status = 500, cp_extra = None\<rparr>"

definition cp_conflict :: "string \<Rightarrow> ClosePreparationError" where
  "cp_conflict reason = \<lparr>cp_error = ''Channel closing'', cp_reason = reason, cp_status = 409, cp_extra = None\<rparr>"

definition cp_gone :: "string \<Rightarrow> ClosePreparationError" where
  "cp_gone reason = \<lparr>cp_error = ''Channel closed'', cp_reason = reason, cp_status = 410, cp_extra = None\<rparr>"

fun str_contains :: "string \<Rightarrow> string \<Rightarrow> bool" where
  "str_contains pat [] \<longleftrightarrow> pat = []"
| "str_contains pat (c # cs) \<longleftrightarrow> take (length pat) (c # cs) = pat \<or> str_contains pat cs"

definition cp_from_bridge_error :: "BridgeError \<Rightarrow> ClosePreparationError" where
  "cp_from_bridge_error err =
     (let reason = bridge_error_display err in
      case err of
        ChannelClosed \<Rightarrow> cp_gone reason
      | ChannelClosing \<Rightarrow> cp_conflict reason
      | BridgeError.UnknownChannel \<Rightarrow> cp_not_found reason
      | InvalidRequest msg \<Rightarrow> if str_contains ''no payment proof'' msg then cp_bad_request reason else cp_payment_required reason
      | Internal _ \<Rightarrow> cp_internal reason
      | ServerMisconfigured _ \<Rightarrow> cp_internal reason
      | BalanceMismatch expected actual \<Rightarrow>
          (cp_payment_required reason)\<lparr>cp_extra := Some [(''actual'', JU64 actual), (''expected'', JU64 expected)]\<rparr>
      | _ \<Rightarrow> cp_payment_required reason)"

datatype CloseError =
    ValidationFailed string nat "u64 option" "u64 option"
  | UnknownChannel nat
  | AlreadyClosed u64 u64 nat
  | MintRejected json nat
  | MintRejectedAfterRetry json json nat
  | MintRequestFailed MintRequestError "MintRequestError option" nat
  | UnblindFailed string nat
  | StorageFailed string nat

fun status_code :: "CloseError \<Rightarrow> nat" where
  "status_code (ValidationFailed _ st _ _) = st"
| "status_code (UnknownChannel st) = st"
| "status_code (AlreadyClosed _ _ st) = st"
| "status_code (MintRejected _ st) = st"
| "status_code (MintRejectedAfterRetry _ _ st) = st"
| "status_code (MintRequestFailed _ _ st) = st"
| "status_code (UnblindFailed _ st) = st"
| "status_code (StorageFailed _ st) = st"

definition from_preparation_error :: "ClosePreparationError \<Rightarrow> CloseError" where
  "from_preparation_error err =
     (let field = (\<lambda>k. case cp_extra err of
                          None \<Rightarrow> None
                        | Some extra \<Rightarrow> (case map_of extra k of None \<Rightarrow> None | Some v \<Rightarrow> as_u64 v))
      in ValidationFailed (cp_reason err) (cp_status err) (field ''expected'') (field ''actual''))"

definition mint_rejected :: "json \<Rightarrow> CloseError" where
  "mint_rejected e = MintRejected e 502"

definition mint_rejected_after_retry :: "json \<Rightarrow> json \<Rightarrow> CloseError" where
  "mint_rejected_after_retry original retry = MintRejectedAfterRetry original retry 502"

definition unblind_failed :: "string \<Rightarrow> CloseError" where
  "unblind_failed reason = UnblindFailed reason 500"

definition storage_failed :: "string \<Rightarrow> CloseError" where
  "storage_failed reason = StorageFailed reason 500"

definition parse_mint_error_value :: "close_codec \<Rightarrow> MintRequestError \<Rightarrow> json" where
  "parse_mint_error_value D e =
     (case rejection e of Some r \<Rightarrow> rejection_to_value D r | None \<Rightarrow> mint_error_to_value D e)"

definition close_expiry_timestamp :: "codec \<Rightarrow> PreparedClose \<Rightarrow> u64" where
  "close_expiry_timestamp J prep =
     (let v = (case json_parse J (pc_params_json prep) of Ok v \<Rightarrow> v | Err _ \<Rightarrow> JNull)
      in case as_u64 (json_index v ''expiry_timestamp'') of None \<Rightarrow> 0 | Some n \<Rightarrow> n)"

definition should_retry_swap_error :: "MintRequestError \<Rightarrow> bool" where
  "should_retry_swap_error e = permits_keyset_retry e"

fun close_error_display :: "codec \<Rightarrow> CloseError \<Rightarrow> string" where
  "close_error_display J (MintRequestFailed e _ _) = ''mint request failed: '' @ mint_error_display e"
| "close_error_display J (ValidationFailed reason _ _ _) = ''validation failed: '' @ reason"
| "close_error_display J (UnknownChannel _) = ''unknown channel''"
| "close_error_display J (AlreadyClosed closed requested _) =
     ''channel already closed with balance '' @ show_u64 closed @ '' (requested '' @ show_u64 requested @ '')''"
| "close_error_display J (MintRejected e _) = ''mint rejected swap: '' @ json_print J e"
| "close_error_display J (MintRejectedAfterRetry original retry _) =
     ''mint rejected swap after retry: original='' @ json_print J original @ '', retry='' @ json_print J retry"
| "close_error_display J (UnblindFailed reason _) = ''unblind failed: '' @ reason"
| "close_error_display J (StorageFailed reason _) = ''storage failed: '' @ reason"

section \<open>Completing the mint's response\<close>

definition stage1_output ::
  "crypto \<Rightarrow> KeysetInfo \<Rightarrow> DeterministicSecretWithBlinding \<Rightarrow> (string, PreparedSwapOutput) result" where
  "stage1_output C ks d =
     rbind (blind_message C (ds_secret d) (ds_blinding_factor d)) (\<lambda>(point, _).
     Ok \<lparr>ps_blinded_message = blinded_message_new (ds_amount d) (ki_keyset_id ks) point, ps_secret = ds_secret d,
         ps_blinding_factor = ds_blinding_factor d\<rparr>)"

fun json_at :: "json \<Rightarrow> nat \<Rightarrow> json option" where
  "json_at (JArr xs) i = (if i < length xs then Some (xs ! i) else None)"
| "json_at _ _ = None"

definition locked_to :: "codec \<Rightarrow> json \<Rightarrow> pubkey \<Rightarrow> bool" where
  "locked_to J v pk \<longleftrightarrow>
     Option.bind (json_at v 0) as_str = Some ''P2PK'' \<and>
     Option.bind (Option.bind (json_at v 1) (\<lambda>x. json_get x ''data'')) as_str = Some (pk_to_hex J pk)"

text \<open>The loop over the proofs, the receiver's and the sender's collected with their sums.\<close>

fun stage1_split ::
  "crypto \<Rightarrow> codec \<Rightarrow> ChannelParameters \<Rightarrow> (Proof \<times> DeterministicSecretWithBlinding \<times> bool) list \<Rightarrow> UnblindResult
   \<Rightarrow> (BridgeError, UnblindResult) result" where
  "stage1_split C J p [] acc = Ok acc"
| "stage1_split C J p ((pr, d, rcv) # rest) acc =
     rbind (map_err Internal (attach_stage2_p2pk_e C p pr (if rcv then Receiver else Sender) (ds_amount d) (ds_index d))) (\<lambda>pr'.
     (let meta = \<lparr>pm_proof = pr', pm_amount = ds_amount d, pm_index = ds_index d, is_receiver = rcv\<rparr> in
      if rcv
      then
        rbind (map_err Internal (get_receiver_blinded_pubkey_for_stage2_output C p (ds_amount d) (ds_index d))) (\<lambda>pk.
        rbind (map_err Internal (json_parse J (pr_secret pr'))) (\<lambda>v.
        if \<not> locked_to J v pk then Err (BridgeError.ValidationFailed ''Receiver proof locked to wrong pubkey'')
        else stage1_split C J p rest
               (acc\<lparr>ur_receiver_sum := ur_receiver_sum acc + pr_amount pr', ur_receiver_proofs := ur_receiver_proofs acc @ [meta]\<rparr>)))
      else stage1_split C J p rest
             (acc\<lparr>ur_sender_sum := ur_sender_sum acc + pr_amount pr', ur_sender_proofs := ur_sender_proofs acc @ [meta]\<rparr>)))"

definition stage1_proofs ::
  "crypto \<Rightarrow> codec \<Rightarrow> SwapResponse \<Rightarrow> (DeterministicSecretWithBlinding \<times> bool) list \<Rightarrow> ChannelParameters \<Rightarrow> KeysetInfo
   \<Rightarrow> (BridgeError, Proof list) result" where
  "stage1_proofs C J response secrets p ks =
     (if length (sp_signatures response) \<noteq> length secrets
      then Err (Internal ''Length mismatch between signatures and secrets'')
      else
        rbind (map_err Internal (traverse (\<lambda>(d, _). stage1_output C ks d) secrets)) (\<lambda>expected.
        (let request = swap_request_new [] (map ps_blinded_message expected);
             request = (case commitment_mode p of Ordinary \<Rightarrow> request | Rerandomized \<Rightarrow> with_rerandomization request)
         in map_err BridgeError.ValidationFailed (complete_swap_response C J request expected response ks))))"

definition unblind_and_verify_stage1_swap_response ::
  "crypto \<Rightarrow> codec \<Rightarrow> SwapResponse \<Rightarrow> (DeterministicSecretWithBlinding \<times> bool) list \<Rightarrow> ChannelParameters \<Rightarrow> KeysetInfo \<Rightarrow> u64
   \<Rightarrow> (BridgeError, UnblindResult) run" where
  "unblind_and_verify_stage1_swap_response C J response secrets p ks balance =
     run_bind (Some (rbind (stage1_proofs C J response secrets p ks) (\<lambda>proofs.
                     stage1_split C J p (zip proofs secrets)
                       \<lparr>ur_receiver_proofs = [], ur_sender_proofs = [], ur_receiver_sum = 0, ur_sender_sum = 0\<rparr>))) (\<lambda>result.
     run_bind (run_map_err Internal (inverse_deterministic_value_after_fees (keyset_info p) balance
                 (maximum_amount_for_one_output p))) (\<lambda>inv.
     Some (if ur_receiver_sum result \<noteq> nominal_value inv
           then Err (BridgeError.ValidationFailed (''Receiver nominal mismatch: expected '' @ show_u64 (nominal_value inv)
                       @ '', got '' @ show_u64 (ur_receiver_sum result)))
           else Ok result)))"

definition unblind_and_verify_stage1_response ::
  "crypto \<Rightarrow> codec \<Rightarrow> BlindSignature list \<Rightarrow> (DeterministicSecretWithBlinding \<times> bool) list \<Rightarrow> ChannelParameters \<Rightarrow> KeysetInfo
   \<Rightarrow> u64 \<Rightarrow> (BridgeError, UnblindResult) run" where
  "unblind_and_verify_stage1_response C J signatures =
     unblind_and_verify_stage1_swap_response C J \<lparr>sp_signatures = signatures, rerandomization_r = None\<rparr>"

section \<open>Preparing a close\<close>

definition prepare_close_data_impl ::
  "crypto \<Rightarrow> codec \<Rightarrow> ('s, 'c) SpilmanHost \<Rightarrow> 's \<Rightarrow> channel_id \<Rightarrow> u64 \<Rightarrow> string \<Rightarrow> ChannelFunding \<Rightarrow> KeysetInfo \<Rightarrow> bool
   \<Rightarrow> (BridgeError, CloseData) run" where
  "prepare_close_data_impl C J H s c balance sig funding out_keyset validate_due =
     run_bind (load_params J Internal Internal (Internal ''Invalid secret length'') (channel_secret_hex funding)
                 (keyset_info_json funding) (params_json funding)) (\<lambda>p.
     run_bind (Some (rbind (map_err Internal (proofs_parse J (funding_proofs_json funding))) (\<lambda>proofs.
                     if balance > capacity p then Err (BalanceExceedsCapacity balance (capacity p))
                     else if validate_due \<and> balance \<noteq> h_get_amount_due H s c None
                     then Err (BalanceMismatch (h_get_amount_due H s c None) balance)
                     else rbind (map_err InvalidSignature (sig_parse J sig)) (\<lambda>sg. Ok (proofs, sg))))) (\<lambda>(proofs, sg).
     run_bind (run_map_err Internal (for_balance balance p)) (\<lambda>commitment.
     run_bind (Some (map_err Internal (rbind (create_swap_request C J commitment proofs (Some (ki_keyset_id out_keyset))) (\<lambda>swap.
                     attach_signature_to_first_input swap (sig_to_string J sg))))) (\<lambda>swap.
     run_bind (run_map_err Internal (established_new J p proofs)) (\<lambda>channel.
     run_bind (run_map_err InvalidSignature
                 (verify_sender_signature C J \<lparr>bu_channel_id = c, bu_amount = balance, bu_signature = sg\<rparr> channel)) (\<lambda>_.
     run_bind (Some (rbind (map_err Internal (derive_receiver_blinding_scalar_for_stage1 C p)) (\<lambda>tweak.
                     (let message_hash = sig_all_message_hash_hex C swap in
                      rbind (map_err Internal (get_receiver_blinded_pubkey_for_stage1 C p)) (\<lambda>receiver_pk.
                      rbind (map_err ServerMisconfigured
                               (h_sign_with_tweaked_key H s (pk_to_hex J (receiver_pubkey p)) message_hash (hex_encode C tweak)))
                        (\<lambda>server_sig.
                      rbind (map_err Internal (attach_signature_to_first_input swap server_sig)) (\<lambda>signed_swap.
                      Ok (signed_swap, message_hash, pk_to_hex J receiver_pk)))))))) (\<lambda>(signed_swap, message_hash, receiver_hex).
     run_bind (run_map_err Internal (get_value_after_stage1_with_keyset p out_keyset)) (\<lambda>expected_total.
     Some (map_err Internal
       (rbind (get_secrets_with_blinding C J (receiver_outputs commitment)) (\<lambda>rs.
        rbind (get_secrets_with_blinding C J (sender_outputs commitment)) (\<lambda>ss.
        Ok \<lparr>cl_swap_request = signed_swap, cl_sig_all_message_hash = message_hash, cl_blinded_receiver_pubkey = receiver_hex,
            cl_expected_total = expected_total, cl_secrets_with_blinding = commitment_order rs ss,
            cl_output_keyset_info = out_keyset\<rparr>))))))))))))"

definition usable_keyset ::
  "codec \<Rightarrow> ('s, 'c) SpilmanHost \<Rightarrow> 's \<Rightarrow> ChannelParameters \<Rightarrow> key_id \<Rightarrow> KeysetInfo option" where
  "usable_keyset J H s p kid =
     (case h_get_keyset_info H s (mint p) kid of
        None \<Rightarrow> None
      | Some text \<Rightarrow>
          (case parse_keyset_info_from_json J text of
             Err _ \<Rightarrow> None
           | Ok info \<Rightarrow>
               if ki_keyset_id info = kid \<and> ki_unit info = unit p \<and> is_unexpired_at info (h_now_seconds H s)
               then Some info else None))"

definition select_close_output_keyset_from_funding ::
  "codec \<Rightarrow> ('s, 'c) SpilmanHost \<Rightarrow> 's \<Rightarrow> ChannelFunding \<Rightarrow> (BridgeError, KeysetInfo) run" where
  "select_close_output_keyset_from_funding J H s funding =
     run_bind (load_params J Internal Internal (Internal ''Invalid secret length'') (channel_secret_hex funding)
                 (keyset_info_json funding) (params_json funding)) (\<lambda>p.
     Some (case List.map_filter (usable_keyset J H s p) (h_get_active_keyset_ids H s (mint p) (unit p)) of
             info # _ \<Rightarrow> Ok info
           | [] \<Rightarrow> Err (Internal ''No usable active close keysets'')))"

definition prepare_close_data ::
  "crypto \<Rightarrow> codec \<Rightarrow> ('s, 'c) SpilmanHost \<Rightarrow> 's \<Rightarrow> channel_id \<Rightarrow> u64 \<Rightarrow> string \<Rightarrow> bool \<Rightarrow> (BridgeError, CloseData) run" where
  "prepare_close_data C J H s c balance sig validate_due =
     run_bind (Some (rbind (map_err Internal (h_get_channel_state H s c)) (\<lambda>st.
                     case st of
                       Some Closed \<Rightarrow> Err ChannelClosed
                     | None \<Rightarrow> Err BridgeError.UnknownChannel
                     | Some _ \<Rightarrow> ok_or BridgeError.UnknownChannel (h_get_funding H s c)))) (\<lambda>funding.
     run_bind (select_close_output_keyset_from_funding J H s funding) (\<lambda>out_keyset.
     prepare_close_data_impl C J H s c balance sig funding out_keyset validate_due))"

definition close_mint_unit_for_channel ::
  "codec \<Rightarrow> ('s, 'c) SpilmanHost \<Rightarrow> 's \<Rightarrow> channel_id \<Rightarrow> (ClosePreparationError, string \<times> currency_unit) run" where
  "close_mint_unit_for_channel J H s c =
     run_bind (Some (ok_or (cp_internal ''Missing funding'') (h_get_funding H s c))) (\<lambda>funding.
     run_bind (load_params J cp_internal cp_internal (cp_internal ''Invalid secret length'') (channel_secret_hex funding)
                 (keyset_info_json funding) (params_json funding)) (\<lambda>p. Some (Ok (mint p, unit p))))"

definition select_close_output_keyset_for_channel ::
  "codec \<Rightarrow> ('s, 'c) SpilmanHost \<Rightarrow> 's \<Rightarrow> channel_id \<Rightarrow> (ClosePreparationError, SelectedOutputKeyset) run" where
  "select_close_output_keyset_for_channel J H s c =
     run_bind (Some (ok_or (cp_internal ''Missing funding'') (h_get_funding H s c))) (\<lambda>funding.
     run_bind (run_map_err cp_from_bridge_error (select_close_output_keyset_from_funding J H s funding)) (\<lambda>keyset.
     Some (Ok \<lparr>sel_id = id_to_string J (ki_keyset_id keyset), sel_info_json = keyset_print J keyset\<rparr>)))"

definition selected_output_keyset_info :: "codec \<Rightarrow> SelectedOutputKeyset \<Rightarrow> (ClosePreparationError, KeysetInfo) result" where
  "selected_output_keyset_info J selected = map_err cp_internal (parse_keyset_info_from_json J (sel_info_json selected))"

definition validate_and_prepare_cooperative_close ::
  "crypto \<Rightarrow> codec \<Rightarrow> bridge_codec \<Rightarrow> ('s, 'c) SpilmanHost \<Rightarrow> 's \<Rightarrow> string \<Rightarrow> (BridgeError, CloseData) run" where
  "validate_and_prepare_cooperative_close C J B H s text =
     run_bind (Some (rbind (map_err InvalidRequest (payment_parse B text)) (\<lambda>p.
                     if pm_channel_id p = [] then Err (InvalidRequest ''missing channel_id'')
                     else if pm_signature p = [] then Err (InvalidRequest ''missing signature'')
                     else Ok p))) (\<lambda>p.
     prepare_close_data C J H s (pm_channel_id p) (pm_balance p) (pm_signature p) True)"

definition create_unilateral_close_data ::
  "crypto \<Rightarrow> codec \<Rightarrow> ('s, 'c) SpilmanHost \<Rightarrow> 's \<Rightarrow> channel_id \<Rightarrow> (BridgeError, CloseData) run" where
  "create_unilateral_close_data C J H s c =
     run_bind (Some (if h_get_funding H s c = None then Err BridgeError.UnknownChannel
                     else ok_or (InvalidRequest ''No payment proof'') (h_get_balance_and_signature_for_unilateral_exit H s c)))
       (\<lambda>p. prepare_close_data C J H s c (pay_balance p) (pay_signature p) False)"

definition wrap_close_data ::
  "crypto \<Rightarrow> codec \<Rightarrow> close_codec \<Rightarrow> CloseData \<Rightarrow> channel_id \<Rightarrow> u64 \<Rightarrow> ChannelFunding
   \<Rightarrow> (ClosePreparationError, PreparedClose) result" where
  "wrap_close_data C J D cd c balance funding =
     rbind (map_err cp_internal (json_parse J (params_json funding))) (\<lambda>v.
     rbind (ok_or (cp_internal ''Missing mint'') (as_str (json_index v ''mint''))) (\<lambda>mint_url.
     Ok \<lparr>pc_channel_id = c, pc_balance = balance, pc_mint_url = mint_url,
         pc_swap_request = request_to_value D (cl_swap_request cd),
         pc_sig_all_message_hash = cl_sig_all_message_hash cd,
         pc_blinded_receiver_pubkey = cl_blinded_receiver_pubkey cd,
         pc_secrets_with_blinding = JArr (map (secret_value C) (cl_secrets_with_blinding cd)),
         pc_output_keyset_info = keyset_to_value D (cl_output_keyset_info cd),
         pc_params_json = params_json funding, pc_keyset_info_json = keyset_info_json funding,
         pc_channel_secret = channel_secret_hex funding\<rparr>))"

definition prepare_cooperative_close_for_execution ::
  "crypto \<Rightarrow> codec \<Rightarrow> bridge_codec \<Rightarrow> close_codec \<Rightarrow> ('s, 'c) SpilmanHost \<Rightarrow> 's \<Rightarrow> string
   \<Rightarrow> (ClosePreparationError, PreparedClose) run" where
  "prepare_cooperative_close_for_execution C J B D H s text =
     run_bind (Some (rbind (map_err cp_bad_request (json_parse J text)) (\<lambda>v.
                     rbind (ok_or (cp_bad_request ''Missing ID'') (as_str (json_index v ''channel_id''))) (\<lambda>c. Ok (v, c))))) (\<lambda>(v, c).
     run_bind (run_map_err cp_from_bridge_error (validate_and_prepare_cooperative_close C J B H s text)) (\<lambda>cd.
     (let balance = (case as_u64 (json_index v ''balance'') of None \<Rightarrow> 0 | Some n \<Rightarrow> n) in
      Some (rbind (ok_or (cp_internal ''Missing funding'') (h_get_funding H s c)) (\<lambda>funding.
            wrap_close_data C J D cd c balance funding)))))"

definition prepare_unilateral_close_for_execution ::
  "crypto \<Rightarrow> codec \<Rightarrow> close_codec \<Rightarrow> ('s, 'c) SpilmanHost \<Rightarrow> 's \<Rightarrow> channel_id
   \<Rightarrow> (ClosePreparationError, PreparedClose) run" where
  "prepare_unilateral_close_for_execution C J D H s c =
     run_bind (run_map_err cp_from_bridge_error (create_unilateral_close_data C J H s c)) (\<lambda>cd.
     Some (rbind (ok_or (cp_internal ''Missing funding'') (h_get_funding H s c)) (\<lambda>funding.
           rbind (ok_or (cp_internal ''Missing payment'') (h_get_balance_and_signature_for_unilateral_exit H s c)) (\<lambda>p.
           wrap_close_data C J D cd c (pay_balance p) funding))))"

definition prepare_cooperative_close_transition ::
  "crypto \<Rightarrow> codec \<Rightarrow> bridge_codec \<Rightarrow> close_codec \<Rightarrow> ('s, 'c) SpilmanHost \<Rightarrow> 's \<Rightarrow> string
   \<Rightarrow> (ClosePreparationError, PreparedCloseTransition) run" where
  "prepare_cooperative_close_transition C J B D H s text =
     run_bind (prepare_cooperative_close_for_execution C J B D H s text) (\<lambda>prep.
     (let v = (case json_parse J text of Ok v \<Rightarrow> v | Err _ \<Rightarrow> JNull);
          sig = (case as_str (json_index v ''signature'') of None \<Rightarrow> [] | Some t \<Rightarrow> t)
      in Some (Ok \<lparr>pt_prepared_close = prep, pt_expiry_timestamp = close_expiry_timestamp J prep,
                   pt_payment = \<lparr>pay_balance = pc_balance prep, pay_signature = sig\<rparr>\<rparr>)))"

definition prepare_unilateral_close_transition ::
  "crypto \<Rightarrow> codec \<Rightarrow> close_codec \<Rightarrow> ('s, 'c) SpilmanHost \<Rightarrow> 's \<Rightarrow> channel_id
   \<Rightarrow> (ClosePreparationError, PreparedCloseTransition) run" where
  "prepare_unilateral_close_transition C J D H s c =
     run_bind (prepare_unilateral_close_for_execution C J D H s c) (\<lambda>prep.
     Some (rbind (ok_or (cp_bad_request ''No payment'') (h_get_balance_and_signature_for_unilateral_exit H s c)) (\<lambda>payment.
           Ok \<lparr>pt_prepared_close = prep, pt_expiry_timestamp = close_expiry_timestamp J prep, pt_payment = payment\<rparr>)))"

definition mark_prepared_close_closing ::
  "('s, 'c) SpilmanHost \<Rightarrow> PreparedCloseTransition \<Rightarrow> 's \<Rightarrow> (CloseError, unit) result \<times> 's" where
  "mark_prepared_close_closing H transition s =
     (case h_mark_channel_closing H (pc_channel_id (pt_prepared_close transition)) (pt_expiry_timestamp transition)
             (pt_payment transition) s of
        (r, s') \<Rightarrow> (map_err storage_failed r, s'))"

definition prepare_close_for_closing_channel_with_keyset ::
  "crypto \<Rightarrow> codec \<Rightarrow> close_codec \<Rightarrow> ('s, 'c) SpilmanHost \<Rightarrow> 's \<Rightarrow> channel_id \<Rightarrow> u64 \<Rightarrow> string \<Rightarrow> SelectedOutputKeyset
   \<Rightarrow> (ClosePreparationError, PreparedClose) run" where
  "prepare_close_for_closing_channel_with_keyset C J D H s c balance sig selected =
     run_bind (Some (rbind (ok_or (cp_internal ''Missing funding'') (h_get_funding H s c)) (\<lambda>funding.
                     rbind (selected_output_keyset_info J selected) (\<lambda>ks. Ok (funding, ks))))) (\<lambda>(funding, ks).
     run_bind (run_map_err cp_from_bridge_error (prepare_close_data_impl C J H s c balance sig funding ks False)) (\<lambda>cd.
     Some (rbind (ok_or (cp_internal ''Missing funding'') (h_get_funding H s c)) (\<lambda>funding.
           wrap_close_data C J D cd c balance funding))))"

definition prepare_close_for_closing_channel_with_output_keyset ::
  "crypto \<Rightarrow> codec \<Rightarrow> close_codec \<Rightarrow> ('s, 'c) SpilmanHost \<Rightarrow> 's \<Rightarrow> channel_id \<Rightarrow> SelectedOutputKeyset
   \<Rightarrow> (ClosePreparationError, PreparedClose) run" where
  "prepare_close_for_closing_channel_with_output_keyset C J D H s c selected =
     run_bind (Some (rbind (map_err cp_internal (h_get_channel_state H s c)) (\<lambda>st.
                     if st \<noteq> Some Closing then Err (cp_bad_request ''Not closing'')
                     else ok_or (cp_internal ''Missing closing data'') (h_get_closing_data H s c)))) (\<lambda>cd.
     prepare_close_for_closing_channel_with_keyset C J D H s c (cd_balance cd) (cd_signature cd) selected)"

section \<open>Authenticating a prepared close\<close>

definition invalid_binding :: CloseError where
  "invalid_binding = unblind_failed ''Invalid immutable close binding''"

definition bind_check :: "('e, 'a) result \<Rightarrow> (CloseError, 'a) result" where
  "bind_check r = map_err (\<lambda>_. invalid_binding) r"

definition require :: "bool \<Rightarrow> (CloseError, unit) result" where
  "require b = (if b then Ok () else Err invalid_binding)"

fun two_signatures :: "SwapRequest \<Rightarrow> string \<Rightarrow> bool" where
  "two_signatures request sig =
     (case sr_inputs request of
        [] \<Rightarrow> False
      | i # _ \<Rightarrow> (case pr_witness i of Some (P2PKWitness [a, b]) \<Rightarrow> a = sig | _ \<Rightarrow> False))"

definition without_witness :: "SwapRequest \<Rightarrow> (CloseError, SwapRequest) result" where
  "without_witness request =
     (case sr_inputs request of
        [] \<Rightarrow> Err invalid_binding
      | i # rest \<Rightarrow> Ok (request\<lparr>sr_inputs := i\<lparr>pr_witness := None\<rparr> # rest\<rparr>))"

definition check_close_request ::
  "crypto \<Rightarrow> codec \<Rightarrow> close_codec \<Rightarrow> PreparedClose \<Rightarrow> PreparedClose \<Rightarrow> string \<Rightarrow> pubkey \<Rightarrow> (CloseError, unit) result" where
  "check_close_request C J D prepared expected sig receiver_pk =
     rbind (require (pc_secrets_with_blinding expected = pc_secrets_with_blinding prepared)) (\<lambda>_.
     rbind (bind_check (request_from_value D (pc_swap_request prepared))) (\<lambda>request.
     rbind (require (request_to_value D request = pc_swap_request prepared)) (\<lambda>_.
     rbind (require (sig_all_message_hash_hex C request = pc_sig_all_message_hash prepared \<and>
                     pk_to_hex J receiver_pk = pc_blinded_receiver_pubkey prepared)) (\<lambda>_.
     rbind (require (two_signatures request sig)) (\<lambda>_.
     rbind (bind_check (get_signatures_from_swap_request J request)) (\<lambda>sigs.
     rbind (require (length sigs = 2 \<and> sig_to_string J (sigs ! 0) = sig)) (\<lambda>_.
     rbind (bind_check (verify_swap_signature C request receiver_pk (sigs ! 1))) (\<lambda>_.
     rbind (bind_check (request_from_value D (pc_swap_request expected))) (\<lambda>expected_request.
     rbind (without_witness request) (\<lambda>r.
     rbind (without_witness expected_request) (\<lambda>er.
     require (request_to_value D r = request_to_value D er))))))))))))"

definition verify_prepared_close ::
  "crypto \<Rightarrow> codec \<Rightarrow> close_codec \<Rightarrow> ('s, 'c) SpilmanHost \<Rightarrow> 's \<Rightarrow> PreparedClose \<Rightarrow> ChannelFunding \<Rightarrow> PaymentProof \<Rightarrow> pubkey
   \<Rightarrow> (CloseError, unit) run" where
  "verify_prepared_close C J D H s prepared funding payment receiver =
     run_bind (Some (require (pc_balance prepared = pay_balance payment \<and> pc_params_json prepared = params_json funding \<and>
                pc_keyset_info_json prepared = keyset_info_json funding \<and>
                pc_channel_secret prepared = channel_secret_hex funding))) (\<lambda>_.
     run_bind (load_params J (\<lambda>_. invalid_binding) (\<lambda>_. invalid_binding) invalid_binding (channel_secret_hex funding)
                 (keyset_info_json funding) (params_json funding)) (\<lambda>p.
     run_bind (Some (rbind (bind_check (parse_keyset_info_from_json J (json_print J (pc_output_keyset_info prepared)))) (\<lambda>ks.
                     rbind (require (receiver_pubkey p = receiver \<and> get_channel_id C p = pc_channel_id prepared \<and>
                              mint p = pc_mint_url prepared \<and> unit p = ki_unit ks)) (\<lambda>_. Ok ks)))) (\<lambda>ks.
     run_bind (run_map_err (\<lambda>_. invalid_binding)
                 (prepare_close_data_impl C J H s (pc_channel_id prepared) (pay_balance payment) (pay_signature payment)
                    funding ks False)) (\<lambda>cd.
     Some (rbind (bind_check (wrap_close_data C J D cd (pc_channel_id prepared) (pay_balance payment) funding)) (\<lambda>expected.
           rbind (bind_check (get_receiver_blinded_pubkey_for_stage1 C p)) (\<lambda>receiver_pk.
           check_close_request C J D prepared expected (pay_signature payment) receiver_pk)))))))"

section \<open>Completing a close\<close>

definition sign_receiver_close_proof ::
  "crypto \<Rightarrow> codec \<Rightarrow> ('s, 'c) SpilmanHost \<Rightarrow> 's \<Rightarrow> ChannelParameters \<Rightarrow> ProofWithMetadata \<Rightarrow> (CloseError, Proof) result" where
  "sign_receiver_close_proof C J H s p pm =
     rbind (map_err (\<lambda>e. unblind_failed (''Failed to attach stage2 metadata: '' @ e))
              (attach_stage2_p2pk_e C p (pm_proof pm) Receiver (pm_amount pm) (pm_index pm))) (\<lambda>pr.
     rbind (map_err (\<lambda>e. unblind_failed (''Failed to derive stage2 tweak: '' @ e))
              (stage2_tweak_info_for_role C p Receiver (pm_amount pm) (pm_index pm))) (\<lambda>info.
     rbind (map_err (\<lambda>e. unblind_failed (''Failed to sign receiver proof: '' @ e))
              (h_sign_with_tweaked_key H s (pk_to_hex J (receiver_pubkey p))
                 (hex_encode C (sha256 C (string_bytes (pr_secret pr)))) (hex_encode C (stage2_tweak_scalar info)))) (\<lambda>sig.
     Ok (pr\<lparr>pr_witness := Some (P2PKWitness [sig])\<rparr>))))"

definition parse_secret_value :: "crypto \<Rightarrow> codec \<Rightarrow> json \<Rightarrow> (CloseError, DeterministicSecretWithBlinding \<times> bool) result" where
  "parse_secret_value C J v =
     rbind (ok_or (unblind_failed ''Missing secret'') (as_str (json_index v ''secret''))) (\<lambda>secret.
     rbind (ok_or (unblind_failed ''Missing blinding'') (as_str (json_index v ''blinding_factor''))) (\<lambda>text.
     rbind (map_err unblind_failed (hex_decode J text)) (\<lambda>bs.
     rbind (map_err unblind_failed (sk_from_slice C bs)) (\<lambda>blinding_factor.
     rbind (ok_or (unblind_failed ''Missing amount'') (as_u64 (json_index v ''amount''))) (\<lambda>amount.
     rbind (ok_or (unblind_failed ''Missing index'') (as_u64 (json_index v ''index''))) (\<lambda>index.
     rbind (ok_or (unblind_failed ''Missing is_receiver'') (as_bool (json_index v ''is_receiver''))) (\<lambda>rcv.
     Ok (\<lparr>ds_secret = secret, ds_blinding_factor = blinding_factor, ds_amount = amount, ds_index = index\<rparr>, rcv))))))))"

fun check_close_outputs ::
  "crypto \<Rightarrow> KeysetInfo \<Rightarrow> (BlindedMessage \<times> DeterministicSecretWithBlinding \<times> bool) list \<Rightarrow> (CloseError, unit) result" where
  "check_close_outputs C ks [] = Ok ()"
| "check_close_outputs C ks ((m, d, _) # rest) =
     rbind (map_err (\<lambda>_. unblind_failed ''Invalid prepared close output'')
              (blind_message C (ds_secret d) (ds_blinding_factor d))) (\<lambda>(point, _).
     if m \<noteq> blinded_message_new (ds_amount d) (ki_keyset_id ks) point
     then Err (unblind_failed ''Prepared close outputs do not match secrets'')
     else check_close_outputs C ks rest)"

definition expected_close_secrets ::
  "crypto \<Rightarrow> codec \<Rightarrow> CommitmentOutputs \<Rightarrow> (CloseError, (DeterministicSecretWithBlinding \<times> bool) list) result" where
  "expected_close_secrets C J co =
     rbind (map_err (\<lambda>_. unblind_failed ''Invalid receiver close secrets'') (get_secrets_with_blinding C J (receiver_outputs co)))
       (\<lambda>rs.
     rbind (map_err (\<lambda>_. unblind_failed ''Invalid sender close secrets'') (get_secrets_with_blinding C J (sender_outputs co)))
       (\<lambda>ss. Ok (commitment_order rs ss)))"

definition complete_prepared_close ::
  "crypto \<Rightarrow> codec \<Rightarrow> close_codec \<Rightarrow> ('s, 'c) SpilmanHost \<Rightarrow> 's \<Rightarrow> string \<Rightarrow> PreparedClose \<Rightarrow> (CloseError, CompletedClose) run" where
  "complete_prepared_close C J D H s resp_text prep =
     run_bind (Some (rbind (map_err (\<lambda>_. unblind_failed ''Invalid close swap response'') (response_parse D resp_text)) (\<lambda>response.
                     rbind (map_err unblind_failed (parse_keyset_info_from_json J (pc_keyset_info_json prep))) (\<lambda>ks.
                     rbind (map_err unblind_failed (parse_keyset_info_from_json J (json_print J (pc_output_keyset_info prep)))) (\<lambda>out.
                     rbind (map_err unblind_failed (hex_decode J (pc_channel_secret prep))) (\<lambda>secret.
                     if length secret \<noteq> 32 then Err (unblind_failed ''Invalid channel secret length'')
                     else Ok (response, ks, out, secret))))))) (\<lambda>(response, ks, out, secret).
     run_bind (run_map_err unblind_failed (from_json_with_channel_secret J (pc_params_json prep) ks secret)) (\<lambda>p.
     run_bind (Some (rbind (map_err unblind_failed (values_parse D (json_print J (pc_secrets_with_blinding prep)))) (\<lambda>vs.
                     rbind (traverse (parse_secret_value C J) vs) (\<lambda>secrets.
                     if get_channel_id C p \<noteq> pc_channel_id prep \<or> mint p \<noteq> pc_mint_url prep \<or> unit p \<noteq> ki_unit out \<or>
                        pc_balance prep > capacity p
                     then Err (unblind_failed ''Prepared close binding mismatch'') else Ok secrets)))) (\<lambda>secrets.
     run_bind (run_map_err (\<lambda>_. unblind_failed ''Invalid close commitment'') (for_balance (pc_balance prep) p)) (\<lambda>commitment.
     run_bind (Some (rbind (expected_close_secrets C J commitment) (\<lambda>expected.
                     if expected \<noteq> secrets then Err (unblind_failed ''Prepared close secrets do not match commitment'')
                     else
                       rbind (map_err (\<lambda>_. unblind_failed ''Invalid prepared close request'')
                                (request_from_value D (pc_swap_request prep))) (\<lambda>request.
                       if (sr_rerandomized request \<noteq> (commitment_mode p = Rerandomized)) \<or>
                          length (sr_outputs request) \<noteq> length secrets
                       then Err (unblind_failed ''Prepared close output count mismatch'')
                       else check_close_outputs C out (zip (sr_outputs request) secrets))))) (\<lambda>_.
     run_bind (run_map_err (\<lambda>e. unblind_failed (bridge_error_display e))
                 (unblind_and_verify_stage1_swap_response C J response secrets p out (pc_balance prep))) (\<lambda>result.
     Some (rbind (traverse (sign_receiver_close_proof C J H s p) (ur_receiver_proofs result)) (\<lambda>signed_receiver.
           Ok \<lparr>cc_channel_id = pc_channel_id prep, cc_expiry_timestamp = close_expiry_timestamp J prep,
               cc_balance = pc_balance prep, cc_receiver_proofs_json = proofs_print J signed_receiver,
               cc_sender_proofs_json = proofs_print J (map pm_proof (ur_sender_proofs result)),
               cc_receiver_sum = ur_receiver_sum result, cc_sender_sum = ur_sender_sum result\<rparr>))))))))"

definition complete_prepared_close_restore_with_randomness ::
  "crypto \<Rightarrow> codec \<Rightarrow> close_codec \<Rightarrow> ('s, 'c) SpilmanHost \<Rightarrow> 's \<Rightarrow> string \<Rightarrow> PreparedClose \<Rightarrow> bytes option
   \<Rightarrow> (CloseError, CompletedClose option) run" where
  "complete_prepared_close_restore_with_randomness C J D H s resp_text prep randomness =
     run_bind (Some (rbind (map_err (\<lambda>_. unblind_failed ''Invalid close restore response'') (restore_parse D resp_text)) (\<lambda>response.
                     rbind (map_err (\<lambda>_. unblind_failed ''Invalid prepared close request'')
                              (request_from_value D (pc_swap_request prep))) (\<lambda>request.
                     rbind (map_err unblind_failed (swap_restore_request C request randomness)) (\<lambda>outputs.
                     if rr_outputs response = [] \<and> rr_signatures response = [] then Ok None
                     else rbind (map_err unblind_failed (match_restore_response response outputs ''close'')) (\<lambda>signatures.
                          Ok (Some signatures))))))) (\<lambda>found.
     case found of
       None \<Rightarrow> Some (Ok None)
     | Some signatures \<Rightarrow>
         run_bind (complete_prepared_close C J D H s
                     (response_print D \<lparr>sp_signatures = signatures, rerandomization_r = randomness\<rparr>) prep) (\<lambda>completed.
         Some (Ok (Some completed))))"

definition complete_prepared_close_restore ::
  "crypto \<Rightarrow> codec \<Rightarrow> close_codec \<Rightarrow> ('s, 'c) SpilmanHost \<Rightarrow> 's \<Rightarrow> string \<Rightarrow> PreparedClose
   \<Rightarrow> (CloseError, CompletedClose option) run" where
  "complete_prepared_close_restore C J D H s resp_text prep =
     complete_prepared_close_restore_with_randomness C J D H s resp_text prep None"

definition not_closing :: CloseError where
  "not_closing = ValidationFailed ''Not closing'' 400 None None"

definition mark_completed_close ::
  "('s, 'c) SpilmanHost \<Rightarrow> CompletedClose \<Rightarrow> 's \<Rightarrow> (CloseError, CloseSuccess) result \<times> 's" where
  "mark_completed_close H completed s =
     (case h_get_channel_state H s (cc_channel_id completed) of
        Err e \<Rightarrow> (Err (storage_failed e), s)
      | Ok st \<Rightarrow>
          if st \<noteq> Some Closing then (Err not_closing, s)
          else
            (case h_mark_channel_closed H (cc_channel_id completed) (cc_expiry_timestamp completed) (cc_balance completed)
                    (cc_receiver_proofs_json completed) (cc_sender_proofs_json completed) (cc_receiver_sum completed)
                    (cc_sender_sum completed) s of
               (Err e, s') \<Rightarrow> (Err (storage_failed e), s')
             | (Ok _, s') \<Rightarrow>
                 (Ok \<lparr>cs_channel_id = cc_channel_id completed, cs_total_value = cc_receiver_sum completed + cc_sender_sum completed,
                      cs_receiver_sum = cc_receiver_sum completed, cs_sender_sum = cc_sender_sum completed,
                      cs_sender_proofs = cc_sender_proofs_json completed, cs_already_closed = False\<rparr>, s')))"

text \<open>Sequencing of steps that change the state, may fail, and may not return.\<close>

type_synonym ('s, 'a) close_step = "((CloseError, 'a) result \<times> 's) option"

definition close_then :: "('s, 'a) close_step \<Rightarrow> ('a \<Rightarrow> 's \<Rightarrow> ('s, 'b) close_step) \<Rightarrow> ('s, 'b) close_step" where
  "close_then m k =
     (case m of None \<Rightarrow> None | Some (Err e, s) \<Rightarrow> Some (Err e, s) | Some (Ok x, s) \<Rightarrow> k x s)"

definition reading :: "(CloseError, 'a) run \<Rightarrow> 's \<Rightarrow> ('s, 'a) close_step" where
  "reading m s = map_option (\<lambda>r. (r, s)) m"

definition finalize_close ::
  "crypto \<Rightarrow> codec \<Rightarrow> close_codec \<Rightarrow> ('s, 'c) SpilmanHost \<Rightarrow> string \<Rightarrow> PreparedClose \<Rightarrow> 's \<Rightarrow> ('s, CloseSuccess) close_step" where
  "finalize_close C J D H resp_text prep s =
     close_then (reading (complete_prepared_close C J D H s resp_text prep) s) (\<lambda>completed s1.
     Some (mark_completed_close H completed s1))"

section \<open>Executing a close\<close>

fun close_retry_result ::
  "close_codec \<Rightarrow> ((PreparedClose, CloseError, MintRequestError) KeysetRetryError, (PreparedClose, string) KeysetRetrySuccess) result
   \<Rightarrow> MintRequestError option \<Rightarrow> (CloseError, (PreparedClose, string) KeysetRetrySuccess) result" where
  "close_retry_result D (Ok success) first = Ok success"
| "close_retry_result D (Err (RSelect e)) first = Err e"
| "close_retry_result D (Err (RPrepare e)) first = Err e"
| "close_retry_result D (Err (RRefresh e)) first = Err e"
| "close_retry_result D (Err (RCleanup e)) first = Err e"
| "close_retry_result D (Err (RSubmit attempt e retried)) first =
     Err (if \<not> retried
          then (if rejection e \<noteq> None then mint_rejected (parse_mint_error_value D e) else MintRequestFailed e None 502)
          else (if rejection e \<noteq> None
                then mint_rejected_after_retry (case first of None \<Rightarrow> JNull | Some f \<Rightarrow> parse_mint_error_value D f)
                       (parse_mint_error_value D e)
                else MintRequestFailed e first 502))"
| "close_retry_result D (Err (RetryKeysetUnchanged attempt e kid)) first = Err (mint_rejected (parse_mint_error_value D e))"

text \<open>The state of the retry: the host's, and what the closures share.  A preparation that does not return is the
  error \<open>None\<close> of the helper, which stops there.\<close>

record 's close_retry =
  rt_host :: 's
  rt_first_rejection :: "MintRequestError option"
  rt_mint_url :: "string option"

definition or_diverge :: "('e, 'a) run \<Rightarrow> ('e option, 'a) result" where
  "or_diverge m = (case m of None \<Rightarrow> Err None | Some r \<Rightarrow> map_err Some r)"

definition close_ops ::
  "crypto \<Rightarrow> codec \<Rightarrow> close_codec \<Rightarrow> ('s, 'c) SpilmanHost \<Rightarrow> channel_id \<Rightarrow> ClosingData
   \<Rightarrow> (string \<Rightarrow> string \<Rightarrow> 's \<Rightarrow> (MintRequestError, string) result \<times> 's) \<Rightarrow> (string \<Rightarrow> 's update)
   \<Rightarrow> ('s close_retry, SelectedOutputKeyset, PreparedClose, string, CloseError option, MintRequestError) retry_ops" where
  "close_ops C J D H c cd mint_swap refresh =
     \<lparr>r_select = (\<lambda>rt. (or_diverge (run_map_err from_preparation_error (select_close_output_keyset_for_channel J H (rt_host rt) c)), rt)),
      r_keyset = id,
      r_prepare = (\<lambda>selected rt. (or_diverge (run_map_err from_preparation_error
         (prepare_close_for_closing_channel_with_keyset C J D H (rt_host rt) c (cd_balance cd) (cd_signature cd) selected)), rt)),
      r_submit = (\<lambda>prep rt. case mint_swap (pc_mint_url prep) (json_print J (pc_swap_request prep)) (rt_host rt) of
         (r, s') \<Rightarrow> (r, rt\<lparr>rt_host := s'\<rparr>)),
      r_should_retry = should_retry_swap_error,
      r_refresh = (\<lambda>rt. (Ok (), case rt_mint_url rt of
         None \<Rightarrow> rt | Some url \<Rightarrow> rt\<lparr>rt_host := snd (refresh url (rt_host rt))\<rparr>)),
      r_cleanup = (\<lambda>attempt e rt. (Ok (), rt\<lparr>rt_first_rejection := Some e, rt_mint_url := Some (pc_mint_url attempt)\<rparr>))\<rparr>"

fun returned ::
  "(('a, 'p option, 'e) KeysetRetryError, 'b) result \<Rightarrow> (('a, 'p, 'e) KeysetRetryError, 'b) run" where
  "returned (Ok x) = Some (Ok x)"
| "returned (Err (RSelect p)) = map_option (Err \<circ> RSelect) p"
| "returned (Err (RPrepare p)) = map_option (Err \<circ> RPrepare) p"
| "returned (Err (RRefresh p)) = map_option (Err \<circ> RRefresh) p"
| "returned (Err (RCleanup p)) = map_option (Err \<circ> RCleanup) p"
| "returned (Err (RSubmit a e r)) = Some (Err (RSubmit a e r))"
| "returned (Err (RetryKeysetUnchanged a e k)) = Some (Err (RetryKeysetUnchanged a e k))"

definition ensure_close_keysets_cached ::
  "codec \<Rightarrow> ('s, 'c) SpilmanHost \<Rightarrow> (string \<Rightarrow> 's update) \<Rightarrow> channel_id \<Rightarrow> 's \<Rightarrow> ('s, unit) close_step" where
  "ensure_close_keysets_cached J H refresh c s =
     close_then (reading (run_map_err from_preparation_error (close_mint_unit_for_channel J H s c)) s) (\<lambda>(mint_url, _) s1.
     (case select_close_output_keyset_for_channel J H s1 c of
        None \<Rightarrow> None
      | Some (Ok _) \<Rightarrow> Some (Ok (), s1)
      | Some (Err _) \<Rightarrow>
          (case refresh mint_url s1 of
             (r, s2) \<Rightarrow> Some (map_err (\<lambda>e. storage_failed (''refresh keysets before close: '' @ e)) r, s2))))"

definition execute_close_for_closing_channel ::
  "crypto \<Rightarrow> codec \<Rightarrow> close_codec \<Rightarrow> ('s, 'c) SpilmanHost
   \<Rightarrow> (string \<Rightarrow> string \<Rightarrow> 's \<Rightarrow> (MintRequestError, string) result \<times> 's) \<Rightarrow> (string \<Rightarrow> 's update)
   \<Rightarrow> channel_id \<Rightarrow> 's \<Rightarrow> ('s, CloseSuccess) close_step" where
  "execute_close_for_closing_channel C J D H mint_swap refresh c s =
     close_then (reading (Some (rbind (map_err storage_failed (h_get_channel_state H s c)) (\<lambda>st.
                   if st \<noteq> Some Closing then Err not_closing
                   else ok_or (ValidationFailed ''Missing closing data'' 500 None None) (h_get_closing_data H s c)))) s) (\<lambda>cd s1.
     close_then (ensure_close_keysets_cached J H refresh c s1) (\<lambda>_ s2.
     (case with_active_keyset_retry (close_ops C J D H c cd mint_swap refresh)
             \<lparr>rt_host = s2, rt_first_rejection = None, rt_mint_url = None\<rparr> of
        (r, rt) \<Rightarrow>
          (case returned r of
             None \<Rightarrow> None
           | Some result \<Rightarrow>
               (case close_retry_result D result (rt_first_rejection rt) of
                  Err e \<Rightarrow> Some (Err e, rt_host rt)
                | Ok success \<Rightarrow> finalize_close C J D H (ok_value success) (ok_attempt success) (rt_host rt))))))"

definition record_cooperative_close_first_use_funding ::
  "crypto \<Rightarrow> codec \<Rightarrow> bridge_codec \<Rightarrow> ('s, 'c) SpilmanHost \<Rightarrow> string \<Rightarrow> 's \<Rightarrow> ('s, unit) close_step" where
  "record_cooperative_close_first_use_funding C J B H text s =
     (case payment_parse B text of
        Err e \<Rightarrow> Some (Err (from_preparation_error (cp_bad_request e)), s)
      | Ok p \<Rightarrow>
          if pm_channel_id p = [] \<or> pm_signature p = [] then Some (Ok (), s)
          else
            (case h_get_channel_state H s (pm_channel_id p) of
               Err e \<Rightarrow> Some (Err (storage_failed e), s)
             | Ok (Some _) \<Rightarrow> Some (Ok (), s)
             | Ok None \<Rightarrow>
                 (case (pm_params p, pm_funding_proofs p) of
                    (Some v, Some proofs) \<Rightarrow>
                      close_then (reading (run_map_err (\<lambda>e. from_preparation_error (cp_from_bridge_error e))
                                    (validate_new_channel_funding C J B H s (pm_channel_id p) v proofs (pm_balance p) (pm_signature p))) s)
                        (\<lambda>vn s1. Some (Ok (), record_validated_new_channel H vn s1))
                  | _ \<Rightarrow> Some (Ok (), s))))"

definition execute_cooperative_close ::
  "crypto \<Rightarrow> codec \<Rightarrow> bridge_codec \<Rightarrow> close_codec \<Rightarrow> ('s, 'c) SpilmanHost
   \<Rightarrow> (string \<Rightarrow> string \<Rightarrow> 's \<Rightarrow> (MintRequestError, string) result \<times> 's) \<Rightarrow> (string \<Rightarrow> 's update)
   \<Rightarrow> string \<Rightarrow> 's \<Rightarrow> ('s, CloseSuccess) close_step" where
  "execute_cooperative_close C J B D H mint_swap refresh text s =
     close_then (record_cooperative_close_first_use_funding C J B H text s) (\<lambda>_ s1.
     close_then (reading (run_map_err from_preparation_error (prepare_cooperative_close_transition C J B D H s1 text)) s1)
       (\<lambda>transition s2.
     close_then (Some (mark_prepared_close_closing H transition s2)) (\<lambda>_ s3.
     execute_close_for_closing_channel C J D H mint_swap refresh (pc_channel_id (pt_prepared_close transition)) s3)))"

definition execute_unilateral_close ::
  "crypto \<Rightarrow> codec \<Rightarrow> close_codec \<Rightarrow> ('s, 'c) SpilmanHost
   \<Rightarrow> (string \<Rightarrow> string \<Rightarrow> 's \<Rightarrow> (MintRequestError, string) result \<times> 's) \<Rightarrow> (string \<Rightarrow> 's update)
   \<Rightarrow> channel_id \<Rightarrow> 's \<Rightarrow> ('s, CloseSuccess) close_step" where
  "execute_unilateral_close C J D H mint_swap refresh c s =
     close_then (reading (run_map_err from_preparation_error (prepare_unilateral_close_transition C J D H s c)) s)
       (\<lambda>transition s1.
     close_then (Some (mark_prepared_close_closing H transition s1)) (\<lambda>_ s2.
     execute_close_for_closing_channel C J D H mint_swap refresh c s2))"

section \<open>What a completed close pays\<close>

lemma sum_list_word: "sum_list (map f xs) = (of_nat (sum_list (map (\<lambda>x. unat (f x)) xs)) :: u64)"
  by (induction xs) simp_all

lemma stage1_split_sums:
  assumes "stage1_split C J p xs acc = Ok r"
  shows "ur_receiver_sum r = ur_receiver_sum acc + sum_list (map (\<lambda>(pr, _). pr_amount pr) (filter (\<lambda>(_, _, rcv). rcv) xs))"
    "ur_sender_sum r = ur_sender_sum acc + sum_list (map (\<lambda>(pr, _). pr_amount pr) (filter (\<lambda>(_, _, rcv). \<not> rcv) xs))"
  using assms
proof (induction xs arbitrary: acc)
  case (Cons x xs)
  obtain pr d rcv where x: "x = (pr, d, rcv)" by (cases x)
  {
    case 1
    then show ?case using Cons.IH(1)
      by (cases rcv) (auto simp: x rbind_eq_Ok Let_def attach_stage2_p2pk_e_def add.assoc split: if_splits)
  next
    case 2
    then show ?case using Cons.IH(2)
      by (cases rcv) (auto simp: x rbind_eq_Ok Let_def attach_stage2_p2pk_e_def add.assoc split: if_splits)
  }
qed simp_all

lemma stage1_proofs_amounts:
  assumes "construct_faithful C" "tweak_faithful C" "stage1_proofs C J response secrets p ks = Ok proofs"
  shows "map pr_amount proofs = map (\<lambda>(d, _). ds_amount d) secrets"
proof -
  obtain expected request where e: "traverse (\<lambda>(d, _). stage1_output C ks d) secrets = Ok expected"
    and r: "sr_outputs request = map ps_blinded_message expected"
    and c: "complete_swap_response C J request expected response ks = Ok proofs"
    using assms(3)
    by (cases "commitment_mode p")
      (auto simp: stage1_proofs_def rbind_eq_Ok Let_def swap_request_new_def with_rerandomization_def split: if_splits
        intro!: that)
  have "list_all2 (\<lambda>x o'. (case x of (d, _) \<Rightarrow> stage1_output C ks d) = Ok o') secrets expected"
    using e by (simp add: traverse_eq_Ok)
  then have "map (bm_amount \<circ> ps_blinded_message) expected = map (\<lambda>(d, _). ds_amount d) secrets"
    by (induction rule: list_all2_induct) (auto simp: stage1_output_def rbind_eq_Ok blinded_message_new_def)
  then show ?thesis using complete_swap_response_facts [OF assms(1,2) c] r by simp
qed

lemma zip_filter_sum:
  assumes "map f xs = map (\<lambda>(d, _). g d) ys"
  shows "map (\<lambda>(x, _). f x) (filter (\<lambda>(_, _, b). P b) (zip xs ys)) = map (\<lambda>(d, _). g d) (filter (\<lambda>(_, b). P b) ys)"
proof -
  have "length xs = length ys" using arg_cong [OF assms, of length] by simp
  then show ?thesis using assms by (induction xs ys rule: list_induct2) (auto split: prod.splits)
qed

lemma unblinded_sums:
  assumes "construct_faithful C" "tweak_faithful C" "for_balance b p = Some (Ok co)"
    "get_secrets_with_blinding C J (receiver_outputs co) = Ok rs" "get_secrets_with_blinding C J (sender_outputs co) = Ok ss"
    "unblind_and_verify_stage1_swap_response C J response (commitment_order rs ss) p ks b' = Some (Ok r)"
  shows "ur_receiver_sum r = do_amount (receiver_outputs co)" "ur_sender_sum r = do_amount (sender_outputs co)"
proof -
  obtain proofs where pr: "stage1_proofs C J response (commitment_order rs ss) p ks = Ok proofs"
    and sp: "stage1_split C J p (zip proofs (commitment_order rs ss))
       \<lparr>ur_receiver_proofs = [], ur_sender_proofs = [], ur_receiver_sum = 0, ur_sender_sum = 0\<rparr> = Ok r"
    using assms(6) by (auto simp: unblind_and_verify_stage1_swap_response_def run_bind_eq_Ok rbind_eq_Ok split: if_splits)
  note am = zip_filter_sum [OF stage1_proofs_amounts [OF assms(1,2) pr]]
  have wf: "context_wf (receiver_outputs co)" "context_wf (sender_outputs co)"
    using assms(3) by (auto elim!: for_balance_OkE)
  note sums = secrets_sum [OF wf(1) assms(4)] secrets_sum [OF wf(2) assms(5)]
  have "ur_receiver_sum r = sum_list (map (\<lambda>(d, _). ds_amount d) (filter (\<lambda>(_, b). b) (commitment_order rs ss)))"
    using stage1_split_sums(1) [OF sp] am [of "\<lambda>b. b"] by simp
  then show "ur_receiver_sum r = do_amount (receiver_outputs co)"
    using commitment_order_sum(1) [of rs ss] sums(1) by (simp add: sum_list_word case_prod_beta' comp_def)
  have "ur_sender_sum r = sum_list (map (\<lambda>(d, _). ds_amount d) (filter (\<lambda>(_, b). \<not> b) (commitment_order rs ss)))"
    using stage1_split_sums(2) [OF sp] am [of Not] by simp
  then show "ur_sender_sum r = do_amount (sender_outputs co)"
    using commitment_order_sum(2) [of rs ss] sums(2) by (simp add: sum_list_word case_prod_beta' comp_def)
qed

lemma complete_prepared_close_OkD:
  assumes "construct_faithful C" "tweak_faithful C" "complete_prepared_close C J D H s text prep = Some (Ok cc)"
  shows "\<exists>p co. load_params J id id ''Invalid secret length'' (pc_channel_secret prep) (pc_keyset_info_json prep) (pc_params_json prep) = Some (Ok p) \<and>
    for_balance (pc_balance prep) p = Some (Ok co) \<and> cc_receiver_sum cc = do_amount (receiver_outputs co) \<and>
    cc_sender_sum cc = do_amount (sender_outputs co) \<and> cc_channel_id cc = pc_channel_id prep \<and> cc_balance cc = pc_balance prep"
proof -
  obtain response ks out secret p secrets co r where
    l: "parse_keyset_info_from_json J (pc_keyset_info_json prep) = Ok ks" "hex_decode J (pc_channel_secret prep) = Ok secret"
      "length secret = 32" "from_json_with_channel_secret J (pc_params_json prep) ks secret = Some (Ok p)"
    and co: "for_balance (pc_balance prep) p = Some (Ok co)" "expected_close_secrets C J co = Ok secrets"
    and r: "unblind_and_verify_stage1_swap_response C J response secrets p out (pc_balance prep) = Some (Ok r)"
    and cc: "cc_receiver_sum cc = ur_receiver_sum r" "cc_sender_sum cc = ur_sender_sum r"
      "cc_channel_id cc = pc_channel_id prep" "cc_balance cc = pc_balance prep"
    using assms(3)
    by (auto simp: complete_prepared_close_def run_bind_eq_Ok rbind_eq_Ok split: if_splits)
  obtain rs ss where s: "get_secrets_with_blinding C J (receiver_outputs co) = Ok rs"
    "get_secrets_with_blinding C J (sender_outputs co) = Ok ss" "secrets = commitment_order rs ss"
    using co(2) by (auto simp: expected_close_secrets_def rbind_eq_Ok)
  have "load_params J id id ''Invalid secret length'' (pc_channel_secret prep) (pc_keyset_info_json prep) (pc_params_json prep) = Some (Ok p)"
    using l by (simp add: load_params_def)
  then show ?thesis
    using unblinded_sums [OF assms(1,2) co(1) s(1,2) r [unfolded s(3)]] cc co(1) by auto
qed

section \<open>The lifecycle of a close\<close>

lemma close_then_Ok:
  "close_then m k = Some (Ok y, s') \<longleftrightarrow> (\<exists>x s. m = Some (Ok x, s) \<and> k x s = Some (Ok y, s'))"
  by (auto simp: close_then_def split: option.splits sum.splits)

lemma reading_Ok: "reading m s = Some (Ok x, s') \<longleftrightarrow> m = Some (Ok x) \<and> s' = s"
  by (auto simp: reading_def)

lemma prepare_impl_OkD:
  assumes "prepare_close_data_impl C J H s c b sig funding ks due = Some (Ok cd)"
  shows "\<exists>p. authorised C J funding c b sig p"
proof -
  obtain p proofs sg channel where
    "load_params J Internal Internal (Internal ''Invalid secret length'') (channel_secret_hex funding)
       (keyset_info_json funding) (params_json funding) = Some (Ok p)"
    "proofs_parse J (funding_proofs_json funding) = Ok proofs" "sig_parse J sig = Ok sg"
    "established_new J p proofs = Some (Ok channel)"
    "verify_sender_signature C J \<lparr>bu_channel_id = c, bu_amount = b, bu_signature = sg\<rparr> channel = Some (Ok ())"
    using assms by (auto simp: prepare_close_data_impl_def run_bind_eq_Ok rbind_eq_Ok split: if_splits)
  then show ?thesis
    using load_params_errors [of J Internal Internal _ _ _ _ p id id "''Invalid secret length''"]
    unfolding authorised_def by blast
qed

lemma wrap_fields:
  assumes "wrap_close_data C J D cd c b funding = Ok prep"
  shows "pc_channel_id prep = c" "pc_balance prep = b" "pc_params_json prep = params_json funding"
    "pc_keyset_info_json prep = keyset_info_json funding" "pc_channel_secret prep = channel_secret_hex funding"
  using assms by (auto simp: wrap_close_data_def rbind_eq_Ok)

lemma prepare_closing_OkD:
  assumes "prepare_close_for_closing_channel_with_keyset C J D H s c b sig selected = Some (Ok prep)"
  shows "\<exists>cd funding. h_get_funding H s c = Some funding \<and> wrap_close_data C J D cd c b funding = Ok prep"
  using assms by (auto simp: prepare_close_for_closing_channel_with_keyset_def run_bind_eq_Ok rbind_eq_Ok)

lemma prepare_close_data_OkD:
  assumes "prepare_close_data C J H s c b sig due = Some (Ok cd)"
  shows "\<exists>funding ks. h_get_funding H s c = Some funding \<and> prepare_close_data_impl C J H s c b sig funding ks due = Some (Ok cd)"
proof -
  obtain st where st: "h_get_channel_state H s c = Ok st"
    using assms by (auto simp: prepare_close_data_def run_bind_eq_Ok rbind_eq_Ok)
  show ?thesis
  proof (cases st)
    case (Some x)
    then show ?thesis using assms st by (cases x) (auto simp: prepare_close_data_def run_bind_eq_Ok)
  qed (use assms st in \<open>simp add: prepare_close_data_def\<close>)
qed

lemma unilateral_transition_OkD:
  assumes "prepare_unilateral_close_transition C J D H s c = Some (Ok transition)"
  shows "\<exists>payment funding p. h_get_balance_and_signature_for_unilateral_exit H s c = Some payment \<and>
    h_get_funding H s c = Some funding \<and> authorised C J funding c (pay_balance payment) (pay_signature payment) p \<and>
    pc_channel_id (pt_prepared_close transition) = c \<and> pt_payment transition = payment"
proof -
  obtain prep payment where prep: "prepare_unilateral_close_for_execution C J D H s c = Some (Ok prep)"
    and pay: "h_get_balance_and_signature_for_unilateral_exit H s c = Some payment"
    and t: "transition = \<lparr>pt_prepared_close = prep, pt_expiry_timestamp = close_expiry_timestamp J prep, pt_payment = payment\<rparr>"
    using assms by (auto simp: prepare_unilateral_close_transition_def run_bind_eq_Ok rbind_eq_Ok)
  obtain cd funding where cd: "create_unilateral_close_data C J H s c = Some (Ok cd)" "h_get_funding H s c = Some funding"
    "wrap_close_data C J D cd c (pay_balance payment) funding = Ok prep"
    using prep pay by (auto simp: prepare_unilateral_close_for_execution_def run_bind_eq_Ok rbind_eq_Ok)
  obtain ks where "prepare_close_data_impl C J H s c (pay_balance payment) (pay_signature payment) funding ks False = Some (Ok cd)"
    using cd(1,2) pay prepare_close_data_OkD [of C J H s c "pay_balance payment" "pay_signature payment" False cd]
    by (auto simp: create_unilateral_close_data_def run_bind_eq_Ok)
  from prepare_impl_OkD [OF this] show ?thesis using pay cd(2) wrap_fields(1) [OF cd(3)] t by auto
qed

text \<open>A mint and a refresh of the keyset cache do not touch the channels.\<close>

definition keeps_channels :: "('s \<Rightarrow> bool) \<Rightarrow> ('s \<Rightarrow> channel_id \<Rightarrow> channel_view) \<Rightarrow> ('s \<Rightarrow> 'a \<times> 's) \<Rightarrow> bool" where
  "keeps_channels ok V f \<longleftrightarrow> (\<forall>s. ok s \<longrightarrow> ok (snd (f s)) \<and> V (snd (f s)) = V s)"

lemma keeps_channelsD: "keeps_channels ok V f \<Longrightarrow> ok s \<Longrightarrow> f s = (r, s') \<Longrightarrow> ok s' \<and> V s' = V s"
  unfolding keeps_channels_def by (metis snd_conv)

text \<open>A claim on stored funding is settled: the sender authorised the balance, the channel is closed with it, each side
  receives its share of the commitment for that balance, the shares add up to the value of the
  funding after the fee, and no other channel is touched.\<close>

definition settles ::
  "crypto \<Rightarrow> codec \<Rightarrow> (channel_id \<Rightarrow> channel_view) \<Rightarrow> (channel_id \<Rightarrow> channel_view) \<Rightarrow> channel_id \<Rightarrow> ChannelFunding \<Rightarrow> PaymentProof
   \<Rightarrow> CloseSuccess \<Rightarrow> bool" where
  "settles C J before after c funding payment r \<longleftrightarrow>
     (\<exists>p co d. authorised C J funding c (pay_balance payment) (pay_signature payment) p \<and>
        for_balance (pay_balance payment) p = Some (Ok co) \<and>
        v_state (after c) = Some Closed \<and> v_closed (after c) = Some d \<and> closed_amount d = pay_balance payment \<and>
        receiver_sum d = do_amount (receiver_outputs co) \<and> sender_sum d = do_amount (sender_outputs co) \<and>
        get_value_after_stage1 p = Some (Ok (cs_total_value r)) \<and> (\<forall>c'. c' \<noteq> c \<longrightarrow> after c' = before c'))"

text \<open>The derived decoder of a payment reads the members of an object that carry the names of its fields.\<close>

definition payment_text_faithful :: "codec \<Rightarrow> bridge_codec \<Rightarrow> bool" where
  "payment_text_faithful J B \<longleftrightarrow>
     (\<forall>text q kvs. payment_parse B text = Ok q \<longrightarrow> json_parse J text = Ok (JObj kvs) \<longrightarrow>
        map_of kvs ''channel_id'' = Some (JStr (pm_channel_id q)) \<and> map_of kvs ''balance'' = Some (JU64 (pm_balance q)) \<and>
        map_of kvs ''signature'' = Some (JStr (pm_signature q)))"

lemma cooperative_transition_OkD:
  assumes "payment_text_faithful J B" "prepare_cooperative_close_transition C J B D H s text = Some (Ok t)"
  shows "\<exists>q funding p. payment_parse B text = Ok q \<and> h_get_funding H s (pm_channel_id q) = Some funding \<and>
    authorised C J funding (pm_channel_id q) (pm_balance q) (pm_signature q) p \<and>
    pm_balance q = h_get_amount_due H s (pm_channel_id q) None \<and> pm_signature q \<noteq> [] \<and>
    pc_channel_id (pt_prepared_close t) = pm_channel_id q \<and>
    pt_payment t = \<lparr>pay_balance = pm_balance q, pay_signature = pm_signature q\<rparr>"
proof -
  obtain prep where prep: "prepare_cooperative_close_for_execution C J B D H s text = Some (Ok prep)"
    and t: "pt_prepared_close t = prep" "pt_payment t = \<lparr>pay_balance = pc_balance prep, pay_signature =
        (case as_str (json_index (case json_parse J text of Ok v \<Rightarrow> v | Err _ \<Rightarrow> JNull) ''signature'') of None \<Rightarrow> [] | Some x \<Rightarrow> x)\<rparr>"
    using assms(2) by (auto simp: prepare_cooperative_close_transition_def run_bind_eq_Ok Let_def)
  obtain v c cd funding where v: "json_parse J text = Ok v" "as_str (json_index v ''channel_id'') = Some c"
    and cd: "validate_and_prepare_cooperative_close C J B H s text = Some (Ok cd)" "h_get_funding H s c = Some funding"
      "wrap_close_data C J D cd c (case as_u64 (json_index v ''balance'') of None \<Rightarrow> 0 | Some n \<Rightarrow> n) funding = Ok prep"
    using prep by (auto simp: prepare_cooperative_close_for_execution_def run_bind_eq_Ok rbind_eq_Ok Let_def)
  obtain q where q: "payment_parse B text = Ok q" "pm_signature q \<noteq> []"
    "prepare_close_data C J H s (pm_channel_id q) (pm_balance q) (pm_signature q) True = Some (Ok cd)"
    using cd(1) by (auto simp: validate_and_prepare_cooperative_close_def run_bind_eq_Ok rbind_eq_Ok split: if_splits)
  obtain kvs where kvs: "v = JObj kvs" using v(2) by (cases v) (auto simp: json_index_def)
  have f: "map_of kvs ''channel_id'' = Some (JStr (pm_channel_id q))" "map_of kvs ''balance'' = Some (JU64 (pm_balance q))"
    "map_of kvs ''signature'' = Some (JStr (pm_signature q))"
    using assms(1) q(1) v(1) kvs unfolding payment_text_faithful_def by blast+
  have c: "c = pm_channel_id q" using v(2) f(1) by (simp add: kvs json_index_def)
  obtain ks where i: "prepare_close_data_impl C J H s c (pm_balance q) (pm_signature q) funding ks True = Some (Ok cd)"
    using prepare_close_data_OkD [OF q(3)] cd(2) c by auto
  then have "pm_balance q = h_get_amount_due H s c None"
    by (auto simp: prepare_close_data_impl_def run_bind_eq_Ok rbind_eq_Ok split: if_splits)
  then show ?thesis
    using prepare_impl_OkD [OF i] q cd(2) t wrap_fields(1,2) [OF cd(3)] f v(1) kvs c by (auto simp: json_index_def)
qed

context spilman_host
begin

lemma ensure_keeps:
  assumes "ok s" "\<And>u. keeps_channels ok V (refresh u)" "ensure_close_keysets_cached J H refresh c s = Some (r, s')"
  shows "ok s' \<and> V s' = V s"
proof -
  have refr: "ok s2 \<and> V s2 = V s" if "refresh u s = (x, s2)" for u x s2
    using keeps_channelsD [OF assms(2,1) that] .
  show ?thesis
    using assms(3,1)
    by (auto simp: ensure_close_keysets_cached_def close_then_def reading_def dest!: refr
        split: option.splits sum.splits prod.splits)
qed

lemma retry_prepared:
  assumes "ok s" "\<And>u t. keeps_channels ok V (mint_swap u t)" "\<And>u. keeps_channels ok V (refresh u)"
    "with_active_keyset_retry (close_ops C J D H c cd mint_swap refresh) \<lparr>rt_host = s, rt_first_rejection = None, rt_mint_url = None\<rparr>
       = (r, rt)"
  shows "ok (rt_host rt) \<and> V (rt_host rt) = V s \<and>
    (\<forall>x. r = Ok x \<longrightarrow> (\<exists>selected s1. V s1 = V s \<and>
       prepare_close_for_closing_channel_with_keyset C J D H s1 c (cd_balance cd) (cd_signature cd) selected = Some (Ok (ok_attempt x))))"
proof -
  let ?ops = "close_ops C J D H c cd mint_swap refresh"
  let ?P = "\<lambda>rt. ok (rt_host rt) \<and> V (rt_host rt) = V s"
  have sub: "?P (snd (r_submit ?ops a rt))" if "?P rt" for a rt
    using keeps_channelsD [OF assms(2), of "rt_host rt"] that by (auto simp: close_ops_def split: prod.splits)
  have refr: "?P (snd (r_refresh ?ops rt))" if "?P rt" for rt
  proof (cases "rt_mint_url rt")
    case (Some u)
    then show ?thesis using keeps_channelsD [OF assms(3), of "rt_host rt" u] that by (cases "refresh u (rt_host rt)") (simp add: close_ops_def)
  qed (use that in \<open>simp add: close_ops_def\<close>)
  have p: "m = Some (Ok x)" if "or_diverge m = Ok x" for m :: "(CloseError, PreparedClose) run" and x
    using that by (auto simp: or_diverge_def split: option.splits)
  have run: "?P (snd (r, rt)) \<and> (\<forall>x. fst (r, rt) = Ok x \<longrightarrow> (\<exists>k s1 s2. ?P s1 \<and> r_prepare ?ops k s1 = (Ok (ok_attempt x), s2)))"
    unfolding assms(4) [symmetric]
    by (rule retry_keeps [where P = ?P]) (use sub refr assms(1) in \<open>auto simp: close_ops_def\<close>)
  have "\<exists>selected s1. V s1 = V s \<and>
      prepare_close_for_closing_channel_with_keyset C J D H s1 c (cd_balance cd) (cd_signature cd) selected = Some (Ok (ok_attempt x))"
    if x: "r = Ok x" for x
  proof -
    obtain k s1 s2 where a: "?P s1" "r_prepare ?ops k s1 = (Ok (ok_attempt x), s2)" using run x by auto
    then have "prepare_close_for_closing_channel_with_keyset C J D H (rt_host s1) c (cd_balance cd) (cd_signature cd) k =
        Some (Ok (ok_attempt x))"
      by (auto simp: close_ops_def dest!: p)
    then show ?thesis using a(1) by (intro exI [of _ k] exI [of _ "rt_host s1"]) simp
  qed
  then show ?thesis using run by simp
qed

text \<open>Executing the close of a channel marked as closing settles the recorded claim.\<close>

lemma executed_close:
  assumes "construct_faithful C" "tweak_faithful C" "ok s"
    "\<And>u t. keeps_channels ok V (mint_swap u t)" "\<And>u. keeps_channels ok V (refresh u)"
    "v_funding (V s c) = Some funding"
    "execute_close_for_closing_channel C J D H mint_swap refresh c s = Some (Ok r, s')"
  shows "\<exists>cd p co d. v_state (V s c) = Some Closing \<and> v_closing (V s c) = Some cd \<and>
    load_params J id id ''Invalid secret length'' (channel_secret_hex funding) (keyset_info_json funding) (params_json funding) = Some (Ok p) \<and>
    for_balance (cd_balance cd) p = Some (Ok co) \<and> V s' c = (V s c)\<lparr>v_state := Some Closed, v_closing := None, v_closed := Some d\<rparr> \<and>
    closed_amount d = cd_balance cd \<and> receiver_sum d = do_amount (receiver_outputs co) \<and> sender_sum d = do_amount (sender_outputs co) \<and>
    cs_total_value r = receiver_sum d + sender_sum d \<and> ok s' \<and> (\<forall>c'. c' \<noteq> c \<longrightarrow> V s' c' = V s c')"
proof -
  let ?run = "\<lambda>cd s2. with_active_keyset_retry (close_ops C J D H c cd mint_swap refresh)
       \<lparr>rt_host = s2, rt_first_rejection = None, rt_mint_url = None\<rparr>"
  let ?rest = "\<lambda>res rt. case returned res of None \<Rightarrow> None | Some result \<Rightarrow>
      (case close_retry_result D result (rt_first_rejection rt) of Err e \<Rightarrow> Some (Err e, rt_host rt)
       | Ok success \<Rightarrow> finalize_close C J D H (ok_value success) (ok_attempt success) (rt_host rt))"
  obtain cd s2 where st: "v_state (V s c) = Some Closing" "v_closing (V s c) = Some cd"
    and en: "ensure_close_keysets_cached J H refresh c s = Some (Ok (), s2)"
    and body: "(case ?run cd s2 of (res, rt) \<Rightarrow> ?rest res rt) = Some (Ok r, s')"
    using assms(3,7)
    by (auto simp: execute_close_for_closing_channel_def close_then_Ok reading_Ok rbind_eq_Ok host_state host_closing split: if_splits)
  obtain res rt where re: "?run cd s2 = (res, rt)" by (cases "?run cd s2")
  obtain result success where rs: "returned res = Some result" "close_retry_result D result (rt_first_rejection rt) = Ok success"
    and fin: "finalize_close C J D H (ok_value success) (ok_attempt success) (rt_host rt) = Some (Ok r, s')"
    using body by (auto simp: re split: option.splits sum.splits)
  obtain completed where co: "complete_prepared_close C J D H (rt_host rt) (ok_value success) (ok_attempt success) = Some (Ok completed)"
    and mk: "mark_completed_close H completed (rt_host rt) = (Ok r, s')"
    using fin by (auto simp: finalize_close_def close_then_Ok reading_Ok)
  note e = ensure_keeps [OF assms(3,5) en]
  have k: "ok s2" "V s2 = V s" using e by blast+
  note rp = retry_prepared [OF k(1) assms(4,5) re]
  have "res = Ok success"
    using rs by (cases res rule: returned.cases) (auto split: if_splits)
  then obtain selected s1 where s1: "V s1 = V s"
    "prepare_close_for_closing_channel_with_keyset C J D H s1 c (cd_balance cd) (cd_signature cd) selected = Some (Ok (ok_attempt success))"
    using rp k(2) by auto
  obtain cdata where w: "wrap_close_data C J D cdata c (cd_balance cd) funding = Ok (ok_attempt success)"
    using prepare_closing_OkD [OF s1(2)] assms(6) s1(1) by (auto simp: host_funding)
  note wf = wrap_fields [OF w]
  obtain p o' where p: "load_params J id id ''Invalid secret length'' (channel_secret_hex funding) (keyset_info_json funding) (params_json funding) = Some (Ok p)"
    "for_balance (cd_balance cd) p = Some (Ok o')" "cc_receiver_sum completed = do_amount (receiver_outputs o')"
    "cc_sender_sum completed = do_amount (sender_outputs o')" "cc_channel_id completed = c" "cc_balance completed = cd_balance cd"
    using complete_prepared_close_OkD [OF assms(1,2) co] unfolding wf by blast
  have ok: "ok (rt_host rt)" "V (rt_host rt) = V s" using rp k(2) by auto
  obtain s3 where m: "h_mark_channel_closed H c (cc_expiry_timestamp completed) (cd_balance cd) (cc_receiver_proofs_json completed)
      (cc_sender_proofs_json completed) (cc_receiver_sum completed) (cc_sender_sum completed) (rt_host rt) = (Ok (), s3)"
    and r: "s' = s3" "cs_total_value r = cc_receiver_sum completed + cc_sender_sum completed"
    using mk p(5,6) by (auto simp: mark_completed_close_def split: sum.splits if_splits prod.splits)
  let ?d = "\<lparr>cv_expiry_timestamp = cc_expiry_timestamp completed, closed_amount = cd_balance cd,
      value_after_stage1 = cc_receiver_sum completed + cc_sender_sum completed, receiver_sum = cc_receiver_sum completed,
      sender_sum = cc_sender_sum completed, receiver_proofs_json = cc_receiver_proofs_json completed,
      sender_proofs_json = cc_sender_proofs_json completed\<rparr>"
  have mv: "ok s' \<and> moves (MarkClosed c ?d) c' (V s c') (V s' c')" for c'
    using host_marks_closed [OF ok(1) m, of c'] ok(2) r(1) by simp
  have "V s' c = (V s c)\<lparr>v_state := Some Closed, v_closing := None, v_closed := Some ?d\<rparr>"
    using mv [of c] st by (auto simp: moves_def split: if_splits)
  moreover have "V s' c' = V s c'" if "c' \<noteq> c" for c'
    using mv [of c'] that by (simp add: moves_def)
  ultimately show ?thesis
    using st p r mv by (intro exI [of _ cd] exI [of _ p] exI [of _ o'] exI [of _ ?d]) simp
qed

lemma closing_settles:
  assumes "construct_faithful C" "tweak_faithful C" "ok s"
    "\<And>u t. keeps_channels ok V (mint_swap u t)" "\<And>u. keeps_channels ok V (refresh u)"
    "authorised C J funding c (pay_balance (pt_payment t)) (pay_signature (pt_payment t)) p" "v_funding (V s c) = Some funding"
    "pc_channel_id (pt_prepared_close t) = c" "mark_prepared_close_closing H t s = (Ok (), s2)"
    "execute_close_for_closing_channel C J D H mint_swap refresh c s2 = Some (Ok r, s')"
  shows "settles C J (V s) (V s') c funding (pt_payment t) r \<and> ok s'"
proof -
  let ?cd = "\<lparr>cd_expiry_timestamp = pt_expiry_timestamp t, cd_balance = pay_balance (pt_payment t),
      cd_signature = pay_signature (pt_payment t)\<rparr>"
  have "h_mark_channel_closing H c (pt_expiry_timestamp t) (pt_payment t) s = (Ok (), s2)"
    using assms(8,9) by (cases "h_mark_channel_closing H c (pt_expiry_timestamp t) (pt_payment t) s") (auto simp: mark_prepared_close_closing_def)
  note mv = host_marks_closing [OF assms(3) this]
  have ok: "ok s2" using mv by blast
  have s2: "V s2 c = (V s c)\<lparr>v_state := Some Closing, v_closing := Some ?cd\<rparr>" "\<And>c'. c' \<noteq> c \<Longrightarrow> V s2 c' = V s c'"
    using mv [of c] mv by (auto simp: moves_def split: if_splits)
  have f: "v_funding (V s2 c) = Some funding" using assms(7) by (simp add: s2)
  obtain p' co d where x: "load_params J id id ''Invalid secret length'' (channel_secret_hex funding) (keyset_info_json funding) (params_json funding) = Some (Ok p')"
    "for_balance (pay_balance (pt_payment t)) p' = Some (Ok co)"
    "V s' c = (V s2 c)\<lparr>v_state := Some Closed, v_closing := None, v_closed := Some d\<rparr>"
    "closed_amount d = pay_balance (pt_payment t)" "receiver_sum d = do_amount (receiver_outputs co)" "sender_sum d = do_amount (sender_outputs co)"
    "cs_total_value r = receiver_sum d + sender_sum d" "ok s'" "\<And>c'. c' \<noteq> c \<Longrightarrow> V s' c' = V s2 c'"
    using executed_close [OF assms(1,2) ok assms(4,5) f assms(10)] by (auto simp: s2)
  have "p' = p" using x(1) assms(6) by (simp add: authorised_def)
  moreover have "get_value_after_stage1 p' = Some (Ok (cs_total_value r))"
    using x(2,5-7) by (auto elim!: for_balance_OkE)
  ultimately show ?thesis
    unfolding settles_def using assms(6) x s2(2)
    by (intro conjI exI [of _ p] exI [of _ co] exI [of _ d]) simp_all
qed

lemma unilateral_settles:
  assumes "construct_faithful C" "tweak_faithful C" "ok s"
    "\<And>u t. keeps_channels ok V (mint_swap u t)" "\<And>u. keeps_channels ok V (refresh u)"
    "execute_unilateral_close C J D H mint_swap refresh c s = Some (Ok r, s')"
  shows "\<exists>payment funding. v_balance (V s c) = Some payment \<and> v_funding (V s c) = Some funding \<and>
    settles C J (V s) (V s') c funding payment r \<and> ok s'"
proof -
  obtain t s2 where t: "prepare_unilateral_close_transition C J D H s c = Some (Ok t)"
    "mark_prepared_close_closing H t s = (Ok (), s2)"
    "execute_close_for_closing_channel C J D H mint_swap refresh c s2 = Some (Ok r, s')"
    using assms(6) by (auto simp: execute_unilateral_close_def close_then_Ok reading_Ok)
  obtain funding p where u: "v_balance (V s c) = Some (pt_payment t)" "v_funding (V s c) = Some funding"
    "authorised C J funding c (pay_balance (pt_payment t)) (pay_signature (pt_payment t)) p" "pc_channel_id (pt_prepared_close t) = c"
    using unilateral_transition_OkD [OF t(1)] by (auto simp: host_funding host_balance)
  show ?thesis using closing_settles [OF assms(1-5) u(3,2,4) t(2,3)] u(1,2) by blast
qed

lemma first_use_funding:
  assumes "ok s" "record_cooperative_close_first_use_funding C J B H text s = Some (Ok (), s1)" "payment_parse B text = Ok q"
  shows "ok s1 \<and> (v_state (V s (pm_channel_id q)) \<noteq> None \<longrightarrow> s1 = s) \<and> (\<forall>c'. c' \<noteq> pm_channel_id q \<longrightarrow> V s1 c' = V s c')"
proof (cases "pm_channel_id q = [] \<or> pm_signature q = [] \<or> v_state (V s (pm_channel_id q)) \<noteq> None \<or> \<not> has_funding q")
  case True
  then show ?thesis
    using assms
    by (auto simp: record_cooperative_close_first_use_funding_def host_state has_funding_def split: if_splits option.splits)
next
  case False
  then obtain v proofs vn where
    vn: "validate_new_channel_funding C J B H s (pm_channel_id q) v proofs (pm_balance q) (pm_signature q) = Some (Ok vn)"
    and s1: "s1 = record_validated_new_channel H vn s"
    using assms
    by (auto simp: record_cooperative_close_first_use_funding_def host_state has_funding_def close_then_Ok reading_Ok)
  have "vn_channel_id vn = pm_channel_id q" "vn_sender_signature vn = pm_signature q"
    using vn by (auto elim!: validate_new_OkD)
  then show ?thesis
    using host_saves [OF assms(1), of "pm_channel_id q" "\<lparr>pay_balance = vn_balance vn, pay_signature = pm_signature q\<rparr>" "vn_funding vn"] False
    by (simp add: s1 record_validated_new_channel_def)
qed

lemma cooperative_settles:
  assumes "payment_text_faithful J B" "construct_faithful C" "tweak_faithful C" "ok s"
    "\<And>u t. keeps_channels ok V (mint_swap u t)" "\<And>u. keeps_channels ok V (refresh u)"
    "execute_cooperative_close C J B D H mint_swap refresh text s = Some (Ok r, s')"
  shows "\<exists>q funding. payment_parse B text = Ok q \<and>
    settles C J (V s) (V s') (pm_channel_id q) funding \<lparr>pay_balance = pm_balance q, pay_signature = pm_signature q\<rparr> r \<and> ok s' \<and>
    (v_state (V s (pm_channel_id q)) \<noteq> None \<longrightarrow> v_funding (V s (pm_channel_id q)) = Some funding \<and>
       pm_balance q = h_get_amount_due H s (pm_channel_id q) None)"
proof -
  obtain s1 t s2 where x: "record_cooperative_close_first_use_funding C J B H text s = Some (Ok (), s1)"
    "prepare_cooperative_close_transition C J B D H s1 text = Some (Ok t)"
    "mark_prepared_close_closing H t s1 = (Ok (), s2)"
    "execute_close_for_closing_channel C J D H mint_swap refresh (pc_channel_id (pt_prepared_close t)) s2 = Some (Ok r, s')"
    using assms(7) by (auto simp: execute_cooperative_close_def close_then_Ok reading_Ok)
  obtain q funding p where q: "payment_parse B text = Ok q" "h_get_funding H s1 (pm_channel_id q) = Some funding"
    "authorised C J funding (pm_channel_id q) (pm_balance q) (pm_signature q) p"
    "pm_balance q = h_get_amount_due H s1 (pm_channel_id q) None" "pc_channel_id (pt_prepared_close t) = pm_channel_id q"
    "pt_payment t = \<lparr>pay_balance = pm_balance q, pay_signature = pm_signature q\<rparr>"
    using cooperative_transition_OkD [OF assms(1) x(2)] by blast
  note fu = first_use_funding [OF assms(4) x(1) q(1)]
  have "settles C J (V s1) (V s') (pm_channel_id q) funding (pt_payment t) r \<and> ok s'"
    by (rule closing_settles [OF assms(2,3) _ assms(5,6), where p = p])
      (use fu q x(3,4) in \<open>simp_all add: host_funding\<close>)
  then have "settles C J (V s) (V s') (pm_channel_id q) funding \<lparr>pay_balance = pm_balance q, pay_signature = pm_signature q\<rparr> r \<and> ok s'"
    using fu q(6) by (auto simp: settles_def)
  then show ?thesis using q(1,2,4) fu by (intro exI [of _ q] exI [of _ funding]) (auto simp: host_funding)
qed

end

text \<open>C1: a cooperative close pays the amount due.  When it succeeds over the SQLite storage the sender's request is
  authorised on the stored funding, its balance is exactly the amount due of a known channel, the
  channel is closed with that balance, receiver and sender obtain their shares of the commitment for
  it, which add up to the funding after fees, and no other channel changes.  The mint and the keyset
  refresh are any functions that leave the channels alone.\<close>

theorem cooperative_close_settles:
  assumes "payment_text_faithful J B" "construct_faithful C" "tweak_faithful C" "host_storage host = sqlite_storage J K" "sqlite_ok K s"
    "\<And>u t. keeps_channels (sqlite_ok K) (view (sqlite_storage J K)) (mint_swap u t)"
    "\<And>u. keeps_channels (sqlite_ok K) (view (sqlite_storage J K)) (refresh u)"
    "execute_cooperative_close C J B D (configurable_host C J now host) mint_swap refresh text s = Some (Ok r, s')"
  shows "\<exists>q funding. payment_parse B text = Ok q \<and>
    settles C J (view (sqlite_storage J K) s) (view (sqlite_storage J K) s') (pm_channel_id q) funding
      \<lparr>pay_balance = pm_balance q, pay_signature = pm_signature q\<rparr> r \<and> sqlite_ok K s' \<and>
    (v_state (view (sqlite_storage J K) s (pm_channel_id q)) \<noteq> None \<longrightarrow>
       v_funding (view (sqlite_storage J K) s (pm_channel_id q)) = Some funding \<and>
       pm_balance q = compute_amount_due J host s (pm_channel_id q) None)"
  using spilman_host.cooperative_settles [OF sql_spilman_host [OF assms(4), of C now] assms(1,2,3,5,6,7,8)]
  by (simp add: configurable_host_def)

text \<open>C4: a unilateral close settles the last recorded payment.  When it succeeds over the SQLite storage the
  channel is closed with the balance of the payment stored for it, whose signature authorises it on
  the stored funding; the shares and the other channels are as for a cooperative close.\<close>

theorem unilateral_close_settles:
  assumes "construct_faithful C" "tweak_faithful C" "host_storage host = sqlite_storage J K" "sqlite_ok K s"
    "\<And>u t. keeps_channels (sqlite_ok K) (view (sqlite_storage J K)) (mint_swap u t)"
    "\<And>u. keeps_channels (sqlite_ok K) (view (sqlite_storage J K)) (refresh u)"
    "execute_unilateral_close C J D (configurable_host C J now host) mint_swap refresh c s = Some (Ok r, s')"
  shows "\<exists>payment funding. v_balance (view (sqlite_storage J K) s c) = Some payment \<and>
    v_funding (view (sqlite_storage J K) s c) = Some funding \<and>
    settles C J (view (sqlite_storage J K) s) (view (sqlite_storage J K) s') c funding payment r \<and> sqlite_ok K s'"
  by (rule spilman_host.unilateral_settles [OF sql_spilman_host [OF assms(3), of C now] assms(1,2,4-7)])

text \<open>A cooperative close that agrees with the stored payment of a known channel is a unilateral one.\<close>

lemma due_validated:
  assumes "b = h_get_amount_due H s c None"
  shows "prepare_close_data C J H s c b sig True = prepare_close_data C J H s c b sig False"
proof -
  have "(True \<and> b \<noteq> h_get_amount_due H s c None) = (False \<and> b \<noteq> h_get_amount_due H s c None)" using assms by simp
  then show ?thesis unfolding prepare_close_data_def prepare_close_data_impl_def by presburger
qed

lemma cooperative_as_unilateral:
  assumes "payment_parse B text = Ok q" "json_parse J text = Ok (JObj kvs)"
    "map_of kvs ''channel_id'' = Some (JStr (pm_channel_id q))" "map_of kvs ''balance'' = Some (JU64 (pm_balance q))"
    "map_of kvs ''signature'' = Some (JStr (pm_signature q))" "pm_channel_id q \<noteq> []" "pm_signature q \<noteq> []"
    "h_get_channel_state H s (pm_channel_id q) = Ok (Some st)" "h_get_funding H s (pm_channel_id q) = Some f"
    "h_get_balance_and_signature_for_unilateral_exit H s (pm_channel_id q) =
       Some \<lparr>pay_balance = pm_balance q, pay_signature = pm_signature q\<rparr>"
    "pm_balance q = h_get_amount_due H s (pm_channel_id q) None"
  shows "execute_cooperative_close C J B D H mint_swap refresh text s =
    execute_unilateral_close C J D H mint_swap refresh (pm_channel_id q) s"
proof -
  let ?c = "pm_channel_id q"
  have first: "record_cooperative_close_first_use_funding C J B H text s = Some (Ok (), s)"
    using assms by (simp add: record_cooperative_close_first_use_funding_def)
  have "validate_and_prepare_cooperative_close C J B H s text = create_unilateral_close_data C J H s ?c"
    using assms due_validated [OF assms(11), of C J "pm_signature q"]
    by (simp add: validate_and_prepare_cooperative_close_def create_unilateral_close_data_def run_bind_def)
  then have "prepare_cooperative_close_for_execution C J B D H s text = prepare_unilateral_close_for_execution C J D H s ?c"
    using assms
    by (simp add: prepare_cooperative_close_for_execution_def prepare_unilateral_close_for_execution_def json_index_def Let_def)
  then have t: "prepare_cooperative_close_transition C J B D H s text = prepare_unilateral_close_transition C J D H s ?c"
    using assms wrap_fields(2)
    by (auto simp: prepare_cooperative_close_transition_def prepare_unilateral_close_transition_def
        prepare_unilateral_close_for_execution_def run_bind_def rbind_def json_index_def split: option.splits sum.splits)
  have c: "pc_channel_id (pt_prepared_close tr) = ?c"
    if "run_map_err from_preparation_error (prepare_unilateral_close_transition C J D H s ?c) = Some (Ok tr)" for tr
    using unilateral_transition_OkD [of C J D H s ?c tr] that by auto
  show ?thesis
  proof (cases "run_map_err from_preparation_error (prepare_unilateral_close_transition C J D H s ?c)")
    case (Some r)
    then show ?thesis
      using c
      by (cases r) (auto simp: execute_cooperative_close_def execute_unilateral_close_def first t close_then_def reading_def
          split: prod.splits sum.splits)
  qed (simp add: execute_cooperative_close_def execute_unilateral_close_def first t close_then_def reading_def)
qed

section \<open>An example run\<close>

text \<open>The channel of the bridge's example, funded and paid, closed at a mint that signs its one output.\<close>

definition shut_crypto :: crypto where
  "shut_crypto = open_crypto\<lparr>schnorr_sign := (\<lambda>_ _. [7]), sk_from_slice := (\<lambda>_. Ok [1])\<rparr>"

definition shut_payment :: PaymentProof where
  "shut_payment = \<lparr>pay_balance = 1, pay_signature = [CHR 0x02, CHR 0x01, CHR 0x01, CHR 0x02]\<rparr>"

definition shut_channel_id :: string where
  "shut_channel_id = [CHR 0x01]"

definition shut_json_parse :: "string \<Rightarrow> (string, json) result" where
  "shut_json_parse t =
     (if t = ''k'' \<or> t = ''p'' then open_json_parse t
      else if t = ''q'' then Ok (JObj [(''channel_id'', JStr shut_channel_id), (''balance'', JU64 1), (''signature'', JStr (pay_signature shut_payment))])
      else Ok (JArr [JStr ''P2PK'', JObj [(''data'', JStr [CHR 0x03, CHR 0x01, CHR 0x01])]]))"

definition shut_hex_decode :: "string \<Rightarrow> (string, bytes) result" where
  "shut_hex_decode _ = Ok (replicate 32 1)"

definition shut_json_print :: "json \<Rightarrow> string" where
  "shut_json_print v = (if v = JNull then ''k'' else ''p'')"

definition shut_codec :: codec where
  "shut_codec = open_text\<lparr>json_parse := shut_json_parse, json_print := shut_json_print, hex_decode := shut_hex_decode, keyset_print := (\<lambda>_. ''k''),
     proofs_parse := (\<lambda>_. Ok [example_funding_proof\<lparr>pr_amount := 1\<rparr>])\<rparr>"

definition shut_output :: BlindedMessage where
  "shut_output = blinded_message_new 1 [0] [1]"

definition shut_secrets :: "json list" where
  "shut_secrets =
     (case run_bind (load_params shut_codec id id [] ''s'' ''k'' ''p'') (\<lambda>p.
           run_bind (for_balance 1 p) (\<lambda>co. Some (get_secrets_with_blinding shut_crypto shut_codec (receiver_outputs co)))) of
        Some (Ok ds) \<Rightarrow> map (\<lambda>d. secret_value shut_crypto (d, True)) ds
      | _ \<Rightarrow> [])"

definition shut_values :: "string \<Rightarrow> (string, json list) result" where
  "shut_values _ = Ok shut_secrets"

definition shut_request :: "json \<Rightarrow> (string, SwapRequest) result" where
  "shut_request _ = Ok \<lparr>sr_inputs = [], sr_outputs = [shut_output], sr_rerandomized = False\<rparr>"

definition shut_response :: "string \<Rightarrow> (string, SwapResponse) result" where
  "shut_response _ =
     Ok \<lparr>sp_signatures = [\<lparr>bs_amount = 1, bs_keyset_id = [0], bs_c = [97, 1], bs_dleq = None\<rparr>], rerandomization_r = None\<rparr>"

definition shut_close :: close_codec where
  "shut_close = \<lparr>request_to_value = (\<lambda>_. JBool True), request_from_value = shut_request, keyset_to_value = (\<lambda>_. JNull),
     response_parse = shut_response, response_print = (\<lambda>_. []), restore_parse = (\<lambda>_. Err []), values_parse = shut_values,
     rejection_to_value = (\<lambda>_. JNull), mint_error_to_value = (\<lambda>_. JNull)\<rparr>"

definition shut_payment_parse :: "string \<Rightarrow> (string, Payment) result" where
  "shut_payment_parse t = (if t = ''q'' then Ok (payment_new shut_channel_id 1 (pay_signature shut_payment)) else Err [])"

definition shut_bridge :: bridge_codec where
  "shut_bridge = \<lparr>payment_parse = shut_payment_parse, errors_print = (\<lambda>_. [])\<rparr>"

definition shut_host :: "stored SqliteStorage ConfigurableHost" where
  "shut_host = \<lparr>host_config = priced_config, host_server_pubkey = [3, 1], host_server_secret_hex = [CHR 0x03, CHR 0x01],
     host_storage = sqlite_storage shut_codec example_rows\<rparr>"

definition shut_ops :: "storage_op list" where
  "shut_ops =
     [SetKeyset ''m'' [0] \<lparr>kc_info_json = ''k'', kc_active = True, kc_unit = ''sat''\<rparr>,
      SaveFunding shut_channel_id \<lparr>params_json = ''p'', funding_proofs_json = [], channel_secret_hex = ''s'',
                                   keyset_info_json = ''k''\<rparr>,
      UpdateBalance shut_channel_id shut_payment, IncrementUsage shut_channel_id [(''chars'', 2)]]"

definition shut_state :: "stored SqliteStorage" where
  "shut_state = snd (run_ops (sqlite_storage shut_codec example_rows) shut_ops sqlite_init_schema)"

definition shut_mint :: "string \<Rightarrow> string \<Rightarrow> stored SqliteStorage \<Rightarrow> (MintRequestError, string) result \<times> stored SqliteStorage" where
  "shut_mint u t s = (Ok [], s)"

definition shut_refresh :: "string \<Rightarrow> stored SqliteStorage update" where
  "shut_refresh u s = (Ok (), s)"

lemma shut_runs:
  "map_option (is_ok \<circ> fst) (execute_unilateral_close shut_crypto shut_codec shut_close
     (configurable_host shut_crypto shut_codec 10 shut_host) shut_mint shut_refresh shut_channel_id shut_state) = Some True \<and>
   compute_amount_due shut_codec shut_host shut_state shut_channel_id None = 1 \<and>
   valid_run (sqlite_storage shut_codec example_rows) sqlite_valid shut_ops sqlite_init_schema \<and>
   sq_get_state shut_state shut_channel_id = Ok (Some Open) \<and> sq_read_funding example_rows shut_state shut_channel_id \<noteq> None \<and>
   sq_get_balance shut_state shut_channel_id = Some shut_payment"
  by code_simp

lemma step_ok_obtain:
  assumes "map_option (is_ok \<circ> fst) m = Some True"
  obtains x s where "m = Some (Ok x, s)"
  using assms by (cases m) (auto simp: is_ok_def split: sum.splits)

lemma shut_laws:
  "construct_faithful shut_crypto" "tweak_faithful shut_crypto" "payment_text_faithful shut_codec shut_bridge"
  "host_storage shut_host = sqlite_storage shut_codec example_rows" "sqlite_ok example_rows shut_state"
  "keeps_channels ok V (shut_mint u t)" "keeps_channels ok V (shut_refresh u)"
proof -
  show "construct_faithful shut_crypto" "tweak_faithful shut_crypto"
    using short_faithful by (simp_all add: shut_crypto_def open_crypto_def construct_faithful_def tweak_faithful_def)
  show "payment_text_faithful shut_codec shut_bridge"
    by (auto simp: payment_text_faithful_def shut_codec_def shut_bridge_def shut_payment_parse_def shut_json_parse_def payment_new_def
        split: if_splits)
  show "host_storage shut_host = sqlite_storage shut_codec example_rows" by (simp add: shut_host_def)
  show "sqlite_ok example_rows shut_state"
    unfolding shut_state_def
    using sql.chain_develops [OF sqlite_init_ok [OF example_rows_faithful] conjunct1 [OF conjunct2 [OF conjunct2 [OF shut_runs]]]] by blast
  show "keeps_channels ok V (shut_mint u t)" "keeps_channels ok V (shut_refresh u)"
    by (simp_all add: keeps_channels_def shut_mint_def shut_refresh_def)
qed

lemma shut_cooperative:
  "execute_cooperative_close shut_crypto shut_codec shut_bridge shut_close
     (configurable_host shut_crypto shut_codec 10 shut_host) shut_mint shut_refresh ''q'' shut_state =
   execute_unilateral_close shut_crypto shut_codec shut_close
     (configurable_host shut_crypto shut_codec 10 shut_host) shut_mint shut_refresh shut_channel_id shut_state"
proof -
  let ?q = "payment_new shut_channel_id 1 (pay_signature shut_payment)"
  obtain f where f: "sq_read_funding example_rows shut_state shut_channel_id = Some f" using shut_runs by auto
  show ?thesis
    by (subst cooperative_as_unilateral [where q = ?q and f = f and st = Open and
          kvs = "[(''channel_id'', JStr shut_channel_id), (''balance'', JU64 1), (''signature'', JStr (pay_signature shut_payment))]"])
      (use shut_runs f in \<open>simp_all add: shut_bridge_def shut_payment_parse_def shut_codec_def shut_json_parse_def payment_new_def
         configurable_host_def shut_host_def shut_channel_id_def shut_payment_def\<close>)
qed

theorem cooperative_close_settles_witness:
  "\<exists>r s' (q :: Payment) funding. execute_cooperative_close shut_crypto shut_codec shut_bridge shut_close
     (configurable_host shut_crypto shut_codec 10 shut_host) shut_mint shut_refresh ''q'' shut_state = Some (Ok r, s') \<and>
     settles shut_crypto shut_codec (view (sqlite_storage shut_codec example_rows) shut_state)
       (view (sqlite_storage shut_codec example_rows) s') (pm_channel_id q) funding
       \<lparr>pay_balance = pm_balance q, pay_signature = pm_signature q\<rparr> r"
proof -
  obtain r s' where run: "execute_cooperative_close shut_crypto shut_codec shut_bridge shut_close
     (configurable_host shut_crypto shut_codec 10 shut_host) shut_mint shut_refresh ''q'' shut_state = Some (Ok r, s')"
    using step_ok_obtain [OF conjunct1 [OF shut_runs]] unfolding shut_cooperative [symmetric] by blast
  from cooperative_close_settles [OF shut_laws(3,1,2,4,5) shut_laws(6,7) run] run show ?thesis by blast
qed

theorem unilateral_close_settles_witness:
  "\<exists>r s' payment funding. execute_unilateral_close shut_crypto shut_codec shut_close
     (configurable_host shut_crypto shut_codec 10 shut_host) shut_mint shut_refresh shut_channel_id shut_state = Some (Ok r, s') \<and>
     settles shut_crypto shut_codec (view (sqlite_storage shut_codec example_rows) shut_state)
       (view (sqlite_storage shut_codec example_rows) s') shut_channel_id funding payment r"
proof -
  obtain r s' where run: "execute_unilateral_close shut_crypto shut_codec shut_close
     (configurable_host shut_crypto shut_codec 10 shut_host) shut_mint shut_refresh shut_channel_id shut_state = Some (Ok r, s')"
    using step_ok_obtain [OF conjunct1 [OF shut_runs]] by blast
  from unilateral_close_settles [OF shut_laws(1,2,4,5) shut_laws(6,7) run] run show ?thesis by blast
qed

end
