(* ===== verification/KeysetVersions.thy ===== *)
theory KeysetVersions
  imports MintOutcome "HOL-Library.List_Lexorder" "HOL-Library.Char_ord" "HOL-Library.Option_ord"
begin

text \<open>
  Keyset versions, selection policy and the tolerant reading of a mint's keyset listing:
  \<open>crates/cdk-spilman/src/keyset_versions.rs\<close>.

  A version set is the byte the code stores.  The ordered sets of the code are finite sets, listed in
  order where the code lists them.
\<close>

unbundle bit_operations_syntax

datatype KeysetVersion = V1 | V2

datatype KeysetVersions = KeysetVersions (bits: byte)

fun version_bit :: "KeysetVersion \<Rightarrow> byte" where
  "version_bit V1 = 1"
| "version_bit V2 = 2"

definition library_supported :: KeysetVersions where
  "library_supported = KeysetVersions 3"

definition contains :: "KeysetVersions \<Rightarrow> KeysetVersion \<Rightarrow> bool" where
  "contains vs v \<longleftrightarrow> bits vs AND version_bit v \<noteq> 0"

text \<open>The version of a typed keyset id is one of the two known to \<open>cashu\<close>, named by its first byte.\<close>

definition id_version :: "codec \<Rightarrow> key_id \<Rightarrow> KeysetVersion" where
  "id_version J kid = (if id_version_byte J kid = 0 then V1 else V2)"

definition allows :: "codec \<Rightarrow> KeysetVersions \<Rightarrow> key_id \<Rightarrow> bool" where
  "allows J vs kid = contains vs (id_version J kid)"

definition from_versions :: "KeysetVersion list \<Rightarrow> KeysetVersions" where
  "from_versions vs = KeysetVersions (fold (\<lambda>v b. b OR version_bit v) vs 0)"

definition to_versions :: "KeysetVersions \<Rightarrow> KeysetVersion list" where
  "to_versions vs = filter (contains vs) [V1, V2]"

record KeysetSelectionPolicy =
  allowed_versions :: KeysetVersions

section \<open>Ids\<close>

definition is_hex_digit :: "char \<Rightarrow> bool" where
  "is_hex_digit c \<longleftrightarrow>
     (let n = of_char c :: nat in 48 \<le> n \<and> n \<le> 57 \<or> 97 \<le> n \<and> n \<le> 102 \<or> 65 \<le> n \<and> n \<le> 70)"

definition hex_value :: "char \<Rightarrow> nat" where
  "hex_value c =
     (let n = of_char c in if n \<le> 57 then n - 48 else if n \<le> 70 then n - 55 else n - 87)"

definition version_prefix :: "string \<Rightarrow> byte" where
  "version_prefix raw = word_of_nat (16 * hex_value (raw ! 0) + hex_value (raw ! 1))"

definition supported_keyset_id :: "codec \<Rightarrow> string \<Rightarrow> (string, key_id option) result" where
  "supported_keyset_id J raw =
     (if length raw < 2 \<or> \<not> list_all is_hex_digit (take 2 raw)
      then Err ''Keyset ID must start with a hex version byte''
      else if version_prefix raw > 1 then Ok None
      else map_err (\<lambda>e. ''Invalid supported keyset ID: '' @ e) (rbind (id_parse J raw) (\<lambda>kid. Ok (Some kid))))"

section \<open>The listing of a mint\<close>

record SkippedKeysetVersion =
  version_byte :: byte
  sk_unit :: "string option"
  sk_active :: bool

record KeysetDiscovery =
  keysets :: "json list"
  skipped :: "SkippedKeysetVersion list"
  unsupported_active_units :: "string option list"

record discovery_state =
  d_keysets :: "json list"
  d_skipped :: "SkippedKeysetVersion list"
  d_supported :: "string option set"
  d_unsupported :: "string option set"

definition entry_unit :: "json \<Rightarrow> string option" where
  "entry_unit entry = (case json_get entry ''unit'' of None \<Rightarrow> None | Some v \<Rightarrow> as_str v)"

definition entry_active :: "json \<Rightarrow> bool" where
  "entry_active entry =
     (case json_get entry ''active'' of None \<Rightarrow> False | Some v \<Rightarrow> (case as_bool v of None \<Rightarrow> False | Some b \<Rightarrow> b))"

definition entry_id :: "json \<Rightarrow> (string, string) result" where
  "entry_id entry =
     ok_or ''Missing or invalid keyset id''
       (case json_get entry ''id'' of None \<Rightarrow> None | Some v \<Rightarrow> as_str v)"

definition discover_entry :: "codec \<Rightarrow> json \<Rightarrow> discovery_state \<Rightarrow> (string, discovery_state) result" where
  "discover_entry J entry d =
     rbind (entry_id entry) (\<lambda>raw.
     rbind (supported_keyset_id J raw) (\<lambda>kid.
     (case kid of
        Some _ \<Rightarrow>
          rbind (map_err (\<lambda>e. ''Invalid supported keyset metadata: '' @ e) (keyset_meta J entry)) (\<lambda>_.
          Ok (d\<lparr>d_supported := (if entry_active entry then insert (entry_unit entry) (d_supported d) else d_supported d),
               d_keysets := d_keysets d @ [entry]\<rparr>))
      | None \<Rightarrow>
          Ok (d\<lparr>d_unsupported := (if entry_active entry then insert (entry_unit entry) (d_unsupported d) else d_unsupported d),
               d_skipped := d_skipped d @ [\<lparr>version_byte = version_prefix raw, sk_unit = entry_unit entry,
                                            sk_active = entry_active entry\<rparr>]\<rparr>))))"

fun discover_loop :: "codec \<Rightarrow> json list \<Rightarrow> discovery_state \<Rightarrow> (string, discovery_state) result" where
  "discover_loop J [] d = Ok d"
| "discover_loop J (e # es) d = rbind (discover_entry J e d) (discover_loop J es)"

definition listed_entries :: "codec \<Rightarrow> string \<Rightarrow> (string, json list) result" where
  "listed_entries J text =
     rbind (json_parse J text) (\<lambda>response.
     ok_or (''Invalid /v1/keysets response: missing '' @ quoted ''keysets'' @ '' array'')
       (case json_get response ''keysets'' of None \<Rightarrow> None | Some v \<Rightarrow> as_array v))"

definition discovery_from_json :: "codec \<Rightarrow> string \<Rightarrow> (string, KeysetDiscovery) result" where
  "discovery_from_json J text =
     rbind (listed_entries J text) (\<lambda>entries.
     rbind (discover_loop J entries \<lparr>d_keysets = [], d_skipped = [], d_supported = {}, d_unsupported = {}\<rparr>) (\<lambda>d.
     Ok \<lparr>keysets = d_keysets d, skipped = d_skipped d,
         unsupported_active_units = sorted_list_of_set (d_unsupported d - d_supported d)\<rparr>))"

fun version_name :: "KeysetVersion \<Rightarrow> string" where
  "version_name V1 = ''V1''"
| "version_name V2 = ''V2''"

definition show_versions :: "KeysetVersions \<Rightarrow> string" where
  "show_versions vs =
     ''['' @ concat (case map version_name (to_versions vs) of [] \<Rightarrow> [] | n # ns \<Rightarrow> n # map (\<lambda>m. '', '' @ m) ns) @ '']''"

definition no_compatible :: "string \<Rightarrow> KeysetSelectionPolicy \<Rightarrow> string" where
  "no_compatible u policy =
     ''No compatible active keyset for unit '' @ quoted u @ '' with allowed versions ''
     @ show_versions (allowed_versions policy)"

fun select_from :: "codec \<Rightarrow> string \<Rightarrow> KeysetSelectionPolicy \<Rightarrow> json list \<Rightarrow> (string, key_id) result" where
  "select_from J u policy [] = Err (no_compatible u policy)"
| "select_from J u policy (entry # rest) =
     rbind (keyset_meta J entry) (\<lambda>info.
     if km_active info \<and> km_unit info = u \<and> allows J (allowed_versions policy) (km_id info)
     then Ok (km_id info) else select_from J u policy rest)"

definition select_active :: "codec \<Rightarrow> KeysetDiscovery \<Rightarrow> string \<Rightarrow> KeysetSelectionPolicy \<Rightarrow> (string, key_id) result" where
  "select_active J d u policy = select_from J u policy (keysets d)"

definition select_active_keyset ::
  "codec \<Rightarrow> string \<Rightarrow> string \<Rightarrow> (string, KeysetSelectionPolicy) result \<Rightarrow> (string, string) result" where
  "select_active_keyset J text u policy =
     rbind (map_err (\<lambda>e. ''Invalid keyset selection policy: '' @ e) policy) (\<lambda>pol.
     rbind (discovery_from_json J text) (\<lambda>d.
     rbind (select_active J d u pol) (\<lambda>kid. Ok (id_to_string J kid))))"

section \<open>Version sets\<close>

lemma or_fold:
  fixes f :: "KeysetVersion \<Rightarrow> byte"
  shows "fold (\<lambda>v b. b OR f v) vs b =
    b OR ((if V1 \<in> set vs then f V1 else 0) OR (if V2 \<in> set vs then f V2 else 0))"
proof (induction vs arbitrary: b)
  case (Cons v vs)
  then show ?case by (cases v) (auto simp: or.assoc or.left_commute or.commute)
qed simp

lemmas version_bits_fold = or_fold [of version_bit]

lemma contains_from_versions [simp]: "contains (from_versions vs) v \<longleftrightarrow> v \<in> set vs"
  by (cases v) (simp_all add: contains_def from_versions_def version_bits_fold)

lemma set_to_versions: "set (to_versions w) = {v. contains w v}"
proof -
  have "v \<in> set [V1, V2]" for v by (cases v) simp_all
  then show ?thesis unfolding to_versions_def set_filter by blast
qed

text \<open>Version sets round trip with their lists.  A set built from a list allows exactly the listed versions,
  its list names each of them once in order, and rebuilding a set from its list gives the same set
  whenever its byte uses only the two known bits.\<close>

lemma versions_roundtrip:
  "(contains (from_versions vs) v \<longleftrightarrow> v \<in> set vs) \<and>
   set (to_versions (from_versions vs)) = set vs \<and> distinct (to_versions k) \<and>
   (from_versions (to_versions k) = k \<longleftrightarrow> bits k \<le> 3)"
proof -
  have set: "set (to_versions (from_versions vs)) = set vs"
    by (simp add: set_to_versions)
  have "from_versions (to_versions k) = KeysetVersions (bits k AND 3)"
  proof -
    have b: "bits k AND 3 = (bits k AND 1) OR (bits k AND 2)"
      by (simp flip: bit.conj_disj_distrib)
    have one: "bits k AND 1 = (if bits k AND 1 \<noteq> 0 then 1 else 0)"
      by (auto simp: and_one_eq)
    have "bits k AND 2 = (if bit (bits k) 1 then 2 else 0)"
      by (rule bit_word_eqI) (auto simp: bit_simps)
    then have two: "bits k AND 2 = (if bits k AND 2 \<noteq> 0 then 2 else 0)"
      by auto
    show ?thesis unfolding b
      by (subst one, subst two) (auto simp: from_versions_def to_versions_def contains_def version_bits_fold)
  qed
  moreover have "bits k AND 3 = bits k \<longleftrightarrow> bits k \<le> 3"
  proof -
    have m: "mask 2 = (3 :: byte)" by (simp add: mask_eq_exp_minus_1)
    have "bits k AND 3 \<le> 3" by (rule word_and_le1)
    moreover have "bits k AND 3 = bits k" if "bits k \<le> 3"
    proof -
      have "bits k < 2 ^ 2" using that by (simp add: word_le_nat_alt word_less_nat_alt)
      then show ?thesis using less_mask_eq [of "bits k" 2] m by simp
    qed
    ultimately show ?thesis by auto
  qed
  ultimately show ?thesis using set by (cases k) (auto simp: to_versions_def)
qed

section \<open>Reading a listing\<close>

text \<open>An entry is supported when its id has a supported prefix and parses.\<close>

definition supported_entry :: "codec \<Rightarrow> json \<Rightarrow> bool" where
  "supported_entry J entry =
     (case rbind (entry_id entry) (supported_keyset_id J) of Ok (Some _) \<Rightarrow> True | _ \<Rightarrow> False)"

definition active_units :: "json list \<Rightarrow> string option set" where
  "active_units entries = entry_unit ` set (filter entry_active entries)"

lemma active_units_simps [simp]:
  "active_units [] = {}"
  "active_units (e # es) = (if entry_active e then insert (entry_unit e) (active_units es) else active_units es)"
  by (simp_all add: active_units_def)

lemma discover_entry_Ok:
  assumes "discover_entry J e d = Ok d'"
  shows "d_keysets d' = d_keysets d @ filter (supported_entry J) [e]"
    and "map (\<lambda>s. (sk_unit s, sk_active s)) (d_skipped d') = map (\<lambda>s. (sk_unit s, sk_active s)) (d_skipped d) @
           map (\<lambda>e. (entry_unit e, entry_active e)) (filter (\<lambda>e. \<not> supported_entry J e) [e])"
    and "d_supported d' = d_supported d \<union> active_units (filter (supported_entry J) [e])"
    and "d_unsupported d' = d_unsupported d \<union> active_units (filter (\<lambda>e. \<not> supported_entry J e) [e])"
    and "supported_entry J e \<longrightarrow> is_ok (keyset_meta J e)"
proof -
  obtain raw kid where e: "entry_id e = Ok raw" "supported_keyset_id J raw = Ok kid"
    using assms by (auto simp: discover_entry_def rbind_eq_Ok)
  note unf = discover_entry_def supported_entry_def rbind_eq_Ok e
  show "d_keysets d' = d_keysets d @ filter (supported_entry J) [e]"
    "map (\<lambda>s. (sk_unit s, sk_active s)) (d_skipped d') = map (\<lambda>s. (sk_unit s, sk_active s)) (d_skipped d) @
       map (\<lambda>e. (entry_unit e, entry_active e)) (filter (\<lambda>e. \<not> supported_entry J e) [e])"
    "d_supported d' = d_supported d \<union> active_units (filter (supported_entry J) [e])"
    "d_unsupported d' = d_unsupported d \<union> active_units (filter (\<lambda>e. \<not> supported_entry J e) [e])"
    "supported_entry J e \<longrightarrow> is_ok (keyset_meta J e)"
    using assms by (cases kid; auto simp: unf is_ok_def map_err_def split: sum.splits)+
qed

lemma discover_loop_Ok:
  assumes "discover_loop J es d = Ok d'"
  shows "d_keysets d' = d_keysets d @ filter (supported_entry J) es \<and>
    map (\<lambda>s. (sk_unit s, sk_active s)) (d_skipped d') = map (\<lambda>s. (sk_unit s, sk_active s)) (d_skipped d) @
      map (\<lambda>e. (entry_unit e, entry_active e)) (filter (\<lambda>e. \<not> supported_entry J e) es) \<and>
    d_supported d' = d_supported d \<union> active_units (filter (supported_entry J) es) \<and>
    d_unsupported d' = d_unsupported d \<union> active_units (filter (\<lambda>e. \<not> supported_entry J e) es) \<and>
    list_all (\<lambda>e. is_ok (keyset_meta J e)) (filter (supported_entry J) es)"
  using assms
proof (induction es arbitrary: d)
  case (Cons e es)
  then obtain d1 where d1: "discover_entry J e d = Ok d1" "discover_loop J es d1 = Ok d'"
    by (auto simp: rbind_eq_Ok)
  from Cons.IH [OF d1(2)] discover_entry_Ok [OF d1(1)] show ?case by auto
qed simp

text \<open>C30: reading a listing partitions it.  The supported entries are kept in the mint's order and all of them
  decode, the others are skipped with their unit and activity, and the units reported as unsupported
  are exactly those with an active unsupported entry and no active supported one, each listed once.\<close>

theorem discovery_partitions:
  assumes "listed_entries J text = Ok entries" "discovery_from_json J text = Ok d"
  shows "keysets d = filter (supported_entry J) entries \<and>
    map (\<lambda>s. (sk_unit s, sk_active s)) (skipped d) =
      map (\<lambda>e. (entry_unit e, entry_active e)) (filter (\<lambda>e. \<not> supported_entry J e) entries) \<and>
    list_all (\<lambda>e. is_ok (keyset_meta J e)) (keysets d) \<and>
    set (unsupported_active_units d) =
      active_units (filter (\<lambda>e. \<not> supported_entry J e) entries) - active_units (filter (supported_entry J) entries) \<and>
    distinct (unsupported_active_units d)"
proof -
  obtain r where r: "discover_loop J entries \<lparr>d_keysets = [], d_skipped = [], d_supported = {}, d_unsupported = {}\<rparr> = Ok r"
    and d: "d = \<lparr>keysets = d_keysets r, skipped = d_skipped r,
      unsupported_active_units = sorted_list_of_set (d_unsupported r - d_supported r)\<rparr>"
    using assms by (auto simp: discovery_from_json_def rbind_eq_Ok)
  have "finite (active_units es)" for es by (simp add: active_units_def)
  then show ?thesis using discover_loop_Ok [OF r] by (simp add: d)
qed

text \<open>A decoded entry is selectable when it is active, of the unit, and of an allowed version.\<close>

definition selectable :: "codec \<Rightarrow> string \<Rightarrow> KeysetSelectionPolicy \<Rightarrow> KeySetMeta \<Rightarrow> bool" where
  "selectable J u pol info \<longleftrightarrow>
     km_active info \<and> km_unit info = u \<and> id_version J (km_id info) \<in> set (to_versions (allowed_versions pol))"

definition decoded :: "codec \<Rightarrow> json \<Rightarrow> KeySetMeta" where
  "decoded J e = (case keyset_meta J e of Ok info \<Rightarrow> info)"

lemma select_from_find:
  assumes "list_all (\<lambda>e. is_ok (keyset_meta J e)) es"
  shows "select_from J u pol es =
    (case find (selectable J u pol) (map (decoded J) es) of None \<Rightarrow> Err (no_compatible u pol) | Some info \<Rightarrow> Ok (km_id info))"
  using assms
proof (induction es)
  case (Cons e es)
  then obtain info where "keyset_meta J e = Ok info" by (auto simp: is_ok_def split: sum.splits)
  then show ?case using Cons by (auto simp: selectable_def decoded_def allows_def set_to_versions)
qed simp

text \<open>C31: selecting from a listing the code has read returns the first active keyset of the unit whose version the
  policy allows.  It fails only when there is none, in particular for the empty policy, and then with
  the message that says so.\<close>

theorem selection_respects_policy:
  assumes "discovery_from_json J text = Ok d"
  shows "(case select_active J d u pol of
       Ok kid \<Rightarrow> (\<exists>i < length (keysets d). keyset_meta J (keysets d ! i) = Ok (decoded J (keysets d ! i)) \<and>
         km_id (decoded J (keysets d ! i)) = kid \<and> selectable J u pol (decoded J (keysets d ! i)) \<and>
         list_all (\<lambda>e. \<not> selectable J u pol (decoded J e)) (take i (keysets d)))
     | Err e \<Rightarrow> e = no_compatible u pol \<and> list_all (\<lambda>e. \<not> selectable J u pol (decoded J e)) (keysets d)) \<and>
    (to_versions (allowed_versions pol) = [] \<longrightarrow> select_active J d u pol = Err (no_compatible u pol))"
proof -
  obtain entries r where "discover_loop J entries \<lparr>d_keysets = [], d_skipped = [], d_supported = {}, d_unsupported = {}\<rparr> = Ok r"
    and "keysets d = d_keysets r"
    using assms by (auto simp: discovery_from_json_def rbind_eq_Ok)
  then have ok: "list_all (\<lambda>e. is_ok (keyset_meta J e)) (keysets d)"
    using discover_loop_Ok by fastforce
  have meta: "keyset_meta J (keysets d ! i) = Ok (decoded J (keysets d ! i))" if "i < length (keysets d)" for i
    using ok that by (auto simp: list_all_length is_ok_def decoded_def split: sum.splits)
  have sel: "select_active J d u pol =
      (case find (selectable J u pol) (map (decoded J) (keysets d)) of
         None \<Rightarrow> Err (no_compatible u pol) | Some info \<Rightarrow> Ok (km_id info))"
    unfolding select_active_def by (rule select_from_find [OF ok])
  have none: "to_versions (allowed_versions pol) = [] \<Longrightarrow> \<not> selectable J u pol info" for info
    by (simp add: selectable_def)
  show ?thesis
  proof (cases "find (selectable J u pol) (map (decoded J) (keysets d))")
    case None
    then have "list_all (\<lambda>e. \<not> selectable J u pol (decoded J e)) (keysets d)"
      by (auto simp: find_None_iff list_all_iff)
    then show ?thesis using sel None by simp
  next
    case (Some info)
    then obtain i where i: "i < length (keysets d)" "selectable J u pol (decoded J (keysets d ! i))"
      "info = decoded J (keysets d ! i)" "\<forall>j<i. \<not> selectable J u pol (decoded J (keysets d ! j))"
      by (auto simp: find_Some_iff)
    then have "list_all (\<lambda>e. \<not> selectable J u pol (decoded J e)) (take i (keysets d))"
      by (auto simp: list_all_length)
    then show ?thesis using sel Some i meta none by auto
  qed
qed

text \<open>A listing with one entry of each known version, an inactive one and an unknown one.\<close>

definition example_entry :: "string \<Rightarrow> bool \<Rightarrow> json" where
  "example_entry kid active =
     JObj [(''id'', JStr kid), (''unit'', JStr ''sat''), (''active'', JBool active)]"

definition example_listing :: codec where
  "example_listing =
     (example_codec (JObj [(''keysets'', JArr [example_entry ''00a'' False, example_entry ''ff'' True,
                                                example_entry ''01b'' True, example_entry ''00c'' True])]))
     \<lparr>keyset_meta := (\<lambda>e. rbind (entry_id e) (\<lambda>i.
        Ok \<lparr>km_id = string_bytes i, km_unit = ''sat'', km_active = entry_active e\<rparr>)),
      id_version_byte := (\<lambda>k. if take 2 k = string_bytes ''00'' then 0 else 1)\<rparr>"

lemma example_discovery:
  "listed_entries example_listing [] =
     Ok [example_entry ''00a'' False, example_entry ''ff'' True, example_entry ''01b'' True, example_entry ''00c'' True]"
  "\<exists>d. discovery_from_json example_listing [] = Ok d"
proof -
  show "listed_entries example_listing [] =
     Ok [example_entry ''00a'' False, example_entry ''ff'' True, example_entry ''01b'' True, example_entry ''00c'' True]"
    by code_simp
  have "is_ok (discovery_from_json example_listing [])" by code_simp
  then show "\<exists>d. discovery_from_json example_listing [] = Ok d" by (rule is_ok_obtain)
qed

theorem discovery_partitions_witness:
  "\<exists>d. discovery_from_json example_listing [] = Ok d \<and>
     keysets d = filter (supported_entry example_listing)
       [example_entry ''00a'' False, example_entry ''ff'' True, example_entry ''01b'' True, example_entry ''00c'' True]"
proof -
  obtain d where d: "discovery_from_json example_listing [] = Ok d" using example_discovery(2) by blast
  then show ?thesis using discovery_partitions [OF example_discovery(1) d] by blast
qed

theorem selection_respects_policy_witness:
  "\<exists>d. discovery_from_json example_listing [] = Ok d \<and>
     select_active example_listing d ''sat'' \<lparr>allowed_versions = from_versions []\<rparr> =
       Err (no_compatible ''sat'' \<lparr>allowed_versions = from_versions []\<rparr>)"
proof -
  obtain d where d: "discovery_from_json example_listing [] = Ok d" using example_discovery(2) by blast
  have "to_versions (from_versions []) = []" by code_simp
  then show ?thesis
    using d selection_respects_policy [OF d, where u = "''sat''" and pol = "\<lparr>allowed_versions = from_versions []\<rparr>"]
    by simp
qed

end
