(* ===== verification/ClientStorage.thy ===== *)
theory ClientStorage
  imports Channel Storage "HOL-Library.AList"
begin

text \<open>
  The client's storage: the trait \<open>ClientStorage\<close> and its in-memory implementation \<open>MemoryClientStorage\<close>, in
  \<open>crates/cdk-spilman/src/client_storage.rs\<close>.

  The trait is a record of operations on an abstract state.  A client channel goes through phases: it is
  being opened, its opening was rejected, or it is funded; the contract says how every operation moves a
  channel between them, and what the getters then show.  The contract speaks about the calls for which the
  trait's documentation fixes the outcome (a channel is marked closed only once it is funded, an opening is
  marked failed only while it is pending); outside of them the implementations differ.
\<close>

section \<open>Stored data\<close>

record ClientChannelOpeningFromSwap =
  ow_params_json :: string
  ow_channel_secret_hex :: string
  ow_keyset_info_json :: string
  ow_sender_pubkey_hex :: string
  ow_receiver_pubkey_hex :: string
  ow_capacity :: u64
  ow_funding_token_amount :: u64
  ow_mint_url :: string
  ow_unit :: string
  ow_input_token :: string
  ow_change_secrets_json :: string
  ow_change_amount_raw :: u64
  ow_created_at :: u64

record ClientPaymentState =
  cps_balance :: u64
  cps_signature :: string
  cps_payment_count :: u64
  cps_last_payment_at :: u64

record ClientKeysetCacheEntry =
  ce_info_json :: string
  ce_active :: bool
  ce_unit :: currency_unit

record ClientOpeningFailure =
  fl_stage :: string
  fl_message :: string
  fl_failed_at :: u64

datatype ClientChannelState = OpeningFromSwap | OpeningFailed | ClientOpen | ClientClosing | ClientClosed

definition is_payable :: "ClientChannelState \<Rightarrow> bool" where
  "is_payable st \<longleftrightarrow> st = ClientOpen"

text \<open>The funding an opening becomes when its proofs arrive.\<close>

definition opening_funding :: "ClientChannelOpeningFromSwap \<Rightarrow> string \<Rightarrow> ClientChannelFunding" where
  "opening_funding opening proofs =
     \<lparr>cf_params_json = ow_params_json opening, cf_funding_proofs_json = proofs,
      cf_channel_secret_hex = ow_channel_secret_hex opening, cf_keyset_info_json = ow_keyset_info_json opening,
      cf_sender_pubkey_hex = ow_sender_pubkey_hex opening, cf_capacity = ow_capacity opening,
      cf_funding_token_amount = ow_funding_token_amount opening, cf_mint_url = ow_mint_url opening,
      cf_created_at = ow_created_at opening\<rparr>"

text \<open>The storage trait.  The listing of channels has the order of a hash table and is a set here; a hash table that
  is listed is an association list.\<close>

record 's ClientStorage =
  cst_save_opening_from_swap :: "channel_id \<Rightarrow> ClientChannelOpeningFromSwap \<Rightarrow> 's update"
  cst_set_open :: "channel_id \<Rightarrow> string \<Rightarrow> 's update"
  cst_get_opening_from_swap :: "'s \<Rightarrow> channel_id \<Rightarrow> (string, ClientChannelOpeningFromSwap option) result"
  cst_set_opening_failed :: "channel_id \<Rightarrow> ClientOpeningFailure \<Rightarrow> 's update"
  cst_get_opening_failure :: "'s \<Rightarrow> channel_id \<Rightarrow> ClientOpeningFailure option"
  cst_get_funding :: "'s \<Rightarrow> channel_id \<Rightarrow> ClientChannelFunding option"
  cst_get_payment_state :: "'s \<Rightarrow> channel_id \<Rightarrow> ClientPaymentState option"
  cst_save_payment_state :: "channel_id \<Rightarrow> ClientPaymentState \<Rightarrow> 's update"
  cst_get_state :: "'s \<Rightarrow> channel_id \<Rightarrow> ClientChannelState option"
  cst_set_closed :: "channel_id \<Rightarrow> 's update"
  cst_set_closing :: "channel_id \<Rightarrow> 's update"
  cst_list_channel_ids :: "'s \<Rightarrow> channel_id set"
  cst_delete :: "channel_id \<Rightarrow> 's update"
  cst_get_keyset :: "'s \<Rightarrow> string \<Rightarrow> key_id \<Rightarrow> ClientKeysetCacheEntry option"
  cst_set_keyset :: "string \<Rightarrow> key_id \<Rightarrow> ClientKeysetCacheEntry \<Rightarrow> 's update"
  cst_get_active_keyset_ids :: "'s \<Rightarrow> string \<Rightarrow> currency_unit \<Rightarrow> key_id list"
  cst_list_keysets_for_unit :: "'s \<Rightarrow> string \<Rightarrow> currency_unit \<Rightarrow> (key_id \<times> ClientKeysetCacheEntry) list"

section \<open>The in-memory storage\<close>

record MemoryClientStorage =
  mc_openings :: "(channel_id \<times> ClientChannelOpeningFromSwap) list"
  mc_fundings :: "(channel_id \<times> ClientChannelFunding) list"
  mc_payments :: "channel_id \<rightharpoonup> ClientPaymentState"
  mc_states :: "channel_id \<rightharpoonup> ClientChannelState"
  mc_failures :: "channel_id \<rightharpoonup> ClientOpeningFailure"
  mc_keysets :: "((string \<times> key_id) \<times> ClientKeysetCacheEntry) list"

abbreviation mc_opening :: "MemoryClientStorage \<Rightarrow> channel_id \<rightharpoonup> ClientChannelOpeningFromSwap" where
  "mc_opening m \<equiv> map_of (mc_openings m)"

abbreviation mc_funding :: "MemoryClientStorage \<Rightarrow> channel_id \<rightharpoonup> ClientChannelFunding" where
  "mc_funding m \<equiv> map_of (mc_fundings m)"

definition memory_client_new :: MemoryClientStorage where
  "memory_client_new =
     \<lparr>mc_openings = [], mc_fundings = [], mc_payments = Map.empty, mc_states = Map.empty,
      mc_failures = Map.empty, mc_keysets = []\<rparr>"

definition channel_count :: "MemoryClientStorage \<Rightarrow> nat" where
  "channel_count m = card (set (map fst (mc_openings m)) \<union> set (map fst (mc_fundings m)))"

definition mc_save_opening_from_swap :: "channel_id \<Rightarrow> ClientChannelOpeningFromSwap \<Rightarrow> MemoryClientStorage update" where
  "mc_save_opening_from_swap c opening m =
     (case mc_states m c of
        None \<Rightarrow> (Ok (), m\<lparr>mc_openings := AList.update c opening (mc_openings m), mc_states := (mc_states m)(c \<mapsto> OpeningFromSwap)\<rparr>)
      | Some st \<Rightarrow>
          if (st = OpeningFromSwap \<or> st = OpeningFailed) \<and> mc_opening m c = Some opening
          then (Ok (), m\<lparr>mc_failures := (mc_failures m)(c := None), mc_states := (mc_states m)(c \<mapsto> OpeningFromSwap)\<rparr>)
          else (Err (''channel '' @ c @ '' already exists with different opening or lifecycle state''), m))"

definition mc_set_open :: "channel_id \<Rightarrow> string \<Rightarrow> MemoryClientStorage update" where
  "mc_set_open c proofs m =
     (case mc_states m c of
        Some OpeningFromSwap \<Rightarrow>
          (case mc_opening m c of
             None \<Rightarrow> (Err (''channel '' @ c @ '' has corrupt OpeningFromSwap state''), m)
           | Some opening \<Rightarrow>
               (Ok (), m\<lparr>mc_fundings := AList.update c (opening_funding opening proofs) (mc_fundings m),
                         mc_openings := AList.delete c (mc_openings m), mc_failures := (mc_failures m)(c := None),
                         mc_states := (mc_states m)(c \<mapsto> ClientOpen)\<rparr>))
      | None \<Rightarrow> (Err (''channel '' @ c @ '' is not in OpeningFromSwap state''), m)
      | Some OpeningFailed \<Rightarrow> (Err (''channel '' @ c @ '' is not in OpeningFromSwap state''), m)
      | Some _ \<Rightarrow>
          (case mc_funding m c of
             None \<Rightarrow> (Err (''channel '' @ c @ '' has corrupt completed funding state''), m)
           | Some funding \<Rightarrow>
               if cf_funding_proofs_json funding = proofs then (Ok (), m)
               else (Err (''channel '' @ c @ '' was completed with different funding proofs''), m)))"

definition mc_get_opening_from_swap ::
  "MemoryClientStorage \<Rightarrow> channel_id \<Rightarrow> (string, ClientChannelOpeningFromSwap option) result" where
  "mc_get_opening_from_swap m c =
     (if mc_states m c \<noteq> Some OpeningFromSwap then Ok None
      else rbind (ok_or (''channel '' @ c @ '' has corrupt OpeningFromSwap state'') (mc_opening m c)) (\<lambda>opening. Ok (Some opening)))"

definition mc_set_opening_failed :: "channel_id \<Rightarrow> ClientOpeningFailure \<Rightarrow> MemoryClientStorage update" where
  "mc_set_opening_failed c failure m =
     (if mc_opening m c = None then (Err (''channel '' @ c @ '' is not in OpeningFromSwap state''), m)
      else (Ok (), m\<lparr>mc_failures := (mc_failures m)(c \<mapsto> failure), mc_states := (mc_states m)(c \<mapsto> OpeningFailed)\<rparr>))"

definition mc_get_opening_failure :: "MemoryClientStorage \<Rightarrow> channel_id \<Rightarrow> ClientOpeningFailure option" where
  "mc_get_opening_failure m c = (if mc_states m c \<noteq> Some OpeningFailed then None else mc_failures m c)"

definition mc_save_payment_state :: "channel_id \<Rightarrow> ClientPaymentState \<Rightarrow> MemoryClientStorage update" where
  "mc_save_payment_state c p m = (Ok (), m\<lparr>mc_payments := (mc_payments m)(c \<mapsto> p)\<rparr>)"

definition mc_set_closed :: "channel_id \<Rightarrow> MemoryClientStorage update" where
  "mc_set_closed c m = (Ok (), m\<lparr>mc_states := (mc_states m)(c \<mapsto> ClientClosed)\<rparr>)"

definition mc_set_closing :: "channel_id \<Rightarrow> MemoryClientStorage update" where
  "mc_set_closing c m = (Ok (), m\<lparr>mc_states := (mc_states m)(c \<mapsto> ClientClosing)\<rparr>)"

definition mc_list_channel_ids :: "MemoryClientStorage \<Rightarrow> channel_id set" where
  "mc_list_channel_ids m = set (map fst (mc_openings m)) \<union> set (map fst (mc_fundings m))"

definition mc_delete :: "channel_id \<Rightarrow> MemoryClientStorage update" where
  "mc_delete c m =
     (Ok (), m\<lparr>mc_openings := AList.delete c (mc_openings m), mc_fundings := AList.delete c (mc_fundings m),
               mc_payments := (mc_payments m)(c := None), mc_failures := (mc_failures m)(c := None),
               mc_states := (mc_states m)(c := None)\<rparr>)"

definition mc_get_keyset :: "MemoryClientStorage \<Rightarrow> string \<Rightarrow> key_id \<Rightarrow> ClientKeysetCacheEntry option" where
  "mc_get_keyset m mint_url kid = map_of (mc_keysets m) (mint_url, kid)"

definition mc_set_keyset :: "string \<Rightarrow> key_id \<Rightarrow> ClientKeysetCacheEntry \<Rightarrow> MemoryClientStorage update" where
  "mc_set_keyset mint_url kid entry m =
     (Ok (), m\<lparr>mc_keysets := AList.update (mint_url, kid) entry (mc_keysets m)\<rparr>)"

definition mc_get_active_keyset_ids :: "MemoryClientStorage \<Rightarrow> string \<Rightarrow> currency_unit \<Rightarrow> key_id list" where
  "mc_get_active_keyset_ids m mint_url u =
     List.map_filter (\<lambda>((mt, kid), entry). if mt = mint_url \<and> ce_active entry \<and> ce_unit entry = u then Some kid else None)
       (mc_keysets m)"

definition mc_list_keysets_for_unit ::
  "MemoryClientStorage \<Rightarrow> string \<Rightarrow> currency_unit \<Rightarrow> (key_id \<times> ClientKeysetCacheEntry) list" where
  "mc_list_keysets_for_unit m mint_url u =
     List.map_filter (\<lambda>((mt, kid), entry). if mt = mint_url \<and> ce_unit entry = u then Some (kid, entry) else None)
       (mc_keysets m)"

definition memory_client_storage :: "MemoryClientStorage ClientStorage" where
  "memory_client_storage =
     \<lparr>cst_save_opening_from_swap = mc_save_opening_from_swap, cst_set_open = mc_set_open,
      cst_get_opening_from_swap = mc_get_opening_from_swap, cst_set_opening_failed = mc_set_opening_failed,
      cst_get_opening_failure = mc_get_opening_failure, cst_get_funding = mc_funding,
      cst_get_payment_state = mc_payments, cst_save_payment_state = mc_save_payment_state,
      cst_get_state = mc_states, cst_set_closed = mc_set_closed, cst_set_closing = mc_set_closing,
      cst_list_channel_ids = mc_list_channel_ids, cst_delete = mc_delete, cst_get_keyset = mc_get_keyset,
      cst_set_keyset = mc_set_keyset, cst_get_active_keyset_ids = mc_get_active_keyset_ids,
      cst_list_keysets_for_unit = mc_list_keysets_for_unit\<rparr>"

section \<open>The contract\<close>

datatype client_phase =
    Absent
  | Pending ClientChannelOpeningFromSwap
  | Rejected ClientChannelOpeningFromSwap ClientOpeningFailure
  | Funded ClientChannelState ClientChannelFunding

record client_view =
  w_phase :: client_phase
  w_payment :: "ClientPaymentState option"

fun phase_state :: "client_phase \<Rightarrow> ClientChannelState option" where
  "phase_state Absent = None"
| "phase_state (Pending _) = Some OpeningFromSwap"
| "phase_state (Rejected _ _) = Some OpeningFailed"
| "phase_state (Funded st _) = Some st"

fun phase_opening :: "client_phase \<Rightarrow> ClientChannelOpeningFromSwap option" where
  "phase_opening (Pending opening) = Some opening"
| "phase_opening _ = None"

fun phase_failure :: "client_phase \<Rightarrow> ClientOpeningFailure option" where
  "phase_failure (Rejected _ failure) = Some failure"
| "phase_failure _ = None"

fun phase_funding :: "client_phase \<Rightarrow> ClientChannelFunding option" where
  "phase_funding (Funded _ funding) = Some funding"
| "phase_funding _ = None"

text \<open>The operations that change the storage, and the channel each one is about.\<close>

datatype client_op =
    SaveOpening channel_id ClientChannelOpeningFromSwap
  | SetOpen channel_id string
  | SetOpeningFailed channel_id ClientOpeningFailure
  | SavePayment channel_id ClientPaymentState
  | SetClosed channel_id
  | SetClosing channel_id
  | DeleteChannel channel_id
  | CacheKeyset string key_id ClientKeysetCacheEntry

fun run_client_op :: "'s ClientStorage \<Rightarrow> client_op \<Rightarrow> 's update" where
  "run_client_op S (SaveOpening c opening) = cst_save_opening_from_swap S c opening"
| "run_client_op S (SetOpen c proofs) = cst_set_open S c proofs"
| "run_client_op S (SetOpeningFailed c failure) = cst_set_opening_failed S c failure"
| "run_client_op S (SavePayment c p) = cst_save_payment_state S c p"
| "run_client_op S (SetClosed c) = cst_set_closed S c"
| "run_client_op S (SetClosing c) = cst_set_closing S c"
| "run_client_op S (DeleteChannel c) = cst_delete S c"
| "run_client_op S (CacheKeyset mint_url kid entry) = cst_set_keyset S mint_url kid entry"

fun client_op_channel :: "client_op \<Rightarrow> channel_id option" where
  "client_op_channel (SaveOpening c opening) = Some c"
| "client_op_channel (SetOpen c proofs) = Some c"
| "client_op_channel (SetOpeningFailed c failure) = Some c"
| "client_op_channel (SavePayment c p) = Some c"
| "client_op_channel (SetClosed c) = Some c"
| "client_op_channel (SetClosing c) = Some c"
| "client_op_channel (DeleteChannel c) = Some c"
| "client_op_channel (CacheKeyset mint_url kid entry) = None"

text \<open>Where the documentation fixes the outcome of a call.\<close>

fun documented :: "client_op \<Rightarrow> client_phase \<Rightarrow> bool" where
  "documented (SetOpeningFailed c failure) (Rejected opening failure') = False"
| "documented (SavePayment c p) Absent = False"
| "documented (SetClosed c) (Funded st funding) = (st \<noteq> ClientClosed)"
| "documented (SetClosed c) _ = False"
| "documented (SetClosing c) (Funded st funding) = (st \<noteq> ClientClosed)"
| "documented (SetClosing c) _ = False"
| "documented _ _ = True"

text \<open>What a call makes of a channel: \<open>None\<close> when it is refused.\<close>

fun next_phase :: "client_op \<Rightarrow> client_phase \<Rightarrow> client_phase option" where
  "next_phase (SaveOpening c opening) Absent = Some (Pending opening)"
| "next_phase (SaveOpening c opening) (Pending opening') = (if opening' = opening then Some (Pending opening) else None)"
| "next_phase (SaveOpening c opening) (Rejected opening' _) = (if opening' = opening then Some (Pending opening) else None)"
| "next_phase (SaveOpening c opening) (Funded _ _) = None"
| "next_phase (SetOpen c proofs) (Pending opening) = Some (Funded ClientOpen (opening_funding opening proofs))"
| "next_phase (SetOpen c proofs) (Funded st funding) =
     (if cf_funding_proofs_json funding = proofs then Some (Funded st funding) else None)"
| "next_phase (SetOpen c proofs) _ = None"
| "next_phase (SetOpeningFailed c failure) (Pending opening) = Some (Rejected opening failure)"
| "next_phase (SetOpeningFailed c failure) _ = None"
| "next_phase (SetClosed c) (Funded _ funding) = Some (Funded ClientClosed funding)"
| "next_phase (SetClosing c) (Funded _ funding) = Some (Funded ClientClosing funding)"
| "next_phase (DeleteChannel c) _ = Some Absent"
| "next_phase _ phase = Some phase"

fun next_payment :: "client_op \<Rightarrow> ClientPaymentState option \<Rightarrow> ClientPaymentState option" where
  "next_payment (SavePayment c p) _ = Some p"
| "next_payment (DeleteChannel c) _ = None"
| "next_payment _ payment = payment"

definition client_step :: "client_op \<Rightarrow> client_view \<Rightarrow> client_view option" where
  "client_step op w = map_option (\<lambda>phase. \<lparr>w_phase = phase, w_payment = next_payment op (w_payment w)\<rparr>) (next_phase op (w_phase w))"

definition documented_in :: "client_op \<Rightarrow> (channel_id \<Rightarrow> client_view) \<Rightarrow> bool" where
  "documented_in op w = (case client_op_channel op of None \<Rightarrow> True | Some c \<Rightarrow> documented op (w_phase (w c)))"

definition spec_client_step :: "client_op \<Rightarrow> (channel_id \<Rightarrow> client_view) \<Rightarrow> (channel_id \<Rightarrow> client_view) option" where
  "spec_client_step op w =
     (case client_op_channel op of
        None \<Rightarrow> Some w
      | Some c \<Rightarrow> map_option (\<lambda>v. w(c := v)) (client_step op (w c)))"

text \<open>Calls one after the other, with their results.\<close>

primrec run_client_ops :: "'s ClientStorage \<Rightarrow> client_op list \<Rightarrow> 's \<Rightarrow> bool list \<times> 's" where
  "run_client_ops S [] s = ([], s)"
| "run_client_ops S (op # ops) s =
     (case run_client_op S op s of (r, s1) \<Rightarrow> (case run_client_ops S ops s1 of (rs, s2) \<Rightarrow> (is_ok r # rs, s2)))"

primrec spec_client_ops :: "client_op list \<Rightarrow> (channel_id \<Rightarrow> client_view) \<Rightarrow> bool list \<times> (channel_id \<Rightarrow> client_view)" where
  "spec_client_ops [] w = ([], w)"
| "spec_client_ops (op # ops) w =
     (case spec_client_step op w of
        None \<Rightarrow> (case spec_client_ops ops w of (rs, w2) \<Rightarrow> (False # rs, w2))
      | Some w1 \<Rightarrow> (case spec_client_ops ops w1 of (rs, w2) \<Rightarrow> (True # rs, w2)))"

primrec documented_run :: "client_op list \<Rightarrow> (channel_id \<Rightarrow> client_view) \<Rightarrow> bool" where
  "documented_run [] w = True"
| "documented_run (op # ops) w =
     (documented_in op w \<and> documented_run ops (case spec_client_step op w of None \<Rightarrow> w | Some w1 \<Rightarrow> w1))"

locale client_store =
  fixes S :: "'s ClientStorage" and ok :: "'s \<Rightarrow> bool" and V :: "'s \<Rightarrow> channel_id \<Rightarrow> client_view"
  assumes shows_state: "ok s \<Longrightarrow> cst_get_state S s c = phase_state (w_phase (V s c))"
    and shows_opening: "ok s \<Longrightarrow> cst_get_opening_from_swap S s c = Ok (phase_opening (w_phase (V s c)))"
    and shows_failure: "ok s \<Longrightarrow> cst_get_opening_failure S s c = phase_failure (w_phase (V s c))"
    and shows_funding: "ok s \<Longrightarrow> cst_get_funding S s c = phase_funding (w_phase (V s c))"
    and shows_payment: "ok s \<Longrightarrow> cst_get_payment_state S s c = w_payment (V s c)"
    and lists_channels: "ok s \<Longrightarrow> cst_list_channel_ids S s = {c. w_phase (V s c) \<noteq> Absent}"
    and follows: "ok s \<Longrightarrow> documented_in op (V s) \<Longrightarrow> run_client_op S op s = (r, s') \<Longrightarrow>
      ok s' \<and> (case spec_client_step op (V s) of None \<Rightarrow> \<not> is_ok r \<and> V s' = V s | Some w \<Rightarrow> is_ok r \<and> V s' = w)"
begin

lemma follows_run:
  assumes "ok s" "documented_run ops (V s)" "run_client_ops S ops s = (rs, s')"
  shows "ok s' \<and> spec_client_ops ops (V s) = (rs, V s')"
  using assms
proof (induction ops arbitrary: s rs s')
  case (Cons op ops)
  obtain r s1 where r: "run_client_op S op s = (r, s1)" by (cases "run_client_op S op s")
  obtain rs1 where rs1: "run_client_ops S ops s1 = (rs1, s')" "rs = is_ok r # rs1"
    using Cons.prems(3) r by (auto split: prod.splits)
  have f: "ok s1" "case spec_client_step op (V s) of None \<Rightarrow> \<not> is_ok r \<and> V s1 = V s | Some w \<Rightarrow> is_ok r \<and> V s1 = w"
    using follows [OF Cons.prems(1) _ r] Cons.prems(2) by auto
  then have "documented_run ops (V s1)" using Cons.prems(2) by (auto split: option.splits)
  from Cons.IH [OF f(1) this rs1(1)] f(2) show ?case
    using rs1(2) by (auto split: option.splits prod.splits)
qed simp

end

text \<open>Along documented calls the funding of a channel stays what it was, and the channel only closes, until it is deleted.\<close>

fun closing_rank :: "ClientChannelState \<Rightarrow> nat" where
  "closing_rank ClientClosing = 1"
| "closing_rank ClientClosed = 2"
| "closing_rank _ = 0"

lemma next_phase_funded:
  assumes "documented op (Funded st funding)" "next_phase op (Funded st funding) = Some phase" "\<And>c. op \<noteq> DeleteChannel c"
  shows "\<exists>st'. phase = Funded st' funding \<and> closing_rank st \<le> closing_rank st'"
  using assms by (cases op; cases st) (auto split: if_splits)

lemma spec_step_funded:
  assumes "w_phase (w c) = Funded st funding" "documented_in op w" "spec_client_step op w = Some w'" "op \<noteq> DeleteChannel c"
  shows "\<exists>st'. w_phase (w' c) = Funded st' funding \<and> closing_rank st \<le> closing_rank st'"
proof (cases "client_op_channel op = Some c")
  case True
  then obtain phase where ph: "next_phase op (Funded st funding) = Some phase" "w_phase (w' c) = phase"
    using assms(1,3) by (auto simp: spec_client_step_def client_step_def)
  have "documented op (Funded st funding)" using True assms(1,2) by (simp add: documented_in_def)
  from next_phase_funded [OF this ph(1)] show ?thesis
    using True assms(4) ph(2) by (cases op) auto
next
  case False
  then have "w' c = w c" using assms(3) by (auto simp: spec_client_step_def split: option.splits)
  then show ?thesis using assms(1) by simp
qed

lemma spec_ops_funded:
  assumes "w_phase (w c) = Funded st funding" "documented_run ops w" "DeleteChannel c \<notin> set ops" "spec_client_ops ops w = (rs, w')"
  shows "\<exists>st'. w_phase (w' c) = Funded st' funding \<and> closing_rank st \<le> closing_rank st'"
  using assms
proof (induction ops arbitrary: w st rs)
  case (Cons op ops)
  show ?case
  proof (cases "spec_client_step op w")
    case None
    then show ?thesis using Cons.IH [of w st] Cons.prems by (auto split: prod.splits)
  next
    case (Some w1)
    obtain st1 where st1: "w_phase (w1 c) = Funded st1 funding" "closing_rank st \<le> closing_rank st1"
      using spec_step_funded [OF Cons.prems(1) _ Some] Cons.prems(2,3) by auto
    then show ?thesis
      using Cons.IH [of w1 st1] st1(1) Cons.prems(2-4) Some by (auto split: prod.splits intro: order_trans)
  qed
qed auto

section \<open>The in-memory storage keeps the contract\<close>

definition mc_phase :: "MemoryClientStorage \<Rightarrow> channel_id \<Rightarrow> client_phase" where
  "mc_phase m c =
     (case mc_states m c of
        None \<Rightarrow> Absent
      | Some OpeningFromSwap \<Rightarrow> Pending (the (mc_opening m c))
      | Some OpeningFailed \<Rightarrow> Rejected (the (mc_opening m c)) (the (mc_failures m c))
      | Some st \<Rightarrow> Funded st (the (mc_funding m c)))"

definition mc_view :: "MemoryClientStorage \<Rightarrow> channel_id \<Rightarrow> client_view" where
  "mc_view m c = \<lparr>w_phase = mc_phase m c, w_payment = mc_payments m c\<rparr>"

text \<open>The maps agree with the lifecycle state of every channel.\<close>

definition mc_channel_ok :: "MemoryClientStorage \<Rightarrow> channel_id \<Rightarrow> bool" where
  "mc_channel_ok m c =
     (case mc_states m c of
        None \<Rightarrow> mc_opening m c = None \<and> mc_funding m c = None
      | Some OpeningFromSwap \<Rightarrow> mc_opening m c \<noteq> None \<and> mc_funding m c = None
      | Some OpeningFailed \<Rightarrow> mc_opening m c \<noteq> None \<and> mc_funding m c = None \<and> mc_failures m c \<noteq> None
      | Some st \<Rightarrow> mc_opening m c = None \<and> mc_funding m c \<noteq> None)"

definition memory_client_ok :: "MemoryClientStorage \<Rightarrow> bool" where
  "memory_client_ok m \<longleftrightarrow> (\<forall>c. mc_channel_ok m c)"

lemmas mc_ops = mc_save_opening_from_swap_def mc_set_open_def mc_set_opening_failed_def mc_save_payment_state_def
  mc_set_closed_def mc_set_closing_def mc_delete_def mc_set_keyset_def AList.update_conv' AList.delete_conv'

lemma memory_client_storage_simps [simp]:
  "cst_save_opening_from_swap memory_client_storage = mc_save_opening_from_swap"
  "cst_set_open memory_client_storage = mc_set_open"
  "cst_get_opening_from_swap memory_client_storage = mc_get_opening_from_swap"
  "cst_set_opening_failed memory_client_storage = mc_set_opening_failed"
  "cst_get_opening_failure memory_client_storage = mc_get_opening_failure"
  "cst_get_funding memory_client_storage = mc_funding" "cst_get_payment_state memory_client_storage = mc_payments"
  "cst_save_payment_state memory_client_storage = mc_save_payment_state" "cst_get_state memory_client_storage = mc_states"
  "cst_set_closed memory_client_storage = mc_set_closed" "cst_set_closing memory_client_storage = mc_set_closing"
  "cst_list_channel_ids memory_client_storage = mc_list_channel_ids" "cst_delete memory_client_storage = mc_delete"
  "cst_set_keyset memory_client_storage = mc_set_keyset"
  by (simp_all add: memory_client_storage_def)

text \<open>An operation leaves the other channels alone.\<close>

lemma mc_other_channel:
  assumes "run_client_op memory_client_storage op m = (r, m')" "client_op_channel op \<noteq> Some c"
  shows "mc_view m' c = mc_view m c \<and> mc_channel_ok m' c = mc_channel_ok m c"
  using assms
  by (cases op) (auto simp: mc_ops mc_view_def mc_phase_def mc_channel_ok_def eq_commute [of _ m']
      split: option.splits ClientChannelState.splits if_splits)

lemma mc_own_channel:
  assumes "run_client_op memory_client_storage op m = (r, m')" "client_op_channel op = Some c"
    "mc_channel_ok m c" "documented op (mc_phase m c)"
  shows "mc_channel_ok m' c \<and>
    (case client_step op (mc_view m c) of None \<Rightarrow> \<not> is_ok r \<and> m' = m | Some v \<Rightarrow> is_ok r \<and> mc_view m' c = v)"
proof (cases "mc_states m c")
  case None
  then show ?thesis using assms
    by (cases op) (auto simp: mc_ops mc_view_def mc_phase_def mc_channel_ok_def client_step_def)
next
  case (Some st)
  then show ?thesis using assms
    by (cases op; cases st) (auto simp: mc_ops mc_view_def mc_phase_def mc_channel_ok_def client_step_def split: if_splits)
qed

lemma memory_follows:
  assumes "memory_client_ok m" "documented_in op (mc_view m)" "run_client_op memory_client_storage op m = (r, m')"
  shows "memory_client_ok m' \<and>
    (case spec_client_step op (mc_view m) of None \<Rightarrow> \<not> is_ok r \<and> mc_view m' = mc_view m | Some w \<Rightarrow> is_ok r \<and> mc_view m' = w)"
proof (cases "client_op_channel op")
  case None
  then have "is_ok r" using assms(3) by (cases op) (auto simp: mc_ops)
  moreover have "mc_view m' c = mc_view m c \<and> mc_channel_ok m' c = mc_channel_ok m c" for c
    using mc_other_channel [OF assms(3), of c] None by simp
  ultimately show ?thesis using assms(1) None by (auto simp: spec_client_step_def memory_client_ok_def)
next
  case (Some c)
  have other: "mc_view m' d = mc_view m d \<and> mc_channel_ok m' d = mc_channel_ok m d" if "d \<noteq> c" for d
    using mc_other_channel [OF assms(3), of d] Some that by simp
  have own: "mc_channel_ok m' c \<and>
    (case client_step op (mc_view m c) of None \<Rightarrow> \<not> is_ok r \<and> m' = m | Some v \<Rightarrow> is_ok r \<and> mc_view m' c = v)"
    using mc_own_channel [OF assms(3) Some] assms(1,2) Some by (simp add: memory_client_ok_def documented_in_def mc_view_def)
  have "mc_channel_ok m' d" for d using own other [of d] assms(1) by (cases "d = c") (auto simp: memory_client_ok_def)
  moreover have "mc_view m' = (mc_view m)(c := mc_view m' c)" using other by auto
  ultimately show ?thesis using own Some by (auto simp: spec_client_step_def memory_client_ok_def split: option.splits)
qed

interpretation mem_client: client_store memory_client_storage memory_client_ok mc_view
proof unfold_locales
  fix m :: MemoryClientStorage and c
  assume "memory_client_ok m"
  then have ok: "mc_channel_ok m d" for d by (simp add: memory_client_ok_def)
  show "cst_get_state memory_client_storage m c = phase_state (w_phase (mc_view m c))"
    by (simp add: mc_view_def mc_phase_def split: option.splits ClientChannelState.splits)
  show "cst_get_opening_from_swap memory_client_storage m c = Ok (phase_opening (w_phase (mc_view m c)))"
    using ok [of c] by (auto simp: mc_get_opening_from_swap_def mc_view_def mc_phase_def mc_channel_ok_def split: option.splits ClientChannelState.splits)
  show "cst_get_opening_failure memory_client_storage m c = phase_failure (w_phase (mc_view m c))"
    using ok [of c] by (auto simp: mc_get_opening_failure_def mc_view_def mc_phase_def mc_channel_ok_def split: option.splits ClientChannelState.splits)
  show "cst_get_funding memory_client_storage m c = phase_funding (w_phase (mc_view m c))"
    using ok [of c] by (auto simp: mc_view_def mc_phase_def mc_channel_ok_def split: option.splits ClientChannelState.splits)
  show "cst_get_payment_state memory_client_storage m c = w_payment (mc_view m c)" by (simp add: mc_view_def)
  have "d \<in> mc_list_channel_ids m \<longleftrightarrow> mc_opening m d \<noteq> None \<or> mc_funding m d \<noteq> None" for d
    by (simp add: mc_list_channel_ids_def map_of_eq_None_iff)
  then have "d \<in> mc_list_channel_ids m \<longleftrightarrow> w_phase (mc_view m d) \<noteq> Absent" for d
    using ok [of d] by (auto simp: mc_view_def mc_phase_def mc_channel_ok_def split: option.splits ClientChannelState.splits)
  then show "cst_list_channel_ids memory_client_storage m = {c. w_phase (mc_view m c) \<noteq> Absent}" by auto
qed (rule memory_follows)

lemma memory_client_new_ok: "memory_client_ok memory_client_new" "mc_view memory_client_new c = \<lparr>w_phase = Absent, w_payment = None\<rparr>"
  by (simp_all add: memory_client_ok_def mc_channel_ok_def memory_client_new_def mc_view_def mc_phase_def)

end
