(* ===== verification/SqliteClientStorage.thy ===== *)
theory SqliteClientStorage
  imports ClientStorage SqliteStorage
begin

text \<open>
  The SQLite implementation of the client's storage, \<open>SqliteClientStorage\<close> in
  \<open>crates/cdk-spilman/src/sqlite_client_storage.rs\<close>.

  As for the receiver's database, a table is a map from its primary key, and a statement changes
  a row exactly when its \<open>WHERE\<close> clause holds.  The keyset table is a list in the order of its row ids, because
  its queries sort by the time a row was written and then by row id; replacing a row deletes it and appends
  another.  The time of the database's clock is an argument.  A table in which a statement fails is not modelled.

  Two results stand beside the contract: no sequence of calls, documented or not, makes a row that the reads
  report as corrupt, and the SQLite and the in-memory storage cannot be told apart by documented calls.
\<close>

section \<open>Tables\<close>

record 'j client_row =
  qr_state :: string
  qr_opening_json :: "'j option"
  qr_funding_json :: "'j option"
  qr_payment_json :: "'j option"
  qr_failure_json :: "'j option"

record client_keyset_row =
  qk_mint_url :: string
  qk_keyset_id :: string
  qk_unit :: string
  qk_active :: int
  qk_info_json :: string
  qk_fetched_at :: int

record 'j SqliteClientStorage =
  qc_rows :: "(channel_id \<times> 'j client_row) list"
  qc_keysets :: "client_keyset_row list"

abbreviation qc_channels :: "'j SqliteClientStorage \<Rightarrow> channel_id \<rightharpoonup> 'j client_row" where
  "qc_channels db \<equiv> map_of (qc_rows db)"

text \<open>The derived encoders and decoders of the stored values.\<close>

record 'j client_codec =
  print_opening :: "ClientChannelOpeningFromSwap \<Rightarrow> 'j"
  parse_opening :: "'j \<Rightarrow> (string, ClientChannelOpeningFromSwap) result"
  print_client_funding :: "ClientChannelFunding \<Rightarrow> 'j"
  parse_client_funding :: "'j \<Rightarrow> (string, ClientChannelFunding) result"
  print_payment_state :: "ClientPaymentState \<Rightarrow> 'j"
  parse_payment_state :: "'j \<Rightarrow> (string, ClientPaymentState) result"
  print_failure :: "ClientOpeningFailure \<Rightarrow> 'j"
  parse_failure :: "'j \<Rightarrow> (string, ClientOpeningFailure) result"

definition client_codec_faithful :: "'j client_codec \<Rightarrow> bool" where
  "client_codec_faithful K \<longleftrightarrow>
     (\<forall>x. parse_opening K (print_opening K x) = Ok x) \<and> (\<forall>x. parse_client_funding K (print_client_funding K x) = Ok x) \<and>
     (\<forall>x. parse_payment_state K (print_payment_state K x) = Ok x) \<and> (\<forall>x. parse_failure K (print_failure K x) = Ok x)"

definition client_init_schema :: "'j SqliteClientStorage" where
  "client_init_schema = \<lparr>qc_rows = [], qc_keysets = []\<rparr>"

fun state_to_string :: "ClientChannelState \<Rightarrow> string" where
  "state_to_string OpeningFromSwap = ''OpeningFromSwap''"
| "state_to_string OpeningFailed = ''OpeningFailed''"
| "state_to_string ClientOpen = ''Open''"
| "state_to_string ClientClosing = ''Closing''"
| "state_to_string ClientClosed = ''Closed''"

definition state_from_string :: "string \<Rightarrow> ClientChannelState option" where
  "state_from_string t =
     (if t = ''OpeningFromSwap'' then Some OpeningFromSwap
      else if t = ''OpeningFailed'' then Some OpeningFailed
      else if t = ''Open'' then Some ClientOpen
      else if t = ''Closing'' then Some ClientClosing
      else if t = ''Closed'' then Some ClientClosed
      else None)"

section \<open>Operations\<close>

definition qc_put :: "channel_id \<Rightarrow> 'j client_row \<Rightarrow> 'j SqliteClientStorage \<Rightarrow> 'j SqliteClientStorage" where
  "qc_put c row db = db\<lparr>qc_rows := AList.update c row (qc_rows db)\<rparr>"

definition qc_save_opening_from_swap ::
  "'j client_codec \<Rightarrow> channel_id \<Rightarrow> ClientChannelOpeningFromSwap \<Rightarrow> 'j SqliteClientStorage update" where
  "qc_save_opening_from_swap K c opening db =
     (case qc_channels db c of
        None \<Rightarrow>
          (Ok (), qc_put c \<lparr>qr_state = state_to_string OpeningFromSwap, qr_opening_json = Some (print_opening K opening),
             qr_funding_json = None, qr_payment_json = None, qr_failure_json = None\<rparr> db)
      | Some row \<Rightarrow>
          (case (qr_state row \<in> {''OpeningFromSwap'', ''OpeningFailed''}, qr_opening_json row) of
             (True, Some existing_json) \<Rightarrow>
               (case parse_opening K existing_json of
                  Err e \<Rightarrow> (Err (''save_opening_from_swap: corrupt existing opening: '' @ e), db)
                | Ok existing \<Rightarrow>
                    if existing \<noteq> opening then (Err (''channel '' @ c @ '' already exists with different opening''), db)
                    else (Ok (), qc_put c (row\<lparr>qr_state := state_to_string OpeningFromSwap, qr_failure_json := None\<rparr>) db))
           | _ \<Rightarrow> (Err (''channel '' @ c @ '' already exists with different opening or lifecycle state''), db)))"

definition qc_set_open :: "'j client_codec \<Rightarrow> channel_id \<Rightarrow> string \<Rightarrow> 'j SqliteClientStorage update" where
  "qc_set_open K c proofs db =
     (case qc_channels db c of
        None \<Rightarrow> (Err (''channel '' @ c @ '' is not in OpeningFromSwap state''), db)
      | Some row \<Rightarrow>
          if qr_state row \<in> {''Open'', ''Closing'', ''Closed''}
          then
            (case rbind (ok_or (''channel '' @ c @ '' has corrupt completed funding state'') (qr_funding_json row)) (\<lambda>j.
                  rbind (map_err (\<lambda>e. ''set_open: corrupt completed funding: '' @ e) (parse_client_funding K j)) (\<lambda>funding.
                  if cf_funding_proofs_json funding = proofs then Ok ()
                  else Err (''channel '' @ c @ '' was completed with different funding proofs''))) of
               r \<Rightarrow> (r, db))
          else if qr_state row \<noteq> state_to_string OpeningFromSwap
          then (Err (''channel '' @ c @ '' is not in OpeningFromSwap state''), db)
          else
            (case rbind (ok_or (''channel '' @ c @ '' has corrupt OpeningFromSwap state'') (qr_opening_json row)) (\<lambda>j.
                  map_err (\<lambda>e. ''set_open: deserialize opening: '' @ e) (parse_opening K j)) of
               Err e \<Rightarrow> (Err e, db)
             | Ok opening \<Rightarrow>
                 (Ok (), qc_put c (row\<lparr>qr_state := state_to_string ClientOpen, qr_opening_json := None,
                    qr_funding_json := Some (print_client_funding K (opening_funding opening proofs)),
                    qr_failure_json := None\<rparr>) db)))"

definition qc_get_opening_from_swap ::
  "'j client_codec \<Rightarrow> 'j SqliteClientStorage \<Rightarrow> channel_id \<Rightarrow> (string, ClientChannelOpeningFromSwap option) result" where
  "qc_get_opening_from_swap K db c =
     (case qc_channels db c of
        None \<Rightarrow> Ok None
      | Some row \<Rightarrow>
          if qr_state row \<noteq> state_to_string OpeningFromSwap then Ok None
          else rbind (ok_or (''channel '' @ c @ '' has corrupt OpeningFromSwap state'') (qr_opening_json row)) (\<lambda>j.
               rbind (map_err (\<lambda>e. ''get_opening_from_swap: deserialize opening: '' @ e) (parse_opening K j)) (\<lambda>opening.
               Ok (Some opening))))"

definition qc_set_opening_failed ::
  "'j client_codec \<Rightarrow> channel_id \<Rightarrow> ClientOpeningFailure \<Rightarrow> 'j SqliteClientStorage update" where
  "qc_set_opening_failed K c failure db =
     (case qc_channels db c of
        Some row \<Rightarrow>
          if qr_state row = state_to_string OpeningFromSwap
          then (Ok (), qc_put c (row\<lparr>qr_state := state_to_string OpeningFailed,
                 qr_failure_json := Some (print_failure K failure)\<rparr>) db)
          else (Err (''channel '' @ c @ '' is not in OpeningFromSwap state''), db)
      | None \<Rightarrow> (Err (''channel '' @ c @ '' is not in OpeningFromSwap state''), db))"

definition qc_get_opening_failure ::
  "'j client_codec \<Rightarrow> 'j SqliteClientStorage \<Rightarrow> channel_id \<Rightarrow> ClientOpeningFailure option" where
  "qc_get_opening_failure K db c =
     (case qc_channels db c of
        None \<Rightarrow> None
      | Some row \<Rightarrow>
          if qr_state row = state_to_string OpeningFailed
          then (case qr_failure_json row of None \<Rightarrow> None | Some j \<Rightarrow> result_option (parse_failure K j)) else None)"

definition qc_get_funding :: "'j client_codec \<Rightarrow> 'j SqliteClientStorage \<Rightarrow> channel_id \<Rightarrow> ClientChannelFunding option" where
  "qc_get_funding K db c =
     (case qc_channels db c of
        None \<Rightarrow> None
      | Some row \<Rightarrow>
          if qr_state row \<in> {''Open'', ''Closing'', ''Closed''}
          then (case qr_funding_json row of None \<Rightarrow> None | Some j \<Rightarrow> result_option (parse_client_funding K j)) else None)"

definition qc_get_payment_state :: "'j client_codec \<Rightarrow> 'j SqliteClientStorage \<Rightarrow> channel_id \<Rightarrow> ClientPaymentState option" where
  "qc_get_payment_state K db c =
     (case qc_channels db c of
        None \<Rightarrow> None
      | Some row \<Rightarrow> (case qr_payment_json row of None \<Rightarrow> None | Some j \<Rightarrow> result_option (parse_payment_state K j)))"

definition qc_save_payment_state :: "'j client_codec \<Rightarrow> channel_id \<Rightarrow> ClientPaymentState \<Rightarrow> 'j SqliteClientStorage update" where
  "qc_save_payment_state K c p db =
     (case qc_channels db c of
        None \<Rightarrow> (Err (''channel not found: '' @ c), db)
      | Some row \<Rightarrow> (Ok (), qc_put c (row\<lparr>qr_payment_json := Some (print_payment_state K p)\<rparr>) db))"

definition qc_get_state :: "'j SqliteClientStorage \<Rightarrow> channel_id \<Rightarrow> ClientChannelState option" where
  "qc_get_state db c = (case qc_channels db c of None \<Rightarrow> None | Some row \<Rightarrow> state_from_string (qr_state row))"

definition qc_set_closed :: "channel_id \<Rightarrow> 'j SqliteClientStorage update" where
  "qc_set_closed c db =
     (case qc_channels db c of
        Some row \<Rightarrow>
          if qr_state row \<noteq> ''Closed'' then (Ok (), qc_put c (row\<lparr>qr_state := ''Closed''\<rparr>) db)
          else (Err (''channel not found or already closed: '' @ c), db)
      | None \<Rightarrow> (Err (''channel not found or already closed: '' @ c), db))"

definition qc_set_closing :: "channel_id \<Rightarrow> 'j SqliteClientStorage update" where
  "qc_set_closing c db =
     (case qc_channels db c of
        Some row \<Rightarrow>
          if qr_state row = ''Closing'' then (Ok (), db)
          else if qr_state row = ''Open'' then (Ok (), qc_put c (row\<lparr>qr_state := ''Closing''\<rparr>) db)
          else (Err (''channel not found or not open: '' @ c), db)
      | None \<Rightarrow> (Err (''channel not found or not open: '' @ c), db))"

definition qc_list_channel_ids :: "'j SqliteClientStorage \<Rightarrow> channel_id set" where
  "qc_list_channel_ids db = set (map fst (qc_rows db))"

definition qc_delete :: "channel_id \<Rightarrow> 'j SqliteClientStorage update" where
  "qc_delete c db = (Ok (), db\<lparr>qc_rows := AList.delete c (qc_rows db)\<rparr>)"

section \<open>Cached keysets\<close>

definition keyset_row_is :: "codec \<Rightarrow> string \<Rightarrow> key_id \<Rightarrow> client_keyset_row \<Rightarrow> bool" where
  "keyset_row_is J mint_url kid row \<longleftrightarrow> qk_mint_url row = mint_url \<and> qk_keyset_id row = id_to_string J kid"

definition qc_get_keyset :: "codec \<Rightarrow> 'j SqliteClientStorage \<Rightarrow> string \<Rightarrow> key_id \<Rightarrow> ClientKeysetCacheEntry option" where
  "qc_get_keyset J db mint_url kid =
     (case filter (keyset_row_is J mint_url kid) (qc_keysets db) of
        [] \<Rightarrow> None
      | row # _ \<Rightarrow>
          map_option (\<lambda>u. \<lparr>ce_info_json = qk_info_json row, ce_active = (qk_active row \<noteq> 0), ce_unit = u\<rparr>)
            (result_option (unit_from_str J (qk_unit row))))"

definition qc_set_keyset :: "codec \<Rightarrow> int \<Rightarrow> string \<Rightarrow> key_id \<Rightarrow> ClientKeysetCacheEntry \<Rightarrow> 'j SqliteClientStorage update" where
  "qc_set_keyset J now mint_url kid entry db =
     (Ok (), db\<lparr>qc_keysets := filter (\<lambda>row. \<not> keyset_row_is J mint_url kid row) (qc_keysets db) @
        [\<lparr>qk_mint_url = mint_url, qk_keyset_id = id_to_string J kid, qk_unit = ce_unit entry,
          qk_active = (if ce_active entry then 1 else 0), qk_info_json = ce_info_json entry, qk_fetched_at = now\<rparr>]\<rparr>)"

definition qc_get_active_keyset_ids :: "codec \<Rightarrow> 'j SqliteClientStorage \<Rightarrow> string \<Rightarrow> currency_unit \<Rightarrow> key_id list" where
  "qc_get_active_keyset_ids J db mint_url u =
     List.map_filter (\<lambda>row. result_option (id_parse J (qk_keyset_id row)))
       (sort_key qk_fetched_at (filter (\<lambda>row. qk_mint_url row = mint_url \<and> qk_unit row = u \<and> qk_active row \<noteq> 0) (qc_keysets db)))"

definition qc_list_keysets_for_unit ::
  "codec \<Rightarrow> 'j SqliteClientStorage \<Rightarrow> string \<Rightarrow> currency_unit \<Rightarrow> (key_id \<times> ClientKeysetCacheEntry) list" where
  "qc_list_keysets_for_unit J db mint_url u =
     List.map_filter (\<lambda>row. map_option (\<lambda>kid. (kid, \<lparr>ce_info_json = qk_info_json row, ce_active = (qk_active row \<noteq> 0), ce_unit = u\<rparr>))
         (result_option (id_parse J (qk_keyset_id row))))
       (sort_key qk_fetched_at (filter (\<lambda>row. qk_mint_url row = mint_url \<and> qk_unit row = u) (qc_keysets db)))"

definition sqlite_client_storage :: "codec \<Rightarrow> 'j client_codec \<Rightarrow> int \<Rightarrow> 'j SqliteClientStorage ClientStorage" where
  "sqlite_client_storage J K now =
     \<lparr>cst_save_opening_from_swap = qc_save_opening_from_swap K, cst_set_open = qc_set_open K,
      cst_get_opening_from_swap = qc_get_opening_from_swap K, cst_set_opening_failed = qc_set_opening_failed K,
      cst_get_opening_failure = qc_get_opening_failure K, cst_get_funding = qc_get_funding K,
      cst_get_payment_state = qc_get_payment_state K, cst_save_payment_state = qc_save_payment_state K,
      cst_get_state = qc_get_state, cst_set_closed = qc_set_closed, cst_set_closing = qc_set_closing,
      cst_list_channel_ids = qc_list_channel_ids, cst_delete = qc_delete, cst_get_keyset = qc_get_keyset J,
      cst_set_keyset = qc_set_keyset J now, cst_get_active_keyset_ids = qc_get_active_keyset_ids J,
      cst_list_keysets_for_unit = qc_list_keysets_for_unit J\<rparr>"

section \<open>Well-typed rows\<close>

lemma state_string_roundtrip [simp]: "state_from_string (state_to_string st) = Some st"
  by (cases st) (simp_all add: state_from_string_def)

lemma state_from_string_Some: "state_from_string t = Some st \<longleftrightarrow> t = state_to_string st"
  by (cases st) (auto simp: state_from_string_def)

definition readable :: "('j \<Rightarrow> (string, 'a) result) \<Rightarrow> 'j option \<Rightarrow> bool" where
  "readable parse column = (case column of None \<Rightarrow> False | Some j \<Rightarrow> is_ok (parse j))"

text \<open>
  What each lifecycle state requires of the columns.  A closed channel has its funding, or the opening it was
  closed from before any funding arrived.
\<close>

fun columns_typed :: "'j client_codec \<Rightarrow> ClientChannelState \<Rightarrow> 'j client_row \<Rightarrow> bool" where
  "columns_typed K OpeningFromSwap row = (readable (parse_opening K) (qr_opening_json row) \<and> qr_funding_json row = None)"
| "columns_typed K OpeningFailed row =
     (readable (parse_opening K) (qr_opening_json row) \<and> qr_funding_json row = None \<and> readable (parse_failure K) (qr_failure_json row))"
| "columns_typed K ClientOpen row = (qr_opening_json row = None \<and> readable (parse_client_funding K) (qr_funding_json row))"
| "columns_typed K ClientClosing row = (qr_opening_json row = None \<and> readable (parse_client_funding K) (qr_funding_json row))"
| "columns_typed K ClientClosed row =
     ((qr_opening_json row = None \<and> readable (parse_client_funding K) (qr_funding_json row)) \<or>
      (readable (parse_opening K) (qr_opening_json row) \<and> qr_funding_json row = None))"

definition row_typed :: "'j client_codec \<Rightarrow> 'j client_row \<Rightarrow> bool" where
  "row_typed K row \<longleftrightarrow>
     (case state_from_string (qr_state row) of None \<Rightarrow> False | Some st \<Rightarrow> columns_typed K st row) \<and>
     (qr_payment_json row = None \<or> readable (parse_payment_state K) (qr_payment_json row))"

definition rows_typed :: "'j client_codec \<Rightarrow> 'j SqliteClientStorage \<Rightarrow> bool" where
  "rows_typed K db \<longleftrightarrow> (\<forall>c row. qc_channels db c = Some row \<longrightarrow> row_typed K row)"

lemmas qc_ops = qc_save_opening_from_swap_def qc_set_open_def qc_set_opening_failed_def qc_save_payment_state_def
  qc_set_closed_def qc_set_closing_def qc_delete_def qc_set_keyset_def qc_put_def AList.update_conv' AList.delete_conv'

lemma sqlite_client_storage_simps [simp]:
  "cst_save_opening_from_swap (sqlite_client_storage J K now) = qc_save_opening_from_swap K"
  "cst_set_open (sqlite_client_storage J K now) = qc_set_open K"
  "cst_get_opening_from_swap (sqlite_client_storage J K now) = qc_get_opening_from_swap K"
  "cst_set_opening_failed (sqlite_client_storage J K now) = qc_set_opening_failed K"
  "cst_get_opening_failure (sqlite_client_storage J K now) = qc_get_opening_failure K"
  "cst_get_funding (sqlite_client_storage J K now) = qc_get_funding K"
  "cst_get_payment_state (sqlite_client_storage J K now) = qc_get_payment_state K"
  "cst_save_payment_state (sqlite_client_storage J K now) = qc_save_payment_state K"
  "cst_get_state (sqlite_client_storage J K now) = qc_get_state"
  "cst_set_closed (sqlite_client_storage J K now) = qc_set_closed"
  "cst_set_closing (sqlite_client_storage J K now) = qc_set_closing"
  "cst_list_channel_ids (sqlite_client_storage J K now) = qc_list_channel_ids"
  "cst_delete (sqlite_client_storage J K now) = qc_delete"
  "cst_set_keyset (sqlite_client_storage J K now) = qc_set_keyset J now"
  by (simp_all add: sqlite_client_storage_def)

lemma qc_other_channel:
  assumes "run_client_op (sqlite_client_storage J K now) op db = (r, db')" "client_op_channel op \<noteq> Some c"
  shows "qc_channels db' c = qc_channels db c"
  using assms
  by (cases op) (auto simp: qc_ops eq_commute [of _ db'] split: option.splits if_splits sum.splits bool.splits)

lemma readable_print:
  assumes "client_codec_faithful K"
  shows "readable (parse_opening K) (Some (print_opening K x1))" "readable (parse_client_funding K) (Some (print_client_funding K x2))"
    "readable (parse_payment_state K) (Some (print_payment_state K x3))" "readable (parse_failure K) (Some (print_failure K x4))"
  using assms by (simp_all add: client_codec_faithful_def readable_def is_ok_def)

text \<open>How an operation moves a row through the lifecycle.\<close>

inductive client_row_step :: "'j client_codec \<Rightarrow> client_op \<Rightarrow> 'j client_row \<Rightarrow> 'j client_row \<Rightarrow> bool" for K where
  row_kept: "client_row_step K op row row"
| row_retried: "qr_state row \<in> {''OpeningFromSwap'', ''OpeningFailed''} \<Longrightarrow>
    client_row_step K (SaveOpening c ow) row (row\<lparr>qr_state := ''OpeningFromSwap'', qr_failure_json := None\<rparr>)"
| row_opened: "qr_state row = ''OpeningFromSwap'' \<Longrightarrow>
    client_row_step K (SetOpen c proofs) row
      (row\<lparr>qr_state := ''Open'', qr_opening_json := None,
        qr_funding_json := Some (print_client_funding K (opening_funding ow proofs)), qr_failure_json := None\<rparr>)"
| row_failed: "qr_state row = ''OpeningFromSwap'' \<Longrightarrow>
    client_row_step K (SetOpeningFailed c failure) row
      (row\<lparr>qr_state := ''OpeningFailed'', qr_failure_json := Some (print_failure K failure)\<rparr>)"
| row_paid: "client_row_step K (SavePayment c p) row (row\<lparr>qr_payment_json := Some (print_payment_state K p)\<rparr>)"
| row_closed: "qr_state row \<noteq> ''Closed'' \<Longrightarrow> client_row_step K (SetClosed c) row (row\<lparr>qr_state := ''Closed''\<rparr>)"
| row_closing: "qr_state row = ''Open'' \<Longrightarrow> client_row_step K (SetClosing c) row (row\<lparr>qr_state := ''Closing''\<rparr>)"

lemma qc_row_after:
  assumes "run_client_op (sqlite_client_storage J K now) op db = (r, db')" "client_op_channel op = Some c"
    "qc_channels db c = Some row" "qc_channels db' c = Some row'"
  shows "client_row_step K op row row'"
proof (cases op)
  case (SaveOpening c' ow)
  then show ?thesis using assms
    by (cases "qr_state row \<in> {''OpeningFromSwap'', ''OpeningFailed''}")
      (auto simp: qc_save_opening_from_swap_def qc_put_def AList.update_conv' split: option.splits sum.splits if_splits intro: client_row_step.intros)
next
  case (SetOpen c' proofs)
  then show ?thesis using assms
    by (cases "qr_state row \<in> {''Open'', ''Closing'', ''Closed''}")
      (auto simp: qc_set_open_def qc_put_def AList.update_conv' split: option.splits sum.splits if_splits intro: client_row_step.intros)
next
  case (SetOpeningFailed c' failure)
  then show ?thesis using assms
    by (auto simp: qc_set_opening_failed_def qc_put_def AList.update_conv' split: if_splits intro: client_row_step.intros)
next
  case (SavePayment c' p)
  then show ?thesis using assms by (auto simp: qc_save_payment_state_def qc_put_def AList.update_conv' intro: row_paid)
next
  case (SetClosed c')
  then show ?thesis using assms by (auto simp: qc_set_closed_def qc_put_def AList.update_conv' split: if_splits intro: client_row_step.intros)
next
  case (SetClosing c')
  then show ?thesis using assms by (auto simp: qc_set_closing_def qc_put_def AList.update_conv' split: if_splits intro: client_row_step.intros)
next
  case (DeleteChannel c')
  then show ?thesis using assms by (auto simp: qc_delete_def AList.delete_conv')
qed (use assms in auto)

lemma client_row_step_typed:
  assumes "client_row_step K op row row'" "client_codec_faithful K" "row_typed K row"
  shows "row_typed K row'"
  using assms
proof (induction rule: client_row_step.induct)
  case (row_paid c p row)
  then obtain st where "state_from_string (qr_state row) = Some st" "columns_typed K st row"
    by (auto simp: row_typed_def split: option.splits)
  then show ?case using row_paid(1) by (cases st) (simp_all add: row_typed_def readable_print)
next
  case (row_closed row c)
  then obtain st where "state_from_string (qr_state row) = Some st" "columns_typed K st row"
      "qr_payment_json row = None \<or> readable (parse_payment_state K) (qr_payment_json row)"
    by (auto simp: row_typed_def split: option.splits)
  then show ?case by (cases st) (simp_all add: row_typed_def state_from_string_def)
qed (auto simp: row_typed_def readable_print state_from_string_def)

lemma qc_own_channel_typed:
  assumes "client_codec_faithful K" "run_client_op (sqlite_client_storage J K now) op db = (r, db')" "client_op_channel op = Some c"
    "\<And>row. qc_channels db c = Some row \<Longrightarrow> row_typed K row" "qc_channels db' c = Some row'"
  shows "row_typed K row'"
proof (cases "qc_channels db c")
  case None
  then show ?thesis using assms(2,3,5) readable_print [OF assms(1)]
    by (cases op) (auto simp: qc_ops row_typed_def state_from_string_def)
next
  case (Some row)
  show ?thesis using client_row_step_typed [OF qc_row_after [OF assms(2,3) Some assms(5)] assms(1)] assms(4) Some by simp
qed

lemma qc_step_typed:
  assumes "client_codec_faithful K" "rows_typed K db" "run_client_op (sqlite_client_storage J K now) op db = (r, db')"
  shows "rows_typed K db'"
proof -
  have "row_typed K row" if "qc_channels db' c = Some row" for c row
  proof (cases "client_op_channel op = Some c")
    case True
    then show ?thesis using qc_own_channel_typed [OF assms(1,3) True _ that] assms(2) by (simp add: rows_typed_def)
  next
    case False
    then show ?thesis using qc_other_channel [OF assms(3) False] that assms(2) by (simp add: rows_typed_def)
  qed
  then show ?thesis by (simp add: rows_typed_def)
qed

lemma qc_run_typed:
  assumes "client_codec_faithful K" "rows_typed K db" "run_client_ops (sqlite_client_storage J K now) ops db = (rs, db')"
  shows "rows_typed K db'"
  using assms(2,3)
proof (induction ops arbitrary: db rs)
  case (Cons op ops)
  obtain r db1 where r: "run_client_op (sqlite_client_storage J K now) op db = (r, db1)"
    by (cases "run_client_op (sqlite_client_storage J K now) op db")
  from qc_step_typed [OF assms(1) Cons.prems(1) r] Cons.IH [of db1] Cons.prems(2) r show ?case by (auto split: prod.splits)
qed simp

section \<open>The contract holds\<close>

definition row_phase :: "'j client_codec \<Rightarrow> 'j client_row \<Rightarrow> client_phase" where
  "row_phase K row =
     (case state_from_string (qr_state row) of
        None \<Rightarrow> Absent
      | Some OpeningFromSwap \<Rightarrow> Pending (projr (parse_opening K (the (qr_opening_json row))))
      | Some OpeningFailed \<Rightarrow>
          Rejected (projr (parse_opening K (the (qr_opening_json row)))) (projr (parse_failure K (the (qr_failure_json row))))
      | Some st \<Rightarrow> Funded st (projr (parse_client_funding K (the (qr_funding_json row)))))"

definition qc_phase :: "'j client_codec \<Rightarrow> 'j SqliteClientStorage \<Rightarrow> channel_id \<Rightarrow> client_phase" where
  "qc_phase K db c = (case qc_channels db c of None \<Rightarrow> Absent | Some row \<Rightarrow> row_phase K row)"

definition qc_view :: "'j client_codec \<Rightarrow> 'j SqliteClientStorage \<Rightarrow> channel_id \<Rightarrow> client_view" where
  "qc_view K db c = \<lparr>w_phase = qc_phase K db c, w_payment = qc_get_payment_state K db c\<rparr>"

text \<open>The rows documented calls make: well typed, and a closed channel has its funding.\<close>

definition client_row_ok :: "'j client_codec \<Rightarrow> 'j client_row \<Rightarrow> bool" where
  "client_row_ok K row \<longleftrightarrow> row_typed K row \<and> (qr_state row = ''Closed'' \<longrightarrow> qr_funding_json row \<noteq> None)"

definition sqlite_client_ok :: "'j client_codec \<Rightarrow> 'j SqliteClientStorage \<Rightarrow> bool" where
  "sqlite_client_ok K db \<longleftrightarrow>
     client_codec_faithful K \<and> (\<forall>c row. qc_channels db c = Some row \<longrightarrow> client_row_ok K row)"

lemma readable_obtain:
  assumes "readable parse column"
  obtains j x where "column = Some j" "parse j = Ok x"
  using assms by (auto simp: readable_def is_ok_def split: option.splits sum.splits)

lemma client_row_cases:
  assumes "client_row_ok K row"
  obtains (pending) j ow where "qr_state row = ''OpeningFromSwap''" "qr_opening_json row = Some j" "parse_opening K j = Ok ow"
      "qr_funding_json row = None" "row_phase K row = Pending ow"
    | (rejected) j ow i f where "qr_state row = ''OpeningFailed''" "qr_opening_json row = Some j" "parse_opening K j = Ok ow"
      "qr_failure_json row = Some i" "parse_failure K i = Ok f" "qr_funding_json row = None" "row_phase K row = Rejected ow f"
    | (funded) st j f where "st \<in> {ClientOpen, ClientClosing, ClientClosed}" "qr_state row = state_to_string st"
      "qr_funding_json row = Some j" "parse_client_funding K j = Ok f" "qr_opening_json row = None" "row_phase K row = Funded st f"
proof -
  obtain st where st: "qr_state row = state_to_string st" "columns_typed K st row"
    using assms by (auto simp: client_row_ok_def row_typed_def state_from_string_Some split: option.splits)
  have closed: "st = ClientClosed \<Longrightarrow> qr_funding_json row \<noteq> None" using assms st(1) by (simp add: client_row_ok_def)
  show thesis
  proof (cases st)
    case OpeningFromSwap
    then show thesis using st pending by (auto simp: row_phase_def state_from_string_def elim!: readable_obtain)
  next
    case OpeningFailed
    then show thesis using st rejected by (auto simp: row_phase_def state_from_string_def elim!: readable_obtain)
  next
    case ClientOpen
    then show thesis using st funded [of ClientOpen] by (auto simp: row_phase_def state_from_string_def elim!: readable_obtain)
  next
    case ClientClosing
    then show thesis using st funded [of ClientClosing] by (auto simp: row_phase_def state_from_string_def elim!: readable_obtain)
  next
    case ClientClosed
    then show thesis using st funded [of ClientClosed] closed by (auto simp: row_phase_def state_from_string_def elim!: readable_obtain)
  qed
qed

lemma client_row_ok_kept:
  assumes "client_row_step K op row row'" "client_codec_faithful K" "client_row_ok K row" "documented op (row_phase K row)"
  shows "client_row_ok K row'"
proof -
  have "row_typed K row'" using client_row_step_typed assms by (auto simp: client_row_ok_def)
  moreover have "qr_funding_json row' \<noteq> None" if "qr_state row' = ''Closed''"
    using assms(1,3,4) that
  proof cases
    case (row_closed c)
    then show ?thesis using assms(4) by (cases rule: client_row_cases [OF assms(3)]) auto
  qed (auto simp: client_row_ok_def)
  ultimately show ?thesis by (simp add: client_row_ok_def)
qed

lemma faithful_parse:
  assumes "client_codec_faithful K"
  shows "parse_opening K (print_opening K x1) = Ok x1" "parse_client_funding K (print_client_funding K x2) = Ok x2"
    "parse_payment_state K (print_payment_state K x3) = Ok x3" "parse_failure K (print_failure K x4) = Ok x4"
  using assms by (simp_all add: client_codec_faithful_def)

lemmas qc_reads = qc_view_def qc_phase_def row_phase_def qc_get_payment_state_def state_from_string_def client_step_def result_option_def

lemma qc_absent_channel:
  assumes "client_codec_faithful K" "run_client_op (sqlite_client_storage J K now) op db = (r, db')" "client_op_channel op = Some c"
    "qc_channels db c = None" "documented op (qc_phase K db c)"
  shows "(\<forall>row. qc_channels db' c = Some row \<longrightarrow> client_row_ok K row) \<and>
    (case client_step op (qc_view K db c) of None \<Rightarrow> \<not> is_ok r \<and> db' = db | Some v \<Rightarrow> is_ok r \<and> qc_view K db' c = v)"
  using assms
  by (cases op) (auto simp: qc_ops qc_reads client_row_ok_def row_typed_def readable_print faithful_parse)

lemma qc_known_channel:
  assumes "client_codec_faithful K" "run_client_op (sqlite_client_storage J K now) op db = (r, db')" "client_op_channel op = Some c"
    "qc_channels db c = Some row" "client_row_ok K row" "documented op (qc_phase K db c)"
  shows "case client_step op (qc_view K db c) of None \<Rightarrow> \<not> is_ok r \<and> db' = db | Some v \<Rightarrow> is_ok r \<and> qc_view K db' c = v"
  using assms(5)
proof (cases rule: client_row_cases)
  case (pending j ow)
  then show ?thesis using assms by (cases op) (auto simp: qc_ops qc_reads faithful_parse)
next
  case (rejected j ow i f)
  then show ?thesis using assms by (cases op) (auto simp: qc_ops qc_reads faithful_parse)
next
  case (funded st j f)
  then show ?thesis using assms by (cases op; cases st) (auto simp: qc_ops qc_reads faithful_parse)
qed

lemma sqlite_client_follows:
  assumes "sqlite_client_ok K db" "documented_in op (qc_view K db)" "run_client_op (sqlite_client_storage J K now) op db = (r, db')"
  shows "sqlite_client_ok K db' \<and>
    (case spec_client_step op (qc_view K db) of None \<Rightarrow> \<not> is_ok r \<and> qc_view K db' = qc_view K db | Some w \<Rightarrow> is_ok r \<and> qc_view K db' = w)"
proof (cases "client_op_channel op")
  case None
  then have "is_ok r" using assms(3) by (cases op) (auto simp: qc_ops)
  moreover have same: "qc_channels db' = qc_channels db" using qc_other_channel [OF assms(3)] None by auto
  moreover have "qc_view K db' = qc_view K db" using same by (auto simp: qc_view_def qc_phase_def qc_get_payment_state_def)
  ultimately show ?thesis using assms(1) None by (simp add: spec_client_step_def sqlite_client_ok_def)
next
  case (Some c)
  have K: "client_codec_faithful K" using assms(1) by (simp add: sqlite_client_ok_def)
  have other: "qc_channels db' d = qc_channels db d" if "d \<noteq> c" for d using qc_other_channel [OF assms(3), of d] Some that by simp
  have doc: "documented op (qc_phase K db c)" using assms(2) Some by (simp add: documented_in_def qc_view_def)
  have own: "(\<forall>row. qc_channels db' c = Some row \<longrightarrow> client_row_ok K row) \<and>
    (case client_step op (qc_view K db c) of None \<Rightarrow> \<not> is_ok r \<and> db' = db | Some v \<Rightarrow> is_ok r \<and> qc_view K db' c = v)"
  proof (cases "qc_channels db c")
    case None
    then show ?thesis using qc_absent_channel [OF K assms(3) Some None doc] by simp
  next
    case row: (Some row)
    have row_ok: "client_row_ok K row" using assms(1) row by (simp add: sqlite_client_ok_def)
    moreover have "documented op (row_phase K row)" using doc row by (simp add: qc_phase_def)
    ultimately have "client_row_ok K row'" if "qc_channels db' c = Some row'" for row'
      using client_row_ok_kept [OF qc_row_after [OF assms(3) Some row that] K] by simp
    then show ?thesis using qc_known_channel [OF K assms(3) Some row row_ok doc] by simp
  qed
  have "client_row_ok K row" if "qc_channels db' d = Some row" for d row
    using own other [of d] that assms(1) by (cases "d = c") (auto simp: sqlite_client_ok_def)
  moreover have "qc_view K db' = (qc_view K db)(c := qc_view K db' c)"
    using other by (auto simp: qc_view_def qc_phase_def qc_get_payment_state_def)
  ultimately show ?thesis using own Some K by (auto simp: spec_client_step_def sqlite_client_ok_def split: option.splits)
qed

lemma qc_listed: "c \<in> qc_list_channel_ids db \<longleftrightarrow> qc_channels db c \<noteq> None"
  by (simp add: qc_list_channel_ids_def map_of_eq_None_iff)

lemma sqlite_client_shows:
  assumes "sqlite_client_ok K db"
  shows "qc_get_state db c = phase_state (qc_phase K db c)"
    "qc_get_opening_from_swap K db c = Ok (phase_opening (qc_phase K db c))"
    "qc_get_opening_failure K db c = phase_failure (qc_phase K db c)"
    "qc_get_funding K db c = phase_funding (qc_phase K db c)"
    "c \<in> qc_list_channel_ids db \<longleftrightarrow> qc_phase K db c \<noteq> Absent"
proof -
  consider "qc_channels db c = None" | row where "qc_channels db c = Some row" "client_row_ok K row"
    using assms by (cases "qc_channels db c") (auto simp: sqlite_client_ok_def)
  then have "qc_get_state db c = phase_state (qc_phase K db c) \<and>
    qc_get_opening_from_swap K db c = Ok (phase_opening (qc_phase K db c)) \<and>
    qc_get_opening_failure K db c = phase_failure (qc_phase K db c) \<and>
    qc_get_funding K db c = phase_funding (qc_phase K db c) \<and>
    (c \<in> qc_list_channel_ids db \<longleftrightarrow> qc_phase K db c \<noteq> Absent)"
  proof cases
    case 1
    then show ?thesis
      by (simp add: qc_get_state_def qc_get_opening_from_swap_def qc_get_opening_failure_def qc_get_funding_def
          qc_listed qc_phase_def)
  next
    case (2 row)
    from 2(2) show ?thesis
      by (cases rule: client_row_cases)
        (auto simp: 2(1) qc_get_state_def qc_get_opening_from_swap_def qc_get_opening_failure_def qc_get_funding_def
          qc_listed qc_phase_def state_from_string_def result_option_def)
  qed
  then show "qc_get_state db c = phase_state (qc_phase K db c)"
    "qc_get_opening_from_swap K db c = Ok (phase_opening (qc_phase K db c))"
    "qc_get_opening_failure K db c = phase_failure (qc_phase K db c)"
    "qc_get_funding K db c = phase_funding (qc_phase K db c)"
    "c \<in> qc_list_channel_ids db \<longleftrightarrow> qc_phase K db c \<noteq> Absent"
    by auto
qed

interpretation sql_client: client_store "sqlite_client_storage J K now" "sqlite_client_ok K" "qc_view K" for J K now
proof unfold_locales
  fix db c
  assume ok: "sqlite_client_ok K db"
  note reads = sqlite_client_shows [OF ok]
  show "cst_get_state (sqlite_client_storage J K now) db c = phase_state (w_phase (qc_view K db c))"
    "cst_get_opening_from_swap (sqlite_client_storage J K now) db c = Ok (phase_opening (w_phase (qc_view K db c)))"
    "cst_get_opening_failure (sqlite_client_storage J K now) db c = phase_failure (w_phase (qc_view K db c))"
    "cst_get_funding (sqlite_client_storage J K now) db c = phase_funding (w_phase (qc_view K db c))"
    "cst_get_payment_state (sqlite_client_storage J K now) db c = w_payment (qc_view K db c)"
    "cst_list_channel_ids (sqlite_client_storage J K now) db = {c. w_phase (qc_view K db c) \<noteq> Absent}"
    using reads by (auto simp: qc_view_def)
qed (rule sqlite_client_follows)

lemma client_init_ok:
  assumes "client_codec_faithful K"
  shows "sqlite_client_ok K client_init_schema" "qc_view K client_init_schema = (\<lambda>_. \<lparr>w_phase = Absent, w_payment = None\<rparr>)"
  using assms by (auto simp: sqlite_client_ok_def client_init_schema_def qc_view_def qc_phase_def qc_get_payment_state_def)

section \<open>Two storages under one contract\<close>

locale client_stores = first: client_store S1 ok1 V1 + second: client_store S2 ok2 V2
  for S1 :: "'s ClientStorage" and ok1 V1 and S2 :: "'t ClientStorage" and ok2 V2
begin

lemma same_answers:
  assumes "ok1 s" "ok2 t" "V1 s = V2 t" "documented_run ops (V1 s)"
    "run_client_ops S1 ops s = (rs, s')" "run_client_ops S2 ops t = (qs, t')"
  shows "rs = qs \<and> V1 s' = V2 t' \<and> cst_get_state S1 s' = cst_get_state S2 t' \<and>
    cst_get_opening_from_swap S1 s' = cst_get_opening_from_swap S2 t' \<and>
    cst_get_opening_failure S1 s' = cst_get_opening_failure S2 t' \<and> cst_get_funding S1 s' = cst_get_funding S2 t' \<and>
    cst_get_payment_state S1 s' = cst_get_payment_state S2 t' \<and> cst_list_channel_ids S1 s' = cst_list_channel_ids S2 t'"
proof -
  note a = first.follows_run [OF assms(1,4,5)]
  note b = second.follows_run [OF assms(2) assms(4) [unfolded assms(3)] assms(6)]
  have v: "rs = qs" "V1 s' = V2 t'" using a b assms(3) by auto
  show ?thesis
    using a b v by (auto simp: fun_eq_iff first.shows_state second.shows_state first.shows_opening second.shows_opening
        first.shows_failure second.shows_failure first.shows_funding second.shows_funding first.shows_payment second.shows_payment
        first.lists_channels second.lists_channels)
qed

end

interpretation memory_and_sqlite: client_stores memory_client_storage memory_client_ok mc_view
    "sqlite_client_storage J K now" "sqlite_client_ok K" "qc_view K" for J K now
  by unfold_locales

section \<open>Properties\<close>

text \<open>C35: no sequence of calls, documented or not, leads the SQLite storage to a row its reads report as corrupt.
  Every channel it lists has a lifecycle state, reading a pending opening never fails, an open or closing
  channel has its funding, a rejected opening has its failure, and a saved payment state can be read.\<close>

theorem client_rows_never_corrupt:
  assumes "client_codec_faithful K" "run_client_ops (sqlite_client_storage J K now) ops client_init_schema = (rs, db)"
  shows "rows_typed K db \<and> is_ok (qc_get_opening_from_swap K db c) \<and>
    (qc_get_state db c = None \<longleftrightarrow> c \<notin> qc_list_channel_ids db) \<and>
    (qc_get_state db c = Some OpeningFromSwap \<longrightarrow> qc_get_opening_from_swap K db c \<noteq> Ok None) \<and>
    (qc_get_state db c \<in> {Some ClientOpen, Some ClientClosing} \<longrightarrow> qc_get_funding K db c \<noteq> None) \<and>
    (qc_get_state db c = Some OpeningFailed \<longrightarrow> qc_get_opening_failure K db c \<noteq> None)"
proof -
  have "rows_typed K client_init_schema" by (simp add: rows_typed_def client_init_schema_def)
  then have typed: "rows_typed K db" using qc_run_typed [OF assms(1) _ assms(2)] by simp
  show ?thesis
  proof (cases "qc_channels db c")
    case None
    then show ?thesis using typed
      by (simp add: qc_get_opening_from_swap_def qc_get_state_def qc_listed is_ok_def)
  next
    case (Some row)
    then obtain st where st: "qr_state row = state_to_string st" "columns_typed K st row"
      using typed by (auto simp: rows_typed_def row_typed_def state_from_string_Some split: option.splits)
    show ?thesis using typed st Some
      by (cases st)
        (auto simp: qc_get_opening_from_swap_def qc_get_state_def qc_listed qc_get_funding_def
          qc_get_opening_failure_def result_option_def is_ok_def state_from_string_def elim!: readable_obtain)
  qed
qed

text \<open>C36: the in-memory and the SQLite client storage cannot be told apart.  Whatever documented calls are made,
  both accept and refuse the same ones, and then show the same state, opening, failure, funding and payment
  of every channel and list the same channels.\<close>

theorem client_storages_agree:
  assumes "client_codec_faithful K" "documented_run ops (\<lambda>_. \<lparr>w_phase = Absent, w_payment = None\<rparr>)"
    "run_client_ops memory_client_storage ops memory_client_new = (rs, m)"
    "run_client_ops (sqlite_client_storage J K now) ops client_init_schema = (qs, db)"
  shows "rs = qs \<and> mc_states m = qc_get_state db \<and> mc_get_opening_from_swap m = qc_get_opening_from_swap K db \<and>
    mc_get_opening_failure m = qc_get_opening_failure K db \<and> mc_funding m = qc_get_funding K db \<and>
    mc_payments m = qc_get_payment_state K db \<and> mc_list_channel_ids m = qc_list_channel_ids db"
proof -
  have v: "mc_view memory_client_new = (\<lambda>_. \<lparr>w_phase = Absent, w_payment = None\<rparr>)"
    by (rule ext) (rule memory_client_new_ok(2))
  have "mc_view memory_client_new = qc_view K client_init_schema" unfolding v client_init_ok(2) [OF assms(1)] ..
  from memory_and_sqlite.same_answers [OF memory_client_new_ok(1) client_init_ok(1) [OF assms(1)] this _ assms(3,4)]
  show ?thesis using assms(2) v by simp
qed


section \<open>A concrete encoding\<close>

datatype client_stored =
    KOpening ClientChannelOpeningFromSwap
  | KFunding ClientChannelFunding
  | KPayment ClientPaymentState
  | KFailure ClientOpeningFailure

fun read_opening :: "client_stored \<Rightarrow> (string, ClientChannelOpeningFromSwap) result" where
  "read_opening (KOpening x) = Ok x"
| "read_opening _ = Err ''opening''"

fun read_client_funding :: "client_stored \<Rightarrow> (string, ClientChannelFunding) result" where
  "read_client_funding (KFunding x) = Ok x"
| "read_client_funding _ = Err ''funding''"

fun read_payment_state :: "client_stored \<Rightarrow> (string, ClientPaymentState) result" where
  "read_payment_state (KPayment x) = Ok x"
| "read_payment_state _ = Err ''payment''"

fun read_failure :: "client_stored \<Rightarrow> (string, ClientOpeningFailure) result" where
  "read_failure (KFailure x) = Ok x"
| "read_failure _ = Err ''failure''"

definition example_client_codec :: "client_stored client_codec" where
  "example_client_codec =
     \<lparr>print_opening = KOpening, parse_opening = read_opening, print_client_funding = KFunding,
      parse_client_funding = read_client_funding, print_payment_state = KPayment, parse_payment_state = read_payment_state,
      print_failure = KFailure, parse_failure = read_failure\<rparr>"

lemma example_client_codec_faithful: "client_codec_faithful example_client_codec"
  by (simp add: client_codec_faithful_def example_client_codec_def)

definition example_opening :: "string \<Rightarrow> ClientChannelOpeningFromSwap" where
  "example_opening token =
     \<lparr>ow_params_json = ''p'', ow_channel_secret_hex = ''s'', ow_keyset_info_json = ''k'', ow_sender_pubkey_hex = ''a'',
      ow_receiver_pubkey_hex = ''b'', ow_capacity = 8, ow_funding_token_amount = 9, ow_mint_url = ''m'', ow_unit = ''sat'',
      ow_input_token = token, ow_change_secrets_json = ''[]'', ow_change_amount_raw = 0, ow_created_at = 1\<rparr>"

text \<open>An opening is rejected, retried, completed and paid from; then the channel closes.\<close>

definition example_client_ops :: "client_op list" where
  "example_client_ops =
     [SaveOpening ''c'' (example_opening ''t''), SetOpeningFailed ''c'' \<lparr>fl_stage = ''swap'', fl_message = ''no'', fl_failed_at = 2\<rparr>,
      SetOpen ''c'' ''proofs'', SaveOpening ''c'' (example_opening ''u''), SaveOpening ''c'' (example_opening ''t''),
      SetOpen ''c'' ''proofs'', SavePayment ''c'' \<lparr>cps_balance = 3, cps_signature = ''x'', cps_payment_count = 1, cps_last_payment_at = 4\<rparr>,
      SetClosing ''c'', SetOpen ''c'' ''proofs'']"

abbreviation example_client_run where
  "example_client_run \<equiv> run_client_ops (sqlite_client_storage (example_codec JNull) example_client_codec 7)"

lemma example_client_documented:
  "documented_run example_client_ops (\<lambda>_. \<lparr>w_phase = Absent, w_payment = None\<rparr>)"
  by code_simp

text \<open>A pending channel that is closed keeps its opening, and its completion is then refused.\<close>

theorem client_rows_never_corrupt_witness:
  "\<exists>rs db. example_client_run [SaveOpening ''c'' (example_opening ''t''), SetClosed ''c'', SetOpen ''c'' ''proofs'']
       client_init_schema = (rs, db) \<and> rs = [True, True, False] \<and> rows_typed example_client_codec db"
proof -
  let ?ops = "[SaveOpening ''c'' (example_opening ''t''), SetClosed ''c'', SetOpen ''c'' ''proofs'']"
  obtain rs db where run: "example_client_run ?ops client_init_schema = (rs, db)"
    by (cases "example_client_run ?ops client_init_schema")
  moreover have "fst (example_client_run ?ops client_init_schema) = [True, True, False]" by code_simp
  ultimately show ?thesis
    using client_rows_never_corrupt [OF example_client_codec_faithful run] by auto
qed

theorem client_storages_agree_witness:
  "\<exists>rs m db. run_client_ops memory_client_storage example_client_ops memory_client_new = (rs, m) \<and>
     example_client_run example_client_ops client_init_schema = (rs, db) \<and>
     rs = [True, True, False, False, True, True, True, True, True] \<and> mc_funding m = qc_get_funding example_client_codec db"
proof -
  obtain rs m where m: "run_client_ops memory_client_storage example_client_ops memory_client_new = (rs, m)"
    by (cases "run_client_ops memory_client_storage example_client_ops memory_client_new")
  obtain qs db where db: "example_client_run example_client_ops client_init_schema = (qs, db)"
    by (cases "example_client_run example_client_ops client_init_schema")
  have "fst (run_client_ops memory_client_storage example_client_ops memory_client_new) =
      [True, True, False, False, True, True, True, True, True]" by code_simp
  then show ?thesis using client_storages_agree [OF example_client_codec_faithful example_client_documented m db] m db by auto
qed


end
