(* ===== verification/ClientHost.thy ===== *)
theory ClientHost
  imports SqliteClientStorage
begin

text \<open>
  The client's host: the trait \<open>SpilmanClientHost\<close> of \<open>crates/cdk-spilman/src/client_bridge.rs\<close> and its
  implementation \<open>ConfigurableClientHost\<close> in \<open>configurable_client_host.rs\<close>, over any client storage.

  The state of the configurable host is its keys and its storage.  What the client's bridge relies on is the
  locale \<open>client_host\<close>, proved for the configurable host over every storage that satisfies the storage contract.
  The clock is an argument.
\<close>

section \<open>The trait\<close>

record 's SpilmanClientHost =
  hc_save_opening_from_swap_channel :: "channel_id \<Rightarrow> ClientChannelOpeningFromSwap \<Rightarrow> 's update"
  hc_mark_channel_open :: "channel_id \<Rightarrow> string \<Rightarrow> 's update"
  hc_get_channel_opening_from_swap :: "'s \<Rightarrow> channel_id \<Rightarrow> (string, ClientChannelOpeningFromSwap option) result"
  hc_mark_channel_opening_failed :: "channel_id \<Rightarrow> ClientOpeningFailure \<Rightarrow> 's update"
  hc_get_channel_funding :: "'s \<Rightarrow> channel_id \<Rightarrow> ClientChannelFunding option"
  hc_get_payment_state :: "'s \<Rightarrow> channel_id \<Rightarrow> ClientPaymentState option"
  hc_record_payment :: "channel_id \<Rightarrow> ClientPaymentState \<Rightarrow> 's update"
  hc_get_channel_state :: "'s \<Rightarrow> channel_id \<Rightarrow> ClientChannelState option"
  hc_mark_channel_closed :: "channel_id \<Rightarrow> 's update"
  hc_mark_channel_closing :: "channel_id \<Rightarrow> 's update"
  hc_list_channel_ids :: "'s \<Rightarrow> channel_id set"
  hc_delete_channel :: "channel_id \<Rightarrow> 's update"
  hc_get_keyset :: "'s \<Rightarrow> string \<Rightarrow> key_id \<Rightarrow> ClientKeysetCacheEntry option"
  hc_set_keyset :: "string \<Rightarrow> key_id \<Rightarrow> ClientKeysetCacheEntry \<Rightarrow> 's update"
  hc_get_active_keyset_ids :: "'s \<Rightarrow> string \<Rightarrow> currency_unit \<Rightarrow> key_id list"
  hc_list_keysets_for_unit :: "'s \<Rightarrow> string \<Rightarrow> currency_unit \<Rightarrow> (key_id \<times> ClientKeysetCacheEntry) list"
  hc_now_seconds :: "'s \<Rightarrow> u64"
  hc_compute_channel_secret :: "'s \<Rightarrow> string \<Rightarrow> string \<Rightarrow> (string, string) result"
  hc_sign_with_tweaked_key :: "'s \<Rightarrow> string \<Rightarrow> string \<Rightarrow> string \<Rightarrow> (string, string) result"

section \<open>The configurable host\<close>

record 's ConfigurableClientHost =
  cch_keys :: "(string \<times> seckey) list"
  cch_storage :: 's

definition client_host_new :: "'s \<Rightarrow> 's ConfigurableClientHost" where
  "client_host_new storage = \<lparr>cch_keys = [], cch_storage = storage\<rparr>"

definition add_key :: "crypto \<Rightarrow> codec \<Rightarrow> seckey \<Rightarrow> 's ConfigurableClientHost \<Rightarrow> 's ConfigurableClientHost" where
  "add_key C J secret h = h\<lparr>cch_keys := AList.update (pk_to_hex J (public_key C secret)) secret (cch_keys h)\<rparr>"

definition add_key_from_hex ::
  "crypto \<Rightarrow> codec \<Rightarrow> string \<Rightarrow> 's ConfigurableClientHost \<Rightarrow> (string, string) result \<times> 's ConfigurableClientHost" where
  "add_key_from_hex C J secret_hex h =
     (case sk_from_hex J secret_hex of
        Err e \<Rightarrow> (Err (''Invalid secret key: '' @ e), h)
      | Ok secret \<Rightarrow> (Ok (pk_to_hex J (public_key C secret)), add_key C J secret h))"

definition get_pubkeys :: "'s ConfigurableClientHost \<Rightarrow> string list" where
  "get_pubkeys h = map fst (cch_keys h)"

definition has_key :: "'s ConfigurableClientHost \<Rightarrow> string \<Rightarrow> bool" where
  "has_key h pubkey_hex \<longleftrightarrow> map_of (cch_keys h) pubkey_hex \<noteq> None"

definition remove_key :: "string \<Rightarrow> 's ConfigurableClientHost \<Rightarrow> bool \<times> 's ConfigurableClientHost" where
  "remove_key pubkey_hex h = (has_key h pubkey_hex, h\<lparr>cch_keys := AList.delete pubkey_hex (cch_keys h)\<rparr>)"

definition get_secret :: "'s ConfigurableClientHost \<Rightarrow> string \<Rightarrow> (string, seckey) result" where
  "get_secret h pubkey_hex = ok_or (''No key found for pubkey: '' @ pubkey_hex) (map_of (cch_keys h) pubkey_hex)"

text \<open>A storage operation through the host.\<close>

definition on_storage :: "'s update \<Rightarrow> 's ConfigurableClientHost update" where
  "on_storage f h = (case f (cch_storage h) of (r, s) \<Rightarrow> (r, h\<lparr>cch_storage := s\<rparr>))"

definition cch_compute_channel_secret ::
  "crypto \<Rightarrow> codec \<Rightarrow> 's ConfigurableClientHost \<Rightarrow> string \<Rightarrow> string \<Rightarrow> (string, string) result" where
  "cch_compute_channel_secret C J h sender_hex receiver_hex =
     rbind (get_secret h sender_hex) (\<lambda>secret. compute_channel_secret_from_hex C J (hex_encode C secret) receiver_hex)"

definition cch_sign_with_tweaked_key ::
  "crypto \<Rightarrow> codec \<Rightarrow> 's ConfigurableClientHost \<Rightarrow> string \<Rightarrow> string \<Rightarrow> string \<Rightarrow> (string, string) result" where
  "cch_sign_with_tweaked_key C J h signer_hex message_hex tweak_hex =
     rbind (get_secret h signer_hex) (\<lambda>secret. sign_with_tweaked_key_util C J (hex_encode C secret) message_hex tweak_hex)"

definition configurable_client_host ::
  "crypto \<Rightarrow> codec \<Rightarrow> u64 \<Rightarrow> 's ClientStorage \<Rightarrow> 's ConfigurableClientHost SpilmanClientHost" where
  "configurable_client_host C J now S =
     \<lparr>hc_save_opening_from_swap_channel = (\<lambda>c opening. on_storage (cst_save_opening_from_swap S c opening)),
      hc_mark_channel_open = (\<lambda>c proofs. on_storage (cst_set_open S c proofs)),
      hc_get_channel_opening_from_swap = (\<lambda>h. cst_get_opening_from_swap S (cch_storage h)),
      hc_mark_channel_opening_failed = (\<lambda>c failure. on_storage (cst_set_opening_failed S c failure)),
      hc_get_channel_funding = (\<lambda>h. cst_get_funding S (cch_storage h)),
      hc_get_payment_state = (\<lambda>h. cst_get_payment_state S (cch_storage h)),
      hc_record_payment = (\<lambda>c p. on_storage (cst_save_payment_state S c p)),
      hc_get_channel_state = (\<lambda>h. cst_get_state S (cch_storage h)),
      hc_mark_channel_closed = (\<lambda>c. on_storage (cst_set_closed S c)),
      hc_mark_channel_closing = (\<lambda>c. on_storage (cst_set_closing S c)),
      hc_list_channel_ids = (\<lambda>h. cst_list_channel_ids S (cch_storage h)),
      hc_delete_channel = (\<lambda>c. on_storage (cst_delete S c)),
      hc_get_keyset = (\<lambda>h. cst_get_keyset S (cch_storage h)),
      hc_set_keyset = (\<lambda>mint_url kid entry. on_storage (cst_set_keyset S mint_url kid entry)),
      hc_get_active_keyset_ids = (\<lambda>h. cst_get_active_keyset_ids S (cch_storage h)),
      hc_list_keysets_for_unit = (\<lambda>h. cst_list_keysets_for_unit S (cch_storage h)),
      hc_now_seconds = (\<lambda>_. now),
      hc_compute_channel_secret = cch_compute_channel_secret C J,
      hc_sign_with_tweaked_key = cch_sign_with_tweaked_key C J\<rparr>"

section \<open>The contract\<close>

fun run_host_op :: "'s SpilmanClientHost \<Rightarrow> client_op \<Rightarrow> 's update" where
  "run_host_op H (SaveOpening c opening) = hc_save_opening_from_swap_channel H c opening"
| "run_host_op H (SetOpen c proofs) = hc_mark_channel_open H c proofs"
| "run_host_op H (SetOpeningFailed c failure) = hc_mark_channel_opening_failed H c failure"
| "run_host_op H (SavePayment c p) = hc_record_payment H c p"
| "run_host_op H (SetClosed c) = hc_mark_channel_closed H c"
| "run_host_op H (SetClosing c) = hc_mark_channel_closing H c"
| "run_host_op H (DeleteChannel c) = hc_delete_channel H c"
| "run_host_op H (CacheKeyset mint_url kid entry) = hc_set_keyset H mint_url kid entry"

locale client_host =
  fixes H :: "'s SpilmanClientHost" and ok :: "'s \<Rightarrow> bool" and V :: "'s \<Rightarrow> channel_id \<Rightarrow> client_view"
  assumes host_shows_state: "ok s \<Longrightarrow> hc_get_channel_state H s c = phase_state (w_phase (V s c))"
    and host_shows_opening: "ok s \<Longrightarrow> hc_get_channel_opening_from_swap H s c = Ok (phase_opening (w_phase (V s c)))"
    and host_shows_funding: "ok s \<Longrightarrow> hc_get_channel_funding H s c = phase_funding (w_phase (V s c))"
    and host_shows_payment: "ok s \<Longrightarrow> hc_get_payment_state H s c = w_payment (V s c)"
    and host_follows: "ok s \<Longrightarrow> documented_in op (V s) \<Longrightarrow> run_host_op H op s = (r, s') \<Longrightarrow>
      ok s' \<and> (case spec_client_step op (V s) of None \<Rightarrow> \<not> is_ok r \<and> V s' = V s | Some w \<Rightarrow> is_ok r \<and> V s' = w)"

locale configurable_client = client_store S ok V for S :: "'s ClientStorage" and ok V +
  fixes C :: crypto and J :: codec and now :: u64

lemma run_host_op_configurable:
  "run_host_op (configurable_client_host C J now S) op = on_storage (run_client_op S op)"
  by (cases op) (simp_all add: configurable_client_host_def)

sublocale configurable_client \<subseteq>
  cch: client_host "configurable_client_host C J now S" "\<lambda>h. ok (cch_storage h)" "\<lambda>h. V (cch_storage h)"
proof unfold_locales
  fix h :: "'s ConfigurableClientHost" and op r h'
  assume a: "ok (cch_storage h)" "documented_in op (V (cch_storage h))" "run_host_op (configurable_client_host C J now S) op h = (r, h')"
  then obtain s' where "run_client_op S op (cch_storage h) = (r, s')" "h' = h\<lparr>cch_storage := s'\<rparr>"
    by (auto simp: run_host_op_configurable on_storage_def split: prod.splits)
  then show "ok (cch_storage h') \<and> (case spec_client_step op (V (cch_storage h)) of
      None \<Rightarrow> \<not> is_ok r \<and> V (cch_storage h') = V (cch_storage h) | Some w \<Rightarrow> is_ok r \<and> V (cch_storage h') = w)"
    using follows [OF a(1,2)] by (auto split: option.splits)
qed (simp_all add: configurable_client_host_def shows_state shows_opening shows_funding shows_payment)

interpretation mem_client_host: configurable_client memory_client_storage memory_client_ok mc_view C J now for C J now
  by (simp add: configurable_client_def mem_client.client_store_axioms)

interpretation sql_client_host: configurable_client "sqlite_client_storage J K clock" "sqlite_client_ok K" "qc_view K" C J now
  for J K clock C now
  by (simp add: configurable_client_def sql_client.client_store_axioms)

text \<open>A key is found under the public key it belongs to.\<close>

definition keys_indexed :: "crypto \<Rightarrow> codec \<Rightarrow> 's ConfigurableClientHost \<Rightarrow> bool" where
  "keys_indexed C J h \<longleftrightarrow> list_all (\<lambda>(hex, secret). hex = pk_to_hex J (public_key C secret)) (cch_keys h)"

lemma keys_indexed_found:
  assumes "keys_indexed C J h" "map_of (cch_keys h) hex = Some secret"
  shows "hex = pk_to_hex J (public_key C secret)"
  using assms map_of_SomeD [OF assms(2)] by (auto simp: keys_indexed_def list_all_iff)

lemma set_alist_update: "set (AList.update k v xs) \<subseteq> insert (k, v) (set xs)"
  by (induction xs) auto

lemma keys_indexed_add: "keys_indexed C J h \<Longrightarrow> keys_indexed C J (add_key C J secret h)"
  using set_alist_update [of _ _ "cch_keys h"] by (fastforce simp: keys_indexed_def add_key_def list_all_iff)

lemma keys_indexed_kept:
  "keys_indexed C J (client_host_new s)"
  "keys_indexed C J h \<Longrightarrow> keys_indexed C J (snd (add_key_from_hex C J secret_hex h))"
  "keys_indexed C J h \<Longrightarrow> keys_indexed C J (snd (remove_key hex h))"
  "keys_indexed C J h \<Longrightarrow> keys_indexed C J (snd (on_storage f h))"
  using keys_indexed_add [of C J h]
  by (auto simp: add_key_from_hex_def split: sum.splits)
    (auto simp: keys_indexed_def client_host_new_def list_all_iff AList.delete_eq remove_key_def on_storage_def split: prod.splits)

end
