(* ===== verification/ClientBridge.thy ===== *)
theory ClientBridge
  imports ClientHost Bridge
begin

text \<open>
  The client's bridge: payments, closing and inspection of a channel in
  \<open>crates/cdk-spilman/src/client_bridge.rs\<close>.

  The bridge keeps no state of its own; an operation that changes the host returns its result and the new state
  of the host.  A payment is signed from the stored funding by the host, which holds the key, and is recorded
  only when the caller says so.
\<close>

section \<open>Signing\<close>

definition client_sign_balance_update ::
  "codec \<Rightarrow> 's SpilmanClientHost \<Rightarrow> 's \<Rightarrow> UnsignedBalanceUpdate \<Rightarrow> string \<Rightarrow> (string, BalanceUpdateMessage) result" where
  "client_sign_balance_update J H s update_data sender_hex =
     rbind (hc_sign_with_tweaked_key H s sender_hex (ub_message_hex update_data) (ub_tweak_scalar_hex update_data)) (\<lambda>signature_hex.
     unsigned_update_sign J update_data signature_hex)"

definition sign_payment_internal ::
  "crypto \<Rightarrow> codec \<Rightarrow> 's SpilmanClientHost \<Rightarrow> 's \<Rightarrow> channel_id \<Rightarrow> u64 \<Rightarrow> bool \<Rightarrow> (string, Payment) run" where
  "sign_payment_internal C J H s c balance include_funding =
     run_bind (Some (rbind (ok_or (''Channel not found: '' @ c) (hc_get_channel_funding H s c)) (\<lambda>funding.
                     rbind (ok_or (''Channel not found: '' @ c) (hc_get_channel_state H s c)) (\<lambda>st.
                     if \<not> is_payable st
                     then Err (''Channel is not usable for payments: '' @ c @ '' ('' @ state_to_string st @ '')'')
                     else if balance > cf_capacity funding
                     then Err (''Balance '' @ show_u64 balance @ '' exceeds channel capacity '' @ show_u64 (cf_capacity funding))
                     else Ok funding)))) (\<lambda>funding.
     run_bind (unsigned_update_new C J c balance funding) (\<lambda>update_data.
     Some (rbind (client_sign_balance_update J H s update_data (cf_sender_pubkey_hex funding)) (\<lambda>update.
           (let signature = sig_to_string J (bu_signature update) in
            if include_funding
            then rbind (map_err (\<lambda>e. ''Failed to parse params: '' @ e) (json_parse J (cf_params_json funding))) (\<lambda>params.
                 rbind (map_err (\<lambda>e. ''Failed to parse funding proofs: '' @ e) (proofs_parse J (cf_funding_proofs_json funding)))
                   (\<lambda>proofs. Ok (payment_with_funding c balance signature params proofs)))
            else Ok (payment_new c balance signature))))))"

definition sign_payment ::
  "crypto \<Rightarrow> codec \<Rightarrow> 's SpilmanClientHost \<Rightarrow> 's \<Rightarrow> channel_id \<Rightarrow> u64 \<Rightarrow> (string, Payment) run" where
  "sign_payment C J H s c balance = sign_payment_internal C J H s c balance False"

definition sign_channel_registration ::
  "crypto \<Rightarrow> codec \<Rightarrow> 's SpilmanClientHost \<Rightarrow> 's \<Rightarrow> channel_id \<Rightarrow> (string, Payment) run" where
  "sign_channel_registration C J H s c = sign_payment_internal C J H s c 0 True"

definition record_signed_payment :: "'s SpilmanClientHost \<Rightarrow> Payment \<Rightarrow> 's update" where
  "record_signed_payment H payment s =
     (let payment_count = (case hc_get_payment_state H s (pm_channel_id payment) of None \<Rightarrow> 0 | Some st \<Rightarrow> cps_payment_count st) + 1
      in hc_record_payment H (pm_channel_id payment)
           \<lparr>cps_balance = pm_balance payment, cps_signature = pm_signature payment, cps_payment_count = payment_count,
            cps_last_payment_at = hc_now_seconds H s\<rparr> s)"

definition sign_and_record_payment ::
  "crypto \<Rightarrow> codec \<Rightarrow> 's SpilmanClientHost \<Rightarrow> channel_id \<Rightarrow> u64 \<Rightarrow> 's \<Rightarrow> ((string, Payment) result \<times> 's) option" where
  "sign_and_record_payment C J H c balance s =
     map_option (\<lambda>r. case r of
         Err e \<Rightarrow> (Err e, s)
       | Ok payment \<Rightarrow>
           (case record_signed_payment H payment s of
              (Err e, s') \<Rightarrow> (Err e, s')
            | (Ok _, s') \<Rightarrow> (Ok payment, s')))
       (sign_payment C J H s c balance)"

text \<open>The encodings of a payment header.\<close>

record header_codec =
  payment_print :: "Payment \<Rightarrow> string"
  base64_encode :: "string \<Rightarrow> string"

definition sign_payment_header ::
  "crypto \<Rightarrow> codec \<Rightarrow> header_codec \<Rightarrow> 's SpilmanClientHost \<Rightarrow> 's \<Rightarrow> channel_id \<Rightarrow> u64 \<Rightarrow> bool \<Rightarrow> (string, string) run" where
  "sign_payment_header C J B H s c balance include_funding =
     run_bind (sign_payment_internal C J H s c balance include_funding) (\<lambda>payment.
     Some (Ok (base64_encode B (payment_print B payment))))"

section \<open>Inspecting and closing a channel\<close>

record ClientChannelInfo =
  ci_channel_id :: string
  ci_capacity :: u64
  ci_funding_token_amount :: u64
  ci_mint_url :: string
  ci_current_balance :: u64
  ci_payment_count :: u64
  ci_state :: ClientChannelState

definition get_channel_info :: "'s SpilmanClientHost \<Rightarrow> 's \<Rightarrow> channel_id \<Rightarrow> ClientChannelInfo option" where
  "get_channel_info H s c =
     (case hc_get_channel_funding H s c of
        None \<Rightarrow> None
      | Some funding \<Rightarrow>
          (let payment_state = hc_get_payment_state H s c in
           map_option (\<lambda>st.
             \<lparr>ci_channel_id = c, ci_capacity = cf_capacity funding, ci_funding_token_amount = cf_funding_token_amount funding,
              ci_mint_url = cf_mint_url funding,
              ci_current_balance = (case payment_state of None \<Rightarrow> 0 | Some p \<Rightarrow> cps_balance p),
              ci_payment_count = (case payment_state of None \<Rightarrow> 0 | Some p \<Rightarrow> cps_payment_count p), ci_state = st\<rparr>)
             (hc_get_channel_state H s c)))"

definition close_channel :: "'s SpilmanClientHost \<Rightarrow> channel_id \<Rightarrow> 's update" where
  "close_channel H c = hc_mark_channel_closed H c"

definition mark_channel_unusable :: "'s SpilmanClientHost \<Rightarrow> channel_id \<Rightarrow> 's update" where
  "mark_channel_unusable H c = hc_mark_channel_closing H c"

definition client_delete_channel :: "'s SpilmanClientHost \<Rightarrow> channel_id \<Rightarrow> 's update" where
  "client_delete_channel H c = hc_delete_channel H c"

definition sign_cooperative_close_request ::
  "crypto \<Rightarrow> codec \<Rightarrow> 's SpilmanClientHost \<Rightarrow> 's \<Rightarrow> channel_id \<Rightarrow> u64 \<Rightarrow> (string, Payment) run" where
  "sign_cooperative_close_request C J H s c final_balance = sign_payment C J H s c final_balance"

definition process_cooperative_close_response :: "codec \<Rightarrow> 's SpilmanClientHost \<Rightarrow> string \<Rightarrow> 's update" where
  "process_cooperative_close_response J H text s =
     (case rbind (map_err (\<lambda>e. ''Failed to parse close response: '' @ e) (json_parse J text)) (\<lambda>v.
           ok_or (''Missing '' @ quoted ''channel_id'' @ '' in close response'') (as_str (json_index v ''channel_id''))) of
        Err e \<Rightarrow> (Err e, s)
      | Ok c \<Rightarrow> hc_mark_channel_closed H c s)"

section \<open>A signed payment is accepted\<close>

text \<open>The receiver's copy of the funding data a client stores.\<close>

definition receiver_copy :: "ClientChannelFunding \<Rightarrow> ChannelFunding" where
  "receiver_copy f =
     \<lparr>params_json = cf_params_json f, funding_proofs_json = cf_funding_proofs_json f,
      channel_secret_hex = cf_channel_secret_hex f, keyset_info_json = cf_keyset_info_json f\<rparr>"

text \<open>Documented behaviour of the key encodings: a secret key reads back from its text, and public keys have distinct texts.\<close>

definition key_texts_faithful :: "crypto \<Rightarrow> codec \<Rightarrow> bool" where
  "key_texts_faithful C J \<longleftrightarrow> (\<forall>k. sk_from_hex J (hex_encode C k) = Ok k) \<and> inj (pk_to_hex J)"

lemma sign_payment_OkD:
  assumes "sign_payment_internal C J H s c b inc = Some (Ok payment)"
  obtains funding u sig update where "hc_get_channel_funding H s c = Some funding" "hc_get_channel_state H s c = Some ClientOpen"
    "b \<le> cf_capacity funding" "unsigned_update_new C J c b funding = Some (Ok u)"
    "hc_sign_with_tweaked_key H s (cf_sender_pubkey_hex funding) (ub_message_hex u) (ub_tweak_scalar_hex u) = Ok sig"
    "unsigned_update_sign J u sig = Ok update" "pm_signature payment = sig_to_string J (bu_signature update)"
    "pm_channel_id payment = c" "pm_balance payment = b"
    "inc \<longrightarrow> (\<exists>params proofs. json_parse J (cf_params_json funding) = Ok params \<and> pm_params payment = Some params \<and>
       proofs_parse J (cf_funding_proofs_json funding) = Ok proofs \<and> pm_funding_proofs payment = Some proofs)"
proof -
  obtain funding u update where f: "hc_get_channel_funding H s c = Some funding" "hc_get_channel_state H s c = Some ClientOpen"
    "b \<le> cf_capacity funding" "unsigned_update_new C J c b funding = Some (Ok u)"
    and up: "client_sign_balance_update J H s u (cf_sender_pubkey_hex funding) = Ok update"
    and pay: "(if inc
       then rbind (map_err (\<lambda>e. ''Failed to parse params: '' @ e) (json_parse J (cf_params_json funding))) (\<lambda>params.
            rbind (map_err (\<lambda>e. ''Failed to parse funding proofs: '' @ e) (proofs_parse J (cf_funding_proofs_json funding)))
              (\<lambda>proofs. Ok (payment_with_funding c b (sig_to_string J (bu_signature update)) params proofs)))
       else Ok (payment_new c b (sig_to_string J (bu_signature update)))) = Ok payment"
    using assms
    by (auto simp: sign_payment_internal_def run_bind_eq_Ok rbind_eq_Ok is_payable_def Let_def ok_or_def not_less
        split: option.splits if_splits)
  obtain sig where "hc_sign_with_tweaked_key H s (cf_sender_pubkey_hex funding) (ub_message_hex u) (ub_tweak_scalar_hex u) = Ok sig"
    "unsigned_update_sign J u sig = Ok update"
    using up by (auto simp: client_sign_balance_update_def rbind_eq_Ok)
  then show thesis using that f pay
    by (cases inc) (auto simp: payment_with_funding_def payment_new_def rbind_eq_Ok)
qed

text \<open>C38: a payment the client signs is accepted by the receiver.  The host signs with the key stored under the
  channel's sender key; the receiver, holding the same funding texts, rebuilds the channel and finds the
  signature valid for exactly the balance and channel of the payment.  The client signs only while the
  channel is open and never beyond its capacity.\<close>

theorem client_payment_accepted:
  assumes "secp_laws C" "schnorr_correct C" "texts_faithful C J" "key_texts_faithful C J" "keys_indexed C J h"
    "cst_get_funding S (cch_storage h) c = Some funding"
    "parse_keyset_info_from_json J (cf_keyset_info_json funding) = Ok ks"
    "decode_secret J ''Channel secret'' (cf_channel_secret_hex funding) = Ok secret"
    "from_json_with_channel_secret J (cf_params_json funding) ks secret = Some (Ok p)"
    "cf_sender_pubkey_hex funding = pk_to_hex J (sender_pubkey p)"
    "sign_payment_internal C J (configurable_client_host C J now S) h c b inc = Some (Ok payment)"
  shows "verify_signature C J (receiver_copy funding) c b (pm_signature payment) = Some (Ok ()) \<and>
    pm_channel_id payment = c \<and> pm_balance payment = b \<and> b \<le> cf_capacity funding \<and>
    cst_get_state S (cch_storage h) c = Some ClientOpen"
proof -
  let ?H = "configurable_client_host C J now S"
  obtain u sig update where f: "hc_get_channel_state ?H h c = Some ClientOpen" "b \<le> cf_capacity funding"
    "unsigned_update_new C J c b funding = Some (Ok u)"
    and sign: "hc_sign_with_tweaked_key ?H h (cf_sender_pubkey_hex funding) (ub_message_hex u) (ub_tweak_scalar_hex u) = Ok sig"
    and up: "unsigned_update_sign J u sig = Ok update"
    and pay: "pm_signature payment = sig_to_string J (bu_signature update)" "pm_channel_id payment = c" "pm_balance payment = b"
    by (rule sign_payment_OkD [OF assms(11)]) (use assms(6) in \<open>auto simp: configurable_client_host_def\<close>)
  obtain alice where key: "map_of (cch_keys h) (cf_sender_pubkey_hex funding) = Some alice"
    and sign': "sign_with_tweaked_key_util C J (hex_encode C alice) (ub_message_hex u) (ub_tweak_scalar_hex u) = Ok sig"
    using sign by (auto simp: configurable_client_host_def cch_sign_with_tweaked_key_def get_secret_def rbind_eq_Ok ok_or_def
        split: option.splits)
  have "sender_pubkey p = public_key C alice"
    using keys_indexed_found [OF assms(5) key] assms(4,10) by (auto simp: key_texts_faithful_def dest: injD)
  moreover have "sk_from_hex J (hex_encode C alice) = Ok alice" using assms(4) by (simp add: key_texts_faithful_def)
  ultimately obtain proofs channel where ch: "proofs_parse J (cf_funding_proofs_json funding) = Ok proofs"
    "established_new J p proofs = Some (Ok channel)" "bu_channel_id update = c" "bu_amount update = b"
    "verify_sender_signature C J update channel = Some (Ok ())"
    using external_update_verifies [OF assms(1-3,7-9) f(3) _ _ sign' up] by auto
  have load: "load_params J id id ''Invalid secret length'' (cf_channel_secret_hex funding) (cf_keyset_info_json funding)
      (cf_params_json funding) = Some (Ok p)"
    using assms(7-9) by (auto simp: load_params_def decode_secret_def rbind_eq_Ok run_bind_eq_Ok split: if_splits)
  have "sig_parse J (pm_signature payment) = Ok (bu_signature update)"
    using assms(3) by (simp add: pay texts_faithful_def)
  moreover have "verify_sender_signature C J \<lparr>bu_channel_id = c, bu_amount = b, bu_signature = bu_signature update\<rparr> channel = Some (Ok ())"
    using ch(3-5) by (cases update) simp
  ultimately have "verify_signature C J (receiver_copy funding) c b (pm_signature payment) = Some (Ok ())"
    using load ch by (simp add: verify_signature_def receiver_copy_def run_bind_eq_Ok)
  then show ?thesis using f pay by (simp add: configurable_client_host_def)
qed

section \<open>Recording a payment\<close>

context client_host
begin

lemma records_payment:
  assumes "ok s" "w_phase (V s (pm_channel_id q)) \<noteq> Absent" "record_signed_payment H q s = (r, s')"
  shows "ok s' \<and> is_ok r \<and> V s' = (V s)(pm_channel_id q := (V s (pm_channel_id q))\<lparr>w_payment :=
    Some \<lparr>cps_balance = pm_balance q, cps_signature = pm_signature q,
      cps_payment_count = (case w_payment (V s (pm_channel_id q)) of None \<Rightarrow> 0 | Some st \<Rightarrow> cps_payment_count st) + 1,
      cps_last_payment_at = hc_now_seconds H s\<rparr>\<rparr>)"
proof -
  let ?p = "\<lparr>cps_balance = pm_balance q, cps_signature = pm_signature q,
      cps_payment_count = (case w_payment (V s (pm_channel_id q)) of None \<Rightarrow> 0 | Some st \<Rightarrow> cps_payment_count st) + 1,
      cps_last_payment_at = hc_now_seconds H s\<rparr>"
  let ?op = "SavePayment (pm_channel_id q) ?p"
  have doc: "documented_in ?op (V s)" using assms(2) by (cases "w_phase (V s (pm_channel_id q))") (simp_all add: documented_in_def)
  have run: "run_host_op H ?op s = (r, s')"
    using assms(3) by (simp add: record_signed_payment_def host_shows_payment [OF assms(1)] Let_def)
  have "next_phase ?op phase = Some phase" for phase by (cases phase) simp_all
  then have "spec_client_step ?op (V s) = Some ((V s)(pm_channel_id q := (V s (pm_channel_id q))\<lparr>w_payment := Some ?p\<rparr>))"
    by (cases "V s (pm_channel_id q)") (simp add: spec_client_step_def client_step_def)
  then show ?thesis using host_follows [OF assms(1) doc run] by simp
qed

lemma signs_and_records:
  assumes "ok s" "sign_and_record_payment C J H c b s = Some (r, s')"
  shows "(case r of
      Err e \<Rightarrow> s' = s
    | Ok payment \<Rightarrow> sign_payment C J H s c b = Some (Ok payment) \<and> ok s' \<and>
        (\<exists>funding. w_phase (V s c) = Funded ClientOpen funding \<and> b \<le> cf_capacity funding) \<and>
        V s' = (V s)(c := (V s c)\<lparr>w_payment := Some \<lparr>cps_balance = b, cps_signature = pm_signature payment,
          cps_payment_count = (case w_payment (V s c) of None \<Rightarrow> 0 | Some st \<Rightarrow> cps_payment_count st) + 1,
          cps_last_payment_at = hc_now_seconds H s\<rparr>\<rparr>))"
proof -
  obtain x where x: "sign_payment C J H s c b = Some x" using assms(2) by (auto simp: sign_and_record_payment_def)
  show ?thesis
  proof (cases x)
    case (Inl e)
    then show ?thesis using assms(2) x by (auto simp: sign_and_record_payment_def)
  next
    case (Inr payment)
    have s: "sign_payment_internal C J H s c b False = Some (Ok payment)" using x Inr by (simp add: sign_payment_def)
    obtain funding where f: "hc_get_channel_funding H s c = Some funding" "hc_get_channel_state H s c = Some ClientOpen"
      "b \<le> cf_capacity funding" "pm_channel_id payment = c" "pm_balance payment = b"
      by (rule sign_payment_OkD [OF s]) blast
    then have phase: "w_phase (V s c) = Funded ClientOpen funding"
      using host_shows_funding [OF assms(1), of c] host_shows_state [OF assms(1), of c] by (cases "w_phase (V s c)") auto
    obtain r1 s1 where r1: "record_signed_payment H payment s = (r1, s1)" by (cases "record_signed_payment H payment s")
    note rec = records_payment [OF assms(1) _ r1]
    have "is_ok r1" using rec phase f(4) by simp
    then have "r = Ok payment \<and> s' = s1"
      using assms(2) x Inr r1 by (auto simp: sign_and_record_payment_def is_ok_def split: sum.splits)
    then show ?thesis using rec phase f x Inr by simp
  qed
qed

lemma signs_only_open:
  assumes "ok s" "w_phase (V s c) = Funded st funding" "st \<noteq> ClientOpen"
  shows "\<exists>e. sign_payment_internal C J H s c b inc = Some (Err e)"
  using assms host_shows_funding [OF assms(1), of c] host_shows_state [OF assms(1), of c]
  by (simp add: sign_payment_internal_def is_payable_def run_bind_def)

end

text \<open>C39: signing and recording a payment over the SQLite storage records exactly the payment returned.  On success
  the channel is open, the balance is within its capacity, and its payment state becomes the balance and
  signature of the payment with the count increased by one; the rest of the channel and every other
  channel stay as they were.  On an error the host is unchanged.\<close>

theorem signed_payment_recorded:
  assumes "sqlite_client_ok K (cch_storage h)"
    "sign_and_record_payment C J (configurable_client_host C J now (sqlite_client_storage J K clock)) c b h = Some (r, h')"
  shows "case r of
      Err e \<Rightarrow> h' = h
    | Ok payment \<Rightarrow> sign_payment C J (configurable_client_host C J now (sqlite_client_storage J K clock)) h c b = Some (Ok payment) \<and>
        sqlite_client_ok K (cch_storage h') \<and>
        (\<exists>funding. qc_phase K (cch_storage h) c = Funded ClientOpen funding \<and> b \<le> cf_capacity funding) \<and>
        qc_view K (cch_storage h') = (qc_view K (cch_storage h))(c := (qc_view K (cch_storage h) c)\<lparr>w_payment :=
          Some \<lparr>cps_balance = b, cps_signature = pm_signature payment,
            cps_payment_count = (case qc_get_payment_state K (cch_storage h) c of None \<Rightarrow> 0 | Some st \<Rightarrow> cps_payment_count st) + 1,
            cps_last_payment_at = now\<rparr>\<rparr>)"
  using sql_client_host.cch.signs_and_records [OF assms] by (cases r) (simp_all add: qc_view_def configurable_client_host_def)


section \<open>Example runs\<close>

text \<open>The host holds the sender's key, and its storage the funding of the example channel.\<close>

definition paying_funding :: ClientChannelFunding where
  "paying_funding = example_client_funding\<lparr>cf_sender_pubkey_hex := latin1 [2, 1]\<rparr>"

definition paying_opening :: ClientChannelOpeningFromSwap where
  "paying_opening =
     \<lparr>ow_params_json = ''p'', ow_channel_secret_hex = example_secret, ow_keyset_info_json = ''k'',
      ow_sender_pubkey_hex = latin1 [2, 1], ow_receiver_pubkey_hex = ''b'', ow_capacity = 3, ow_funding_token_amount = 3,
      ow_mint_url = ''m'', ow_unit = ''sat'', ow_input_token = ''t'', ow_change_secrets_json = ''[]'', ow_change_amount_raw = 0,
      ow_created_at = 0\<rparr>"

definition paying_ops :: "client_op list" where
  "paying_ops = [SaveOpening ''c'' paying_opening, SetOpen ''c'' []]"

abbreviation paying_store :: "client_stored SqliteClientStorage ClientStorage" where
  "paying_store \<equiv> sqlite_client_storage text_codec example_client_codec 7"

definition paying_host :: "client_stored SqliteClientStorage ConfigurableClientHost" where
  "paying_host =
     add_key constant_crypto text_codec [2, 1] (client_host_new (snd (run_client_ops paying_store paying_ops client_init_schema)))"

abbreviation paying_bridge :: "client_stored SqliteClientStorage ConfigurableClientHost SpilmanClientHost" where
  "paying_bridge \<equiv> configurable_client_host constant_crypto text_codec 9 paying_store"

lemma paying_host_ok: "sqlite_client_ok example_client_codec (cch_storage paying_host)"
proof -
  have "documented_run paying_ops (\<lambda>_. \<lparr>w_phase = Absent, w_payment = None\<rparr>)" by code_simp
  then have "sqlite_client_ok example_client_codec (snd (run_client_ops paying_store paying_ops client_init_schema))"
    using sql_client.follows_run [OF client_init_ok(1) [OF example_client_codec_faithful], of paying_ops text_codec 7]
    unfolding client_init_ok(2) [OF example_client_codec_faithful]
    by (cases "run_client_ops paying_store paying_ops client_init_schema") simp
  then show ?thesis by (simp add: paying_host_def add_key_def client_host_new_def)
qed

lemma paying_host_keys: "keys_indexed constant_crypto text_codec paying_host"
  unfolding paying_host_def by (rule keys_indexed_add) (rule keys_indexed_kept)

lemma paying_host_funding: "cst_get_funding paying_store (cch_storage paying_host) ''c'' = Some paying_funding"
  by code_simp

lemma paying_signs:
  "map_option is_ok (sign_payment_internal constant_crypto text_codec paying_bridge paying_host ''c'' 1 True) = Some True"
  by code_simp

lemma constant_key_texts: "key_texts_faithful constant_crypto text_codec"
proof -
  have bytes: "string_bytes (latin1 x) = x" for x by simp
  have "inj latin1" by (rule inj_on_inverseI [where g = string_bytes]) (rule bytes)
  then show ?thesis using bytes
    by (simp add: key_texts_faithful_def constant_crypto_def short_crypto_def example_crypto_def text_codec_def short_codec_def
        example_codec_def del: latin1_def)
qed

theorem client_payment_accepted_witness:
  "\<exists>payment. sign_payment_internal constant_crypto text_codec paying_bridge paying_host ''c'' 1 True = Some (Ok payment) \<and>
     verify_signature constant_crypto text_codec (receiver_copy paying_funding) ''c'' 1 (pm_signature payment) = Some (Ok ())"
proof -
  obtain x where "example_parsed = Some (Ok x)" using run_ok_obtain [OF example_parsed_ok] by blast
  then obtain ks secret p where p: "parse_keyset_info_from_json text_codec (cf_keyset_info_json paying_funding) = Ok ks"
    "decode_secret text_codec ''Channel secret'' (cf_channel_secret_hex paying_funding) = Ok secret"
    "from_json_with_channel_secret text_codec (cf_params_json paying_funding) ks secret = Some (Ok p)"
    and s: "[2, 1] = sender_pubkey p"
    by (auto simp: example_parsed_def paying_funding_def example_client_funding_def run_bind_eq_Ok rbind_eq_Ok split: if_splits)
  have "cf_sender_pubkey_hex paying_funding = pk_to_hex text_codec (sender_pubkey p)"
    by (simp add: paying_funding_def text_codec_def short_codec_def example_codec_def s [symmetric])
  moreover obtain payment where
    "sign_payment_internal constant_crypto text_codec paying_bridge paying_host ''c'' 1 True = Some (Ok payment)"
    using run_ok_obtain [OF paying_signs] by blast
  ultimately show ?thesis
    using client_payment_accepted [OF constant_laws constant_key_texts paying_host_keys paying_host_funding p] by blast
qed

lemma paying_records:
  "map_option (is_ok \<circ> fst) (sign_and_record_payment constant_crypto text_codec paying_bridge ''c'' 1 paying_host) = Some True"
  by code_simp

theorem signed_payment_recorded_witness:
  "\<exists>payment h'. sign_and_record_payment constant_crypto text_codec paying_bridge ''c'' 1 paying_host = Some (Ok payment, h') \<and>
     sqlite_client_ok example_client_codec (cch_storage h')"
proof -
  obtain r h' where run: "sign_and_record_payment constant_crypto text_codec paying_bridge ''c'' 1 paying_host = Some (r, h')" "is_ok r"
    using paying_records by (auto simp: comp_def)
  then obtain payment where "r = Ok payment" using is_ok_obtain by blast
  then show ?thesis using run signed_payment_recorded [OF paying_host_ok run(1)] by auto
qed


end
