(* ===== verification/Spec2Isabelle.thy ===== *)
theory Spec2Isabelle
  imports Close KeysetVersions ClientBridge
begin

text \<open>
  A verification library for the Cashu Spilman channel crate (\<open>src/crates/cdk-spilman\<close>).

  A Spilman channel is a one-way payment channel over ecash.  A sender locks proofs of a mint to both parties;
  each payment is a signature of the sender on a swap of these proofs that gives the receiver a growing
  share; the receiver closes the channel by submitting the last such swap, and the sender takes the proofs
  back after an expiry time when the receiver does not.  The crate has a receiver side (a bridge over a
  host over a storage), a sender side (a client bridge over a client host over a client storage), and the
  protocol both compute: parameters, derived keys, deterministic outputs, amounts and fees.

  \<^bold>\<open>Conventions.\<close>  Machine integers are words of their width: \<open>u64\<close> and \<open>usize\<close> are \<open>64 word\<close>, whose operations
  wrap as unchecked Rust arithmetic does in release builds; checked and saturating operations are written
  out.  Strings and byte arrays are lists.  A fallible function returns a \<open>result\<close> (\<open>Ok\<close> or \<open>Err\<close>).  A function
  that contains a loop without an evident bound returns a \<open>run\<close>, which is \<open>None\<close> when the loop does not end;
  such loops are defined by \<open>partial_function\<close>, and where the code means to return this is proved.  A function
  that changes state takes the state and returns the new one, also on an error.  A trait is a record of
  operations on an abstract state; its contract is a locale, interpreted on the crate's implementations.

  \<^bold>\<open>Code outside the crate.\<close>  Hashes, curve operations, blind signatures, signature schemes, JSON and other
  text codecs come from third-party crates.  They are the fields of the records \<open>crypto\<close>, \<open>codec\<close>, \<open>bridge_codec\<close>,
  \<open>close_codec\<close>, \<open>row_codec\<close> and \<open>client_codec\<close>, which every definition takes as an argument; what a property needs of them is
  a named predicate such as \<open>secp_laws\<close>, \<open>schnorr_correct\<close> or \<open>texts_faithful\<close>, and each property with such a
  hypothesis has a witness in which concrete functions satisfy it.  The mint is likewise an argument: a
  function from requests to results.

  \<^bold>\<open>Theories, and the files they model.\<close>

  \<^item> \<open>Prelude\<close>: results, runs, checked arithmetic on words, strings, B-tree maps; the lemmas the components share.
  \<^item> \<open>External\<close>: the records of outside functions, JSON values, proofs and swap requests, with a concrete instance.
  \<^item> \<open>KeysetsAmounts\<close> (\<open>keysets_and_amounts.rs\<close>): keysets, the greedy split of an amount, fees, and the inverse of the
    fee function.  The split is exact, uses the fewest coins for canonical denominations, refines a reference
    split by division, and diverges exactly for a keyset with a zero denomination; the inverse gives the
    smallest amount.
  \<^item> \<open>Tlv\<close> and \<open>Params\<close> (\<open>params.rs\<close>): channel parameters, the canonical encoding behind the channel id, derived
    keys and scalars.  Equal channel ids mean equal parameters or a hash collision; both parties derive
    corresponding keys and the same parameters; the JSON form round trips; the minimum funding is minimal.
  \<^item> \<open>SwapCompletion\<close> (\<open>swap_completion.rs\<close> and the exact-completion part of \<open>bindings.rs\<close>): matching of restore
    responses and completion of a swap, ordinary or rerandomized.
  \<^item> \<open>Deterministic\<close> (\<open>deterministic.rs\<close>): deterministic outputs and commitments for a balance.  A commitment
    splits the value after fees without loss, exists for every balance up to the capacity, and pays what it
    says when completed.
  \<^item> \<open>Bindings\<close> (\<open>bindings.rs\<close>): parsing of keysets and prepared outputs, opening a channel from proofs, signing with
    a tweaked key.
  \<^item> \<open>Channel\<close> (\<open>balance_update.rs\<close>, parts of \<open>established_channel.rs\<close> and \<open>sender_and_receiver.rs\<close>): balance updates and
    the verification of a channel.
  \<^item> \<open>MintOutcome\<close> (\<open>mint_outcome.rs\<close>, \<open>keyset_retry.rs\<close>): evidence from the mint and the retry with another keyset.
  \<^item> \<open>KeysetVersions\<close> (\<open>keyset_versions.rs\<close>): discovery of keysets and the selection policy.
  \<^item> \<open>Storage\<close>, \<open>MemoryStorage\<close>, \<open>SqliteStorage\<close> (\<open>configurable_host.rs\<close>): the receiver's storage, its contract
    \<open>channel_store\<close> with the lifecycle of a channel, and the two implementations.
  \<^item> \<open>Host\<close> (\<open>configurable_host.rs\<close>): the configured receiver, pricing, and the contract \<open>spilman_host\<close>.
  \<^item> \<open>Bridge\<close> and \<open>Close\<close> (\<open>bridge.rs\<close>): funding, payments and closing on the receiver's side, proved over the host
    contract and stated for the SQLite storage.
  \<^item> \<open>ClientStorage\<close>, \<open>SqliteClientStorage\<close> (\<open>client_storage.rs\<close>, \<open>sqlite_client_storage.rs\<close>): the client's storage, its
    contract \<open>client_store\<close> over the phases of a channel, and the two implementations, which documented calls
    cannot tell apart.
  \<^item> \<open>ClientHost\<close> (\<open>configurable_client_host.rs\<close>): keys and the contract \<open>client_host\<close>.
  \<^item> \<open>ClientBridge\<close> (\<open>client_bridge.rs\<close>): payments on the client's side, up to their acceptance by the receiver.

  \<^bold>\<open>Bounds.\<close>  No fuel is used.  The retry helper submits at most twice by construction; the splitting loop and the
  search of the inverse are partial functions with termination theorems.  A closing run is \<open>None\<close> exactly when
  one of these loops does not end.

  \<^bold>\<open>Not modelled.\<close>  Networking, the web framework, the durability settings of the database and the wrappers for other
  languages are input and output around the modelled operations.  The asynchronous variants of operations
  have the bodies of the synchronous ones.  Log messages, poisoned locks, failing SQL statements and
  the reading of configuration files are left out.  The kits for Go, Python and TypeScript repeat the Rust
  storage and host in other languages over the wrappers.
\<close>

end
